theory Spec2Isabelle
  imports Main "HOL-Library.Word"
begin

section \<open>Cross-reference resolution of clangd (XRefs.cpp)\<close>

text \<open>
  A shallow embedding of the resolution logic of
  \<^verbatim>\<open>clang-tools-extra/clangd/XRefs.cpp\<close>. Pointers to declarations are
  natural numbers, the collaborators the file only calls (source manager, token
  buffer, index, URI resolution) are parameters of the functions that use them,
  and every early return of the source is a branch of the model.
\<close>

subsection \<open>Sorting and adjacent-duplicate removal\<close>

text \<open>
  \<^verbatim>\<open>llvm::sort(Range, Comp)\<close> leaves the range ordered by the strict weak order
  \<^verbatim>\<open>Comp\<close>; the order of equivalent elements is unspecified. The model is an
  insertion sort with the same comparator that keeps equivalent elements in the
  order they arrived in. \<^verbatim>\<open>llvm::unique(Range, Pred)\<close> followed
  by \<^verbatim>\<open>erase\<close> keeps the first element of every run of consecutive elements
  that \<^verbatim>\<open>Pred\<close> relates to the kept one.
\<close>

fun sort_insert :: "('a \<Rightarrow> 'a \<Rightarrow> bool) \<Rightarrow> 'a \<Rightarrow> 'a list \<Rightarrow> 'a list" where
  "sort_insert lt x [] = [x]"
| "sort_insert lt x (y # ys) =
     (if lt y x then y # sort_insert lt x ys else x # y # ys)"

fun llvm_sort :: "('a \<Rightarrow> 'a \<Rightarrow> bool) \<Rightarrow> 'a list \<Rightarrow> 'a list" where
  "llvm_sort lt [] = []"
| "llvm_sort lt (x # xs) = sort_insert lt x (llvm_sort lt xs)"

fun llvm_unique :: "('a \<Rightarrow> 'a \<Rightarrow> bool) \<Rightarrow> 'a list \<Rightarrow> 'a list" where
  "llvm_unique eq [] = []"
| "llvm_unique eq [x] = [x]"
| "llvm_unique eq (x # y # ys) =
     (if eq x y then llvm_unique eq (x # ys) else x # llvm_unique eq (y # ys))"

subsection \<open>References in the main file\<close>

text \<open>
  \<^verbatim>\<open>SourceLocation\<close> is its raw unsigned encoding (its \<^verbatim>\<open>operator<\<close> compares
  the encodings), \<^verbatim>\<open>index::SymbolRoleSet\<close> a 32-bit set of role flags.
\<close>

type_synonym SourceLocation = nat
type_synonym SymbolRoleSet = "32 word"
type_synonym DeclPtr = nat

text \<open>The token kinds the file distinguishes; \<^verbatim>\<open>isStringLiteral\<close> is the one of
  \<^verbatim>\<open>clang/Basic/TokenKinds.h\<close>. A token carries its text (\<^verbatim>\<open>Tok.text(SM)\<close>).\<close>

datatype TokenKind =
  tk_identifier | tk_string_literal | tk_wide_string_literal | tk_utf8_string_literal
| tk_utf16_string_literal | tk_utf32_string_literal | tk_kw_auto | tk_kw_decltype
| tk_other nat

fun isStringLiteral :: "TokenKind \<Rightarrow> bool" where
  "isStringLiteral tk_string_literal = True"
| "isStringLiteral tk_wide_string_literal = True"
| "isStringLiteral tk_utf8_string_literal = True"
| "isStringLiteral tk_utf16_string_literal = True"
| "isStringLiteral tk_utf32_string_literal = True"
| "isStringLiteral _ = False"

record Token =
  tok_location :: SourceLocation
  tok_length :: nat
  tok_kind :: TokenKind
  tok_text :: string

record Reference =
  SpelledTok :: Token
  Role :: SymbolRoleSet
  Container :: "DeclPtr option"

text \<open>The two lambdas of \<^verbatim>\<open>ReferenceFinder::take\<close>: \<^verbatim>\<open>std::tie(LTok, L.Role) <
  std::tie(RTok, R.Role)\<close> and the same with \<^verbatim>\<open>==\<close>.\<close>

definition ref_less :: "Reference \<Rightarrow> Reference \<Rightarrow> bool" where
  "ref_less L R =
     (let LTok = tok_location (SpelledTok L); RTok = tok_location (SpelledTok R)
      in LTok < RTok \<or> (\<not> RTok < LTok \<and> Role L < Role R))"

definition ref_same :: "Reference \<Rightarrow> Reference \<Rightarrow> bool" where
  "ref_same L R =
     (let LTok = tok_location (SpelledTok L); RTok = tok_location (SpelledTok R)
      in LTok = RTok \<and> Role L = Role R)"

definition take_refs :: "Reference list \<Rightarrow> Reference list" where
  "take_refs References = llvm_unique ref_same (llvm_sort ref_less References)"

text \<open>
  One call of \<^verbatim>\<open>ReferenceFinder::handleDeclOccurrence\<close>. The occurrence carries what
  the indexing traversal reports: the canonical declaration, the roles, the location,
  whether the location is inside the main file, the selector locations when the
  originating node is an Objective-C message or method (empty otherwise), and the
  container. \<^verbatim>\<open>getFileLoc\<close> and \<^verbatim>\<open>spelledTokenContaining\<close> belong to the source
  manager and the token buffer.
\<close>

record Occurrence =
  occ_decl :: DeclPtr
  occ_roles :: SymbolRoleSet
  occ_loc :: SourceLocation
  occ_inside_main :: bool
  occ_selector_locs :: "SourceLocation list"
  occ_container :: "DeclPtr option"

record TokenEnv =
  getFileLoc :: "SourceLocation \<Rightarrow> SourceLocation"
  spelledTokenContaining :: "SourceLocation \<Rightarrow> Token option"

definition split_locs :: "bool \<Rightarrow> Occurrence \<Rightarrow> SourceLocation list" where
  "split_locs PerToken occ =
     (let Locs = (if PerToken then occ_selector_locs occ else []);
          Locs = (if Locs \<noteq> [] \<and> hd Locs \<noteq> occ_loc occ then [] else Locs)
      in if Locs = [] then [occ_loc occ] else Locs)"

fun push_refs ::
  "TokenEnv \<Rightarrow> Occurrence \<Rightarrow> SourceLocation list \<Rightarrow> Reference list \<Rightarrow> Reference list" where
  "push_refs env occ [] References = References"
| "push_refs env occ (L # Ls) References =
     (case spelledTokenContaining env (getFileLoc env L) of
        None \<Rightarrow> push_refs env occ Ls References
      | Some Tok \<Rightarrow>
          push_refs env occ Ls
            (References @ [\<lparr>SpelledTok = Tok, Role = occ_roles occ, Container = occ_container occ\<rparr>]))"

definition handleDeclOccurrence ::
  "TokenEnv \<Rightarrow> DeclPtr set \<Rightarrow> bool \<Rightarrow> Reference list \<Rightarrow> Occurrence \<Rightarrow> Reference list" where
  "handleDeclOccurrence env TargetDecls PerToken References occ =
     (if occ_decl occ \<notin> TargetDecls then References
      else if \<not> occ_inside_main occ then References
      else push_refs env occ (split_locs PerToken occ) References)"

text \<open>\<^verbatim>\<open>findRefs\<close>: the traversal feeds every occurrence to the finder, then
  \<^verbatim>\<open>take\<close> sorts and deduplicates. \<^verbatim>\<open>canonical\<close> is \<^verbatim>\<open>Decl::getCanonicalDecl\<close>.\<close>

definition findRefs ::
  "TokenEnv \<Rightarrow> (DeclPtr \<Rightarrow> DeclPtr) \<Rightarrow> DeclPtr list \<Rightarrow> bool \<Rightarrow> Occurrence list \<Rightarrow> Reference list" where
  "findRefs env canonical TargetDecls PerToken occs =
     take_refs (foldl (handleDeclOccurrence env (canonical ` set TargetDecls) PerToken) [] occs)"

text \<open>The orders the statements use: \<^verbatim>\<open>(location, role)\<close> pairs compared
  lexicographically.\<close>

definition ref_key :: "Reference \<Rightarrow> SourceLocation \<times> SymbolRoleSet" where
  "ref_key r = (tok_location (SpelledTok r), Role r)"

definition key_le :: "SourceLocation \<times> SymbolRoleSet \<Rightarrow> SourceLocation \<times> SymbolRoleSet \<Rightarrow> bool" where
  "key_le a b = (fst a < fst b \<or> (fst a = fst b \<and> snd a \<le> snd b))"

subsection \<open>Locations, symbols and the index\<close>

text \<open>
  The LSP \<^verbatim>\<open>Location\<close> (URI and range), the index's \<^verbatim>\<open>SymbolLocation\<close> (its
  \<^verbatim>\<open>operator bool\<close> is "the file URI is not empty"), \<^verbatim>\<open>SymbolID\<close> (the null id
  is 0), the \<^verbatim>\<open>LocatedSymbol\<close> the operations return and the index's \<^verbatim>\<open>Symbol\<close>.
\<close>

record Position =
  pos_line :: nat
  pos_character :: nat

record Range =
  range_start :: Position
  range_end :: Position

record Location =
  loc_uri :: string
  loc_range :: Range

record SymbolLocation =
  FileURI :: string
  sl_Start :: "nat \<times> nat"
  sl_End :: "nat \<times> nat"

definition symloc_valid :: "SymbolLocation \<Rightarrow> bool" where
  "symloc_valid Loc = (FileURI Loc \<noteq> [])"

definition empty_SymbolLocation :: SymbolLocation where
  "empty_SymbolLocation = \<lparr>FileURI = [], sl_Start = (0, 0), sl_End = (0, 0)\<rparr>"

type_synonym SymbolID = nat

definition empty_Range :: Range where
  "empty_Range = \<lparr>range_start = \<lparr>pos_line = 0, pos_character = 0\<rparr>,
                   range_end = \<lparr>pos_line = 0, pos_character = 0\<rparr>\<rparr>"

definition empty_Location :: Location where
  "empty_Location = \<lparr>loc_uri = [], loc_range = empty_Range\<rparr>"

record LocatedSymbol =
  Name :: string
  PreferredDeclaration :: Location
  Definition :: "Location option"
  ID :: SymbolID

definition empty_LocatedSymbol :: LocatedSymbol where
  "empty_LocatedSymbol =
     \<lparr>Name = [], PreferredDeclaration = empty_Location, Definition = None, ID = 0\<rparr>"

datatype SymbolKind =
  SK_Unknown | SK_Module | SK_Namespace | SK_NamespaceAlias | SK_Macro | SK_Enum
| SK_Struct | SK_Class | SK_Protocol | SK_Extension | SK_Union | SK_TypeAlias
| SK_Function | SK_Variable | SK_Field | SK_EnumConstant | SK_InstanceMethod
| SK_ClassMethod | SK_StaticMethod | SK_InstanceProperty | SK_ClassProperty
| SK_StaticProperty | SK_Constructor | SK_Destructor | SK_ConversionFunction
| SK_Parameter | SK_Using | SK_TemplateTypeParm | SK_TemplateTemplateParm
| SK_NonTypeTemplateParm | SK_Concept

record Symbol =
  sym_ID :: SymbolID
  sym_Name :: string
  sym_TemplateSpecializationArgs :: string
  sym_Kind :: SymbolKind
  sym_CanonicalDeclaration :: SymbolLocation
  sym_Definition :: SymbolLocation

definition empty_Symbol :: Symbol where
  "empty_Symbol =
     \<lparr>sym_ID = 0, sym_Name = [], sym_TemplateSpecializationArgs = [], sym_Kind = SK_Unknown,
      sym_CanonicalDeclaration = empty_SymbolLocation, sym_Definition = empty_SymbolLocation\<rparr>"

datatype RelationKind = BaseOf | OverriddenBy

record FuzzyFindRequest =
  req_Query :: string
  req_Scopes :: "string list"
  req_AnyScope :: bool
  req_Limit :: "nat option"
  req_ProximityPaths :: "string list"

text \<open>
  \<^verbatim>\<open>SymbolIndex\<close>: each query hands the symbols it finds to a callback, one by one;
  the model returns them as the list the callback sees. A null \<^verbatim>\<open>Index\<close> pointer is
  \<open>None\<close>.
\<close>

record SymbolIndex =
  idx_fuzzyFind :: "FuzzyFindRequest \<Rightarrow> Symbol list"
  idx_lookup :: "SymbolID set \<Rightarrow> Symbol list"
  idx_relations :: "SymbolID set \<Rightarrow> RelationKind \<Rightarrow> (SymbolID \<times> Symbol) list"

text \<open>
  Functions of clangd and LLVM that the file calls and does not define:
  \<^verbatim>\<open>indexToLSPLocation\<close> (an \<^verbatim>\<open>llvm::Expected\<close>, \<open>None\<close> for the error),
  \<^verbatim>\<open>mergeSymbol\<close>, the \<^verbatim>\<open>SymbolID\<close> hash of a string, the packing of a line and of a
  column into a \<^verbatim>\<open>SymbolLocation::Position\<close>, \<^verbatim>\<open>llvm::sys::path::filename\<close> and
  \<^verbatim>\<open>URIForFile::canonicalize\<close>.
\<close>

record Lib =
  indexToLSPLocation :: "SymbolLocation \<Rightarrow> string \<Rightarrow> Location option"
  mergeSymbol :: "Symbol \<Rightarrow> Symbol \<Rightarrow> Symbol"
  hashSymbolID :: "string \<Rightarrow> SymbolID"
  setLine :: "nat \<Rightarrow> nat"
  setColumn :: "nat \<Rightarrow> nat"
  path_filename :: "string \<Rightarrow> string"
  URI_canonicalize :: "string \<Rightarrow> string \<Rightarrow> string"

subsection \<open>The textual fallback\<close>

datatype ASTNodeKind =
  NK_None | NK_OverloadExpr | NK_CXXDependentScopeMemberExpr
| NK_DependentScopeDeclRefExpr | NK_OverrideAttr | NK_FinalAttr | NK_Other nat

definition isDependentName :: "ASTNodeKind \<Rightarrow> bool" where
  "isDependentName NodeKind =
     (NodeKind = NK_OverloadExpr \<or> NodeKind = NK_CXXDependentScopeMemberExpr
      \<or> NodeKind = NK_DependentScopeDeclRefExpr)"

record SpelledWord =
  w_Location :: SourceLocation
  w_Text :: string
  w_LikelyIdentifier :: bool
  w_PartOfSpelledToken :: "Token option"
  w_ExpandedToken :: "Token option"

text \<open>
  The callback \<^verbatim>\<open>locateSymbolTextually\<close> gives to \<^verbatim>\<open>fuzzyFind\<close>. Its state is the
  pair \<^verbatim>\<open>(ScoredResults, TooMany)\<close>. \<open>score\<close> is
  \<^verbatim>\<open>evaluateSymbolAndRelevance\<close> of the symbol's quality and relevance signals, a
  \<^verbatim>\<open>float\<close> in the source and any linear order here.
\<close>

definition textual_located :: "Lib \<Rightarrow> string \<Rightarrow> Symbol \<Rightarrow> LocatedSymbol option" where
  "textual_located lib MainFilePath Sym =
     (case indexToLSPLocation lib (sym_CanonicalDeclaration Sym) MainFilePath of
        None \<Rightarrow> None
      | Some DeclLoc \<Rightarrow>
          (let Located = empty_LocatedSymbol
                 \<lparr>PreferredDeclaration := DeclLoc,
                  Name := sym_Name Sym @ sym_TemplateSpecializationArgs Sym,
                  ID := sym_ID Sym\<rparr>
           in if symloc_valid (sym_Definition Sym)
              then (case indexToLSPLocation lib (sym_Definition Sym) MainFilePath of
                      None \<Rightarrow> None
                    | Some DefLoc \<Rightarrow>
                        Some (Located\<lparr>PreferredDeclaration := DefLoc, Definition := Some DefLoc\<rparr>))
              else Some Located))"

definition textual_callback ::
  "Lib \<Rightarrow> (Symbol \<Rightarrow> 's) \<Rightarrow> string \<Rightarrow> string \<Rightarrow>
   ('s \<times> LocatedSymbol) list \<times> bool \<Rightarrow> Symbol \<Rightarrow> ('s \<times> LocatedSymbol) list \<times> bool" where
  "textual_callback lib score WordText MainFilePath st Sym =
     (if sym_Name Sym \<noteq> WordText then st
      else if sym_Kind Sym = SK_Constructor then st
      else case textual_located lib MainFilePath Sym of
             None \<Rightarrow> st
           | Some Located \<Rightarrow>
               if length (fst st) \<ge> 5 then (fst st, True)
               else (fst st @ [(score Sym, Located)], snd st))"

definition locateSymbolTextually ::
  "Lib \<Rightarrow> (Symbol \<Rightarrow> 's::linorder) \<Rightarrow> (SourceLocation \<Rightarrow> string list) \<Rightarrow>
   SpelledWord \<Rightarrow> SymbolIndex option \<Rightarrow> string \<Rightarrow> ASTNodeKind \<Rightarrow> LocatedSymbol list" where
  "locateSymbolTextually lib score visibleNamespaces Word Index MainFilePath NodeKind =
     (if (w_ExpandedToken Word \<noteq> None \<and> \<not> isDependentName NodeKind)
         \<or> \<not> w_LikelyIdentifier Word then []
      else case Index of
        None \<Rightarrow> []
      | Some idx \<Rightarrow>
          if (case w_PartOfSpelledToken Word of
                None \<Rightarrow> False | Some T \<Rightarrow> isStringLiteral (tok_kind T)) then []
          else
            (let Req = \<lparr>req_Query = w_Text Word,
                        req_Scopes = visibleNamespaces (w_Location Word),
                        req_AnyScope = True, req_Limit = Some 10,
                        req_ProximityPaths = [MainFilePath]\<rparr>;
                 (ScoredResults, TooMany) =
                   foldl (textual_callback lib score (w_Text Word) MainFilePath) ([], False)
                     (idx_fuzzyFind idx Req)
             in if TooMany then []
                else map snd (llvm_sort (\<lambda>A B. fst A > fst B) ScoredResults)))"

text \<open>The symbols of an index answer that pass every filter of the callback: exact
  name, not a constructor, locations that convert.\<close>

definition textual_candidate :: "Lib \<Rightarrow> string \<Rightarrow> string \<Rightarrow> Symbol \<Rightarrow> bool" where
  "textual_candidate lib WordText MainFilePath Sym =
     (sym_Name Sym = WordText \<and> sym_Kind Sym \<noteq> SK_Constructor
      \<and> textual_located lib MainFilePath Sym \<noteq> None)"

text \<open>The scored entry the callback pushes for a candidate.\<close>

definition scored :: "Lib \<Rightarrow> (Symbol \<Rightarrow> 's) \<Rightarrow> string \<Rightarrow> Symbol \<Rightarrow> 's \<times> LocatedSymbol" where
  "scored lib score P Sym = (score Sym, the (textual_located lib P Sym))"

subsection \<open>Declarations\<close>

text \<open>
  The classes of \<^verbatim>\<open>NamedDecl\<close> that the file tells apart with \<^verbatim>\<open>dyn_cast\<close> and
  \<^verbatim>\<open>isa\<close>, with Clang's subclass relation: a C++ record and a class template
  specialization are tags, a C++ method is a function, variables and functions are
  value declarations, and interfaces, protocols, categories and implementations are
  Objective-C containers. \<open>C_OtherValue\<close> is a value declaration that is neither a
  variable nor a function (a field, an enumerator); \<open>C_Other\<close> any other named
  declaration.
\<close>

datatype DeclClass =
  C_Tag | C_CXXRecord | C_ClassTemplateSpecialization
| C_Var | C_Function | C_CXXMethod | C_OtherValue
| C_ClassTemplate
| C_ObjCMethod | C_ObjCInterface | C_ObjCProtocol | C_ObjCCategory | C_ObjCImpl
| C_TemplateTypeParm | C_TemplateTemplateParm
| C_Namespace | C_Other

definition isa_TagDecl :: "DeclClass \<Rightarrow> bool" where
  "isa_TagDecl c = (c = C_Tag \<or> c = C_CXXRecord \<or> c = C_ClassTemplateSpecialization)"

definition isa_FunctionDecl :: "DeclClass \<Rightarrow> bool" where
  "isa_FunctionDecl c = (c = C_Function \<or> c = C_CXXMethod)"

definition isa_ValueDecl :: "DeclClass \<Rightarrow> bool" where
  "isa_ValueDecl c = (c = C_Var \<or> c = C_Function \<or> c = C_CXXMethod \<or> c = C_OtherValue)"

definition isa_ObjCContainerDecl :: "DeclClass \<Rightarrow> bool" where
  "isa_ObjCContainerDecl c =
     (c = C_ObjCInterface \<or> c = C_ObjCProtocol \<or> c = C_ObjCCategory \<or> c = C_ObjCImpl)"

text \<open>
  What the file asks of a declaration, as functions of the pointer: they are Clang's
  and clangd's (\<^verbatim>\<open>AST.h\<close>), not defined in the file. \<open>decl_getDefinition\<close> is
  \<^verbatim>\<open>getDefinition()\<close> of a tag, variable, function, Objective-C interface or
  protocol; \<open>impl_getMethod Impl MD\<close> is \<^verbatim>\<open>Impl->getMethod(MD->getSelector(),
  MD->isInstanceMethod())\<close>; \<open>cxx_overridden_methods\<close> is
  \<^verbatim>\<open>CXXMethodDecl::overridden_methods()\<close> and \<open>objc_getOverriddenMethods\<close> the
  Objective-C one.
\<close>

record DeclAPI =
  declClass :: "DeclPtr \<Rightarrow> DeclClass"
  getCanonicalDecl :: "DeclPtr \<Rightarrow> DeclPtr"
  decl_getDefinition :: "DeclPtr \<Rightarrow> DeclPtr option"
  getTemplatedDecl :: "DeclPtr \<Rightarrow> DeclPtr option"
  isThisDeclarationADefinition :: "DeclPtr \<Rightarrow> bool"
  getDeclContext :: "DeclPtr \<Rightarrow> DeclPtr"
  isInvalidDecl :: "DeclPtr \<Rightarrow> bool"
  getCorrespondingObjCImpl :: "DeclPtr \<Rightarrow> DeclPtr option"
  impl_getMethod :: "DeclPtr \<Rightarrow> DeclPtr \<Rightarrow> DeclPtr option"
  nameLocation :: "DeclPtr \<Rightarrow> SourceLocation"
  printName :: "DeclPtr \<Rightarrow> string"
  getSymbolID :: "DeclPtr \<Rightarrow> SymbolID"
  isPureVirtual :: "DeclPtr \<Rightarrow> bool"
  getLocation :: "DeclPtr \<Rightarrow> SourceLocation"
  cxx_overridden_methods :: "DeclPtr \<Rightarrow> DeclPtr list"
  getSelectorLocs :: "DeclPtr \<Rightarrow> SourceLocation list"
  objc_getOverriddenMethods :: "DeclPtr \<Rightarrow> DeclPtr list"
  getBeginLoc :: "DeclPtr \<Rightarrow> SourceLocation"
  getEndLoc :: "DeclPtr \<Rightarrow> SourceLocation"
  getSpecializedTemplate :: "DeclPtr \<Rightarrow> DeclPtr"
  getClassInterface :: "DeclPtr \<Rightarrow> DeclPtr option"
  getName :: "DeclPtr \<Rightarrow> string"

text \<open>\<^verbatim>\<open>getDefinition\<close>: \<open>None\<close> is the null pointer. The Objective-C method branch
  either returns (\<open>Some\<close> of what it returns) or falls through (\<open>None\<close>).\<close>

definition getDefinition_objc_method :: "DeclAPI \<Rightarrow> DeclPtr \<Rightarrow> DeclPtr option option" where
  "getDefinition_objc_method ctx MD =
     (if isThisDeclarationADefinition ctx MD then Some (Some MD)
      else let DeclCtx = getDeclContext ctx MD
           in if isInvalidDecl ctx DeclCtx then Some None
              else if isa_ObjCContainerDecl (declClass ctx DeclCtx)
                   then (case getCorrespondingObjCImpl ctx DeclCtx of
                           Some Impl \<Rightarrow> Some (impl_getMethod ctx Impl MD)
                         | None \<Rightarrow> None)
                   else None)"

definition getDefinition_tail :: "DeclAPI \<Rightarrow> DeclPtr \<Rightarrow> DeclPtr option" where
  "getDefinition_tail ctx D =
     (if isa_ObjCContainerDecl (declClass ctx D) then getCorrespondingObjCImpl ctx D
      else if isa_ValueDecl (declClass ctx D) \<or> declClass ctx D = C_TemplateTypeParm
              \<or> declClass ctx D = C_TemplateTemplateParm
           then Some D
      else None)"

definition getDefinition :: "DeclAPI \<Rightarrow> DeclPtr \<Rightarrow> DeclPtr option" where
  "getDefinition ctx D =
     (if isa_TagDecl (declClass ctx D) then decl_getDefinition ctx D
      else if declClass ctx D = C_Var then decl_getDefinition ctx D
      else if isa_FunctionDecl (declClass ctx D) then decl_getDefinition ctx D
      else if declClass ctx D = C_ClassTemplate \<and> getTemplatedDecl ctx D \<noteq> None
           then decl_getDefinition ctx (the (getTemplatedDecl ctx D))
      else if declClass ctx D = C_ObjCMethod \<and> getDefinition_objc_method ctx D \<noteq> None
           then the (getDefinition_objc_method ctx D)
      else getDefinition_tail ctx D)"

text \<open>\<^verbatim>\<open>getPreferredDecl\<close>.\<close>

definition getPreferredDecl :: "DeclAPI \<Rightarrow> DeclPtr \<Rightarrow> DeclPtr" where
  "getPreferredDecl ctx D0 =
     (let D = getCanonicalDecl ctx D0
      in if declClass ctx D = C_ObjCInterface \<and> decl_getDefinition ctx D \<noteq> None
         then the (decl_getDefinition ctx D)
         else if declClass ctx D = C_ObjCProtocol \<and> decl_getDefinition ctx D \<noteq> None
         then the (decl_getDefinition ctx D)
         else D)"

text \<open>
  What Clang guarantees of redeclaration chains, as far as \<^verbatim>\<open>getPreferredDecl\<close>
  depends on it: the canonical declaration is the first of its chain, so it is its
  own canonical declaration, and the definition of an Objective-C interface or
  protocol is a declaration of the same chain.
\<close>

definition redecl_chains_ok :: "DeclAPI \<Rightarrow> bool" where
  "redecl_chains_ok ctx =
     ((\<forall>D. getCanonicalDecl ctx (getCanonicalDecl ctx D) = getCanonicalDecl ctx D)
      \<and> (\<forall>D Def. (declClass ctx D = C_ObjCInterface \<or> declClass ctx D = C_ObjCProtocol)
             \<longrightarrow> decl_getDefinition ctx D = Some Def
             \<longrightarrow> getCanonicalDecl ctx Def = getCanonicalDecl ctx D))"

subsection \<open>The parsed file\<close>

text \<open>
  The source manager, the token buffer and the parsed file, as far as the file uses
  them. \<open>getFileEntryRef\<close> is \<^verbatim>\<open>SM.getFileEntryRefForID(SM.getFileID(Loc))\<close>,
  \<open>translateLineCol L\<close> is \<^verbatim>\<open>SM.translateLineCol(File, L, 1)\<close> in the file of the
  word, \<open>expandedTokensAt Loc\<close> is
  \<^verbatim>\<open>TB.expandedTokens(SM.getMacroArgExpandedLocation(Loc))\<close>, \<open>wordTouching\<close> is
  \<^verbatim>\<open>SpelledWord::touching\<close> and \<open>visibleNamespacesAt Loc\<close> is \<^verbatim>\<open>visibleNamespaces\<close>
  of the source before \<open>Loc\<close>. \<open>selectionTrees Offset\<close> lists, for each tree
  \<^verbatim>\<open>SelectionTree::createEach\<close> offers, its common ancestor (if any).
\<close>

record SourceManager =
  getSpellingLoc :: "SourceLocation \<Rightarrow> SourceLocation"
  isPointWithin :: "SourceLocation \<Rightarrow> SourceLocation \<Rightarrow> SourceLocation \<Rightarrow> bool"
  getSpellingLineNumber :: "SourceLocation \<Rightarrow> nat"
  translateLineCol :: "nat \<Rightarrow> SourceLocation"
  getFileEntryRef :: "SourceLocation \<Rightarrow> nat option"
  getCanonicalPath :: "nat \<Rightarrow> string option"
  MeasureTokenLength :: "SourceLocation \<Rightarrow> nat"
  halfOpenToRange :: "SourceLocation \<Rightarrow> SourceLocation \<Rightarrow> Range"
  sourceLocationInMainFile :: "Position \<Rightarrow> SourceLocation option"
  getDecomposedSpellingOffset :: "SourceLocation \<Rightarrow> nat"

record TokenBuffer =
  spelledTokens :: "Token list"
  spelledTokensTouching :: "SourceLocation \<Rightarrow> Token list"
  expandedTokensAt :: "SourceLocation \<Rightarrow> Token list"
  expansionStartingAt :: "Token \<Rightarrow> bool"
  wordTouching :: "SourceLocation \<Rightarrow> SpelledWord option"

datatype DeclRelation = Alias | Underlying | TemplateInstantiation | TemplatePattern

type_synonym DeclRelationSet = "DeclRelation set"

record SelNode =
  sn_NodeKind :: ASTNodeKind
  sn_isAttr :: bool
  sn_targets :: "(DeclPtr \<times> DeclRelationSet) list"
  sn_parent_targets :: "(DeclPtr \<times> DeclRelationSet) list option"

record Inclusion =
  inc_Resolved :: string
  inc_HashLine :: nat

record DefinedMacro =
  dm_Name :: string
  dm_Info :: nat
  dm_NameLoc :: SourceLocation

type_synonym QualType = nat

record ParsedAST =
  tuPath :: string
  MainFileIncludes :: "Inclusion list"
  locateMacroAt :: "Token \<Rightarrow> DefinedMacro option"
  getMacroSymbolID :: "string \<Rightarrow> nat \<Rightarrow> SymbolID"
  getDeducedType :: "SourceLocation \<Rightarrow> QualType option"
  targetDeclOfType :: "QualType \<Rightarrow> DeclPtr list"
  selectionTrees :: "nat \<Rightarrow> SelNode option list"
  visibleNamespacesAt :: "SourceLocation \<Rightarrow> string list"
  getSourceManager :: SourceManager
  getTokens :: TokenBuffer
  getASTContext :: DeclAPI

subsection \<open>Locations of declarations, files and macros\<close>

definition toLSPLocation :: "Lib \<Rightarrow> SymbolLocation \<Rightarrow> string \<Rightarrow> Location option" where
  "toLSPLocation lib Loc TUPath =
     (if \<not> symloc_valid Loc then None else indexToLSPLocation lib Loc TUPath)"

definition toIndexLocation :: "Lib \<Rightarrow> Location \<Rightarrow> SymbolLocation" where
  "toIndexLocation lib Loc =
     \<lparr>FileURI = loc_uri Loc,
      sl_Start = (setLine lib (pos_line (range_start (loc_range Loc))),
                  setColumn lib (pos_character (range_start (loc_range Loc)))),
      sl_End = (setLine lib (pos_line (range_end (loc_range Loc))),
                setColumn lib (pos_character (range_end (loc_range Loc))))\<rparr>"

definition getPreferredLocation :: "Lib \<Rightarrow> Location \<Rightarrow> SymbolLocation \<Rightarrow> SymbolLocation" where
  "getPreferredLocation lib ASTLoc IdxLoc =
     (let ASTSym = empty_Symbol
            \<lparr>sym_ID := hashSymbolID lib ''mock_symbol_id'',
             sym_CanonicalDeclaration := toIndexLocation lib ASTLoc\<rparr>;
          IdxSym = empty_Symbol
            \<lparr>sym_ID := hashSymbolID lib ''mock_symbol_id'',
             sym_CanonicalDeclaration := IdxLoc\<rparr>;
          Merged = mergeSymbol lib ASTSym IdxSym
      in sym_CanonicalDeclaration Merged)"

definition makeLocation :: "Lib \<Rightarrow> ParsedAST \<Rightarrow> SourceLocation \<Rightarrow> string \<Rightarrow> Location option" where
  "makeLocation lib AST Loc TUPath =
     (case getFileEntryRef (getSourceManager AST) Loc of
        None \<Rightarrow> None
      | Some F \<Rightarrow>
          (case getCanonicalPath (getSourceManager AST) F of
             None \<Rightarrow> None
           | Some FilePath \<Rightarrow>
               Some \<lparr>loc_uri = URI_canonicalize lib FilePath TUPath,
                     loc_range = halfOpenToRange (getSourceManager AST) Loc
                       (Loc + MeasureTokenLength (getSourceManager AST) Loc)\<rparr>))"

fun locateFileReferent_loop ::
  "Lib \<Rightarrow> Position \<Rightarrow> string \<Rightarrow> Inclusion list \<Rightarrow> LocatedSymbol option" where
  "locateFileReferent_loop lib Pos MainFilePath [] = None"
| "locateFileReferent_loop lib Pos MainFilePath (Inc # Incs) =
     (if inc_Resolved Inc \<noteq> [] \<and> inc_HashLine Inc = pos_line Pos
      then (let File = empty_LocatedSymbol\<lparr>Name := path_filename lib (inc_Resolved Inc)\<rparr>;
                File = File\<lparr>PreferredDeclaration :=
                         \<lparr>loc_uri = URI_canonicalize lib (inc_Resolved Inc) MainFilePath,
                          loc_range = empty_Range\<rparr>\<rparr>;
                File = File\<lparr>Definition := Some (PreferredDeclaration File)\<rparr>
            in Some File)
      else locateFileReferent_loop lib Pos MainFilePath Incs)"

definition locateFileReferent ::
  "Lib \<Rightarrow> Position \<Rightarrow> ParsedAST \<Rightarrow> string \<Rightarrow> LocatedSymbol option" where
  "locateFileReferent lib Pos AST MainFilePath =
     locateFileReferent_loop lib Pos MainFilePath (MainFileIncludes AST)"

definition locateMacroReferent ::
  "Lib \<Rightarrow> Token \<Rightarrow> ParsedAST \<Rightarrow> string \<Rightarrow> LocatedSymbol option" where
  "locateMacroReferent lib TouchedIdentifier AST MainFilePath =
     (case locateMacroAt AST TouchedIdentifier of
        None \<Rightarrow> None
      | Some M \<Rightarrow>
          (case makeLocation lib AST (dm_NameLoc M) MainFilePath of
             None \<Rightarrow> None
           | Some Loc \<Rightarrow>
               Some (empty_LocatedSymbol
                 \<lparr>Name := dm_Name M, PreferredDeclaration := Loc, Definition := Some Loc,
                  ID := getMacroSymbolID AST (dm_Name M) (dm_Info M)\<rparr>)))"

subsection \<open>Index lookups\<close>

text \<open>The callback of \<^verbatim>\<open>findImplementors\<close> on one \<^verbatim>\<open>(Subject, Object)\<close> pair.\<close>

definition findImplementors_callback ::
  "Lib \<Rightarrow> string \<Rightarrow> LocatedSymbol list \<Rightarrow> SymbolID \<times> Symbol \<Rightarrow> LocatedSymbol list" where
  "findImplementors_callback lib MainFilePath Results SO =
     (let Object = snd SO
      in case indexToLSPLocation lib (sym_CanonicalDeclaration Object) MainFilePath of
           None \<Rightarrow> Results
         | Some DeclLoc \<Rightarrow>
             (let R = empty_LocatedSymbol\<lparr>Name := sym_Name Object, PreferredDeclaration := DeclLoc\<rparr>
              in case indexToLSPLocation lib (sym_Definition Object) MainFilePath of
                   None \<Rightarrow> Results @ [R]
                 | Some DefLoc \<Rightarrow> Results @ [R\<lparr>Definition := Some DefLoc\<rparr>]))"

definition findImplementors ::
  "Lib \<Rightarrow> SymbolID set \<Rightarrow> RelationKind \<Rightarrow> SymbolIndex option \<Rightarrow> string \<Rightarrow> LocatedSymbol list" where
  "findImplementors lib IDs Predicate Index MainFilePath =
     (if IDs = {} then []
      else case Index of
        None \<Rightarrow> []
      | Some idx \<Rightarrow>
          foldl (findImplementors_callback lib MainFilePath) [] (idx_relations idx IDs Predicate))"

text \<open>
  \<^verbatim>\<open>enhanceLocatedSymbolsFromIndex\<close>. \<open>ResultIndex\<close> is the \<^verbatim>\<open>DenseMap\<close> from id to
  position: \<^verbatim>\<open>try_emplace\<close> keeps the first position of an id, and
  \<^verbatim>\<open>ResultIndex.lookup\<close> of an absent id is 0.
\<close>

fun build_ResultIndex ::
  "LocatedSymbol list \<Rightarrow> nat \<Rightarrow> (SymbolID \<rightharpoonup> nat) \<times> SymbolID set \<Rightarrow> (SymbolID \<rightharpoonup> nat) \<times> SymbolID set" where
  "build_ResultIndex [] I st = st"
| "build_ResultIndex (R # Rs) I (ResultIndex, IDs) =
     (if ID R \<noteq> 0
      then build_ResultIndex Rs (Suc I)
             ((if ResultIndex (ID R) = None then ResultIndex(ID R \<mapsto> I) else ResultIndex),
              insert (ID R) IDs)
      else build_ResultIndex Rs (Suc I) (ResultIndex, IDs))"

definition ResultIndex_lookup :: "(SymbolID \<rightharpoonup> nat) \<Rightarrow> SymbolID \<Rightarrow> nat" where
  "ResultIndex_lookup ResultIndex Key = (case ResultIndex Key of None \<Rightarrow> 0 | Some I \<Rightarrow> I)"

definition enhance_one :: "Lib \<Rightarrow> string \<Rightarrow> Symbol \<Rightarrow> LocatedSymbol \<Rightarrow> LocatedSymbol" where
  "enhance_one lib MainFilePath Sym R =
     (case Definition R of
        Some Def \<Rightarrow>
          (let R = (case toLSPLocation lib (sym_CanonicalDeclaration Sym) MainFilePath of
                      Some Loc \<Rightarrow> R\<lparr>PreferredDeclaration := Loc\<rparr> | None \<Rightarrow> R)
           in case toLSPLocation lib (getPreferredLocation lib Def (sym_Definition Sym)) MainFilePath of
                Some Loc \<Rightarrow> R\<lparr>Definition := Some Loc\<rparr>
              | None \<Rightarrow> R)
      | None \<Rightarrow>
          (let R = R\<lparr>Definition := toLSPLocation lib (sym_Definition Sym) MainFilePath\<rparr>
           in case toLSPLocation lib
                     (getPreferredLocation lib (PreferredDeclaration R) (sym_CanonicalDeclaration Sym))
                     MainFilePath of
                Some Loc \<Rightarrow> R\<lparr>PreferredDeclaration := Loc\<rparr>
              | None \<Rightarrow> R))"

definition enhance_callback ::
  "Lib \<Rightarrow> string \<Rightarrow> (SymbolID \<rightharpoonup> nat) \<Rightarrow> LocatedSymbol list \<Rightarrow> Symbol \<Rightarrow> LocatedSymbol list" where
  "enhance_callback lib MainFilePath ResultIndex Result Sym =
     (let I = ResultIndex_lookup ResultIndex (sym_ID Sym)
      in Result[I := enhance_one lib MainFilePath Sym (Result ! I)])"

definition enhanceLocatedSymbolsFromIndex ::
  "Lib \<Rightarrow> LocatedSymbol list \<Rightarrow> SymbolIndex option \<Rightarrow> string \<Rightarrow> LocatedSymbol list" where
  "enhanceLocatedSymbolsFromIndex lib Result Index MainFilePath =
     (let (ResultIndex, IDs) = build_ResultIndex Result 0 (Map.empty, {})
      in case Index of
           None \<Rightarrow> Result
         | Some idx \<Rightarrow>
             if IDs = {} then Result
             else foldl (enhance_callback lib MainFilePath ResultIndex) Result (idx_lookup idx IDs))"

subsection \<open>Resolution through the AST\<close>

text \<open>
  \<^verbatim>\<open>getDeclAtPositionWithRelations\<close>: the trees are tried in turn and the first that
  leaves \<open>Result\<close> non-empty ends the search; every tree with a common ancestor
  overwrites \<open>NodeKind\<close>. An attribute node with a parent hands over to the parent.
\<close>

definition ResultFromTree ::
  "DeclRelationSet \<Rightarrow> (DeclPtr \<times> DeclRelationSet) list \<times> ASTNodeKind \<Rightarrow> SelNode option \<Rightarrow>
   (DeclPtr \<times> DeclRelationSet) list \<times> ASTNodeKind" where
  "ResultFromTree Relations st ST =
     (case ST of
        None \<Rightarrow> st
      | Some N \<Rightarrow>
          (let targets = (case sn_parent_targets N of
                            Some pt \<Rightarrow> if sn_isAttr N then pt else sn_targets N
                          | None \<Rightarrow> sn_targets N)
           in (fst st @ filter (\<lambda>Entry. snd Entry - Relations = {}) targets, sn_NodeKind N)))"

fun createEach_loop ::
  "DeclRelationSet \<Rightarrow> SelNode option list \<Rightarrow> (DeclPtr \<times> DeclRelationSet) list \<times> ASTNodeKind \<Rightarrow>
   (DeclPtr \<times> DeclRelationSet) list \<times> ASTNodeKind" where
  "createEach_loop Relations [] st = st"
| "createEach_loop Relations (ST # STs) st =
     (let st' = ResultFromTree Relations st ST
      in if fst st' \<noteq> [] then st' else createEach_loop Relations STs st')"

definition getDeclAtPositionWithRelations ::
  "ParsedAST \<Rightarrow> SourceLocation \<Rightarrow> DeclRelationSet \<Rightarrow> ASTNodeKind \<Rightarrow>
   (DeclPtr \<times> DeclRelationSet) list \<times> ASTNodeKind" where
  "getDeclAtPositionWithRelations AST Pos Relations NodeKind =
     (let Offset = getDecomposedSpellingOffset (getSourceManager AST) Pos
      in createEach_loop Relations (selectionTrees AST Offset) ([], NodeKind))"

text \<open>The lambda \<^verbatim>\<open>AddResultDecl\<close> of \<^verbatim>\<open>locateASTReferent\<close>; the loop body of
  \<^verbatim>\<open>locateSymbolForType\<close> is the same.\<close>

definition AddResultDecl ::
  "Lib \<Rightarrow> ParsedAST \<Rightarrow> string \<Rightarrow> LocatedSymbol list \<Rightarrow> DeclPtr \<Rightarrow> LocatedSymbol list" where
  "AddResultDecl lib AST MainFilePath Result D0 =
     (let ctx = getASTContext AST; D = getPreferredDecl ctx D0
      in case makeLocation lib AST (nameLocation ctx D) MainFilePath of
           None \<Rightarrow> Result
         | Some Loc \<Rightarrow>
             Result @
               [\<lparr>Name = printName ctx D, PreferredDeclaration = Loc,
                 Definition = (case getDefinition ctx D of
                                 None \<Rightarrow> None
                               | Some Def \<Rightarrow> makeLocation lib AST (nameLocation ctx Def) MainFilePath),
                 ID = getSymbolID ctx D\<rparr>])"

definition objcMethodIsTouched :: "ParsedAST \<Rightarrow> DeclPtr \<Rightarrow> SourceLocation \<Rightarrow> bool" where
  "objcMethodIsTouched AST OMD Loc =
     list_ex (\<lambda>SelLoc. getSpellingLoc (getSourceManager AST) SelLoc = Loc)
       (getSelectorLocs (getASTContext AST) OMD)"

text \<open>One round of the loop over the candidates; the state is \<open>(Result,
  VirtualMethods)\<close>. Each \<^verbatim>\<open>continue\<close> is a branch that skips the rest.\<close>

definition candidate_step ::
  "Lib \<Rightarrow> ParsedAST \<Rightarrow> SourceLocation \<Rightarrow> Token option \<Rightarrow> string \<Rightarrow> ASTNodeKind \<Rightarrow> nat \<Rightarrow>
   LocatedSymbol list \<times> SymbolID set \<Rightarrow> DeclPtr \<times> DeclRelationSet \<Rightarrow>
   LocatedSymbol list \<times> SymbolID set" where
  "candidate_step lib AST CurLoc TouchedIdentifier MainFilePath NodeKind nCandidates st E =
     (let D = fst E; ctx = getASTContext AST; SM = getSourceManager AST; Result = fst st;
          Add = AddResultDecl lib AST MainFilePath;
          VirtualMethods =
            (if declClass ctx D = C_CXXMethod \<and> isPureVirtual ctx D
                \<and> (case TouchedIdentifier of
                      None \<Rightarrow> False
                    | Some T \<Rightarrow> getSpellingLoc SM (getLocation ctx D) = tok_location T)
             then insert (getSymbolID ctx D) (snd st) else snd st)
      in if declClass ctx D = C_CXXMethod
            \<and> (NodeKind = NK_OverrideAttr \<or> NodeKind = NK_FinalAttr)
         then (foldl Add Result (cxx_overridden_methods ctx D), VirtualMethods)
         else if declClass ctx D = C_ObjCMethod \<and> isThisDeclarationADefinition ctx D
                 \<and> (case TouchedIdentifier of
                       None \<Rightarrow> False
                     | Some T \<Rightarrow> objcMethodIsTouched AST D (tok_location T))
         then (Add (foldl Add Result (objc_getOverriddenMethods ctx D)) D, VirtualMethods)
         else if Alias \<in> snd E \<and> nCandidates > 1
                 \<and> isPointWithin SM
                      (case TouchedIdentifier of Some T \<Rightarrow> tok_location T | None \<Rightarrow> CurLoc)
                      (getBeginLoc ctx D) (getEndLoc ctx D)
         then (Result, VirtualMethods)
         else if declClass ctx D = C_ClassTemplateSpecialization
                 \<and> (case TouchedIdentifier of
                       None \<Rightarrow> False
                     | Some T \<Rightarrow> getLocation ctx D = tok_location T)
         then (Add Result (getSpecializedTemplate ctx D), VirtualMethods)
         else
           (let Result =
                  (if declClass ctx D = C_ObjCCategory
                   then (case getClassInterface ctx D of
                           None \<Rightarrow> Result
                         | Some IFace \<Rightarrow>
                             if (case TouchedIdentifier of
                                   None \<Rightarrow> False
                                 | Some T \<Rightarrow> getLocation ctx D = tok_location T
                                              \<or> getName ctx IFace = tok_text T)
                             then Add Result IFace else Result)
                   else Result)
            in (Add Result D, VirtualMethods)))"

definition locateASTReferent ::
  "Lib \<Rightarrow> SourceLocation \<Rightarrow> Token option \<Rightarrow> ParsedAST \<Rightarrow> string \<Rightarrow> SymbolIndex option \<Rightarrow>
   ASTNodeKind \<Rightarrow> LocatedSymbol list \<times> ASTNodeKind" where
  "locateASTReferent lib CurLoc TouchedIdentifier AST MainFilePath Index NodeKind0 =
     (let (Candidates, NodeKind) =
            getDeclAtPositionWithRelations AST CurLoc {TemplatePattern, Alias} NodeKind0;
          (Result, VirtualMethods) =
            foldl (candidate_step lib AST CurLoc TouchedIdentifier MainFilePath NodeKind
                     (length Candidates))
              ([], {}) Candidates;
          Result = enhanceLocatedSymbolsFromIndex lib Result Index MainFilePath;
          Overrides = findImplementors lib VirtualMethods OverriddenBy Index MainFilePath
      in (Result @ Overrides, NodeKind))"

definition locateSymbolForType ::
  "Lib \<Rightarrow> ParsedAST \<Rightarrow> QualType \<Rightarrow> SymbolIndex option \<Rightarrow> LocatedSymbol list" where
  "locateSymbolForType lib AST Type Index =
     (let MainFilePath = tuPath AST; Decls = targetDeclOfType AST Type
      in if Decls = [] then []
         else enhanceLocatedSymbolsFromIndex lib
                (foldl (AddResultDecl lib AST MainFilePath) [] Decls) Index MainFilePath)"

subsection \<open>The nearby identifier\<close>

text \<open>
  \<^verbatim>\<open>findNearbyIdentifier\<close>. Lines and costs are \<^verbatim>\<open>unsigned\<close>: the arithmetic is
  on natural numbers with the wrap-around at \<open>2 ^ 32\<close> written out (\<open>u32\<close>), and
  the initial \<open>BestCost\<close> is \<^verbatim>\<open>unsigned(-1)\<close>. The state of the two loops is
  \<open>(BestTok, BestCost)\<close>; \<open>Consider\<close> returns whether the loop breaks, and the
  state. \<^verbatim>\<open>partition_point\<close> splits the (sorted) spelled tokens at the first one
  not before the word.
\<close>

definition u32 :: "nat \<Rightarrow> nat" where
  "u32 n = n mod 2 ^ 32"

definition nearby_Cost :: "SourceManager \<Rightarrow> nat \<Rightarrow> SourceLocation \<Rightarrow> nat" where
  "nearby_Cost SM WordLine Loc =
     (let Line = getSpellingLineNumber SM Loc
      in if Line \<ge> WordLine then Line - WordLine else u32 (2 * (WordLine - Line)))"

definition nearby_MaxDistance :: "SpelledWord \<Rightarrow> nat" where
  "nearby_MaxDistance Word = 2 ^ min (u32 (length (w_Text Word))) 31"

definition nearby_LineMin :: "nat \<Rightarrow> nat \<Rightarrow> nat" where
  "nearby_LineMin WordLine MaxDistance =
     (if u32 (WordLine + 1) \<le> MaxDistance div 2 then 1
      else u32 (WordLine + 1) - MaxDistance div 2)"

definition nearby_LineMax :: "nat \<Rightarrow> nat \<Rightarrow> nat" where
  "nearby_LineMax WordLine MaxDistance = u32 (u32 (WordLine + 1) + MaxDistance)"

definition tokenSpelledAt :: "SourceLocation \<Rightarrow> TokenBuffer \<Rightarrow> bool" where
  "tokenSpelledAt SpellingLoc TB = (expandedTokensAt TB SpellingLoc \<noteq> [])"

definition Consider ::
  "SourceManager \<Rightarrow> TokenBuffer \<Rightarrow> SpelledWord \<Rightarrow> SourceLocation \<Rightarrow> SourceLocation \<Rightarrow> nat \<Rightarrow>
   Token option \<times> nat \<Rightarrow> Token \<Rightarrow> bool \<times> (Token option \<times> nat)" where
  "Consider SM TB Word LocMin LocMax WordLine st Tok =
     (if tok_location Tok < LocMin \<or> tok_location Tok > LocMax then (True, st)
      else if \<not> (tok_kind Tok = tk_identifier \<and> tok_text Tok = w_Text Word) then (False, st)
      else if tok_location Tok = w_Location Word then (False, st)
      else let TokCost = nearby_Cost SM WordLine (tok_location Tok)
           in if TokCost \<ge> snd st then (True, st)
              else if \<not> (tokenSpelledAt (tok_location Tok) TB \<or> expansionStartingAt TB Tok)
                   then (False, st)
              else (False, (Some Tok, TokCost)))"

fun Consider_loop ::
  "(Token option \<times> nat \<Rightarrow> Token \<Rightarrow> bool \<times> (Token option \<times> nat)) \<Rightarrow> Token list \<Rightarrow>
   Token option \<times> nat \<Rightarrow> Token option \<times> nat" where
  "Consider_loop consider [] st = st"
| "Consider_loop consider (Tok # Toks) st =
     (case consider st Tok of
        (True, st') \<Rightarrow> st'
      | (False, st') \<Rightarrow> Consider_loop consider Toks st')"

definition findNearbyIdentifier ::
  "SpelledWord \<Rightarrow> TokenBuffer \<Rightarrow> SourceManager \<Rightarrow> Token option" where
  "findNearbyIdentifier Word TB SM =
     (if w_ExpandedToken Word \<noteq> None then None
      else if (case w_PartOfSpelledToken Word of
                 None \<Rightarrow> False | Some T \<Rightarrow> isStringLiteral (tok_kind T)) then None
      else
        (let WordLine = getSpellingLineNumber SM (w_Location Word);
             MaxDistance = nearby_MaxDistance Word;
             LocMin = translateLineCol SM (nearby_LineMin WordLine MaxDistance);
             LocMax = translateLineCol SM (nearby_LineMax WordLine MaxDistance);
             consider = Consider SM TB Word LocMin LocMax WordLine;
             toks_before = takeWhile (\<lambda>T. tok_location T < w_Location Word) (spelledTokens TB);
             toks_after = dropWhile (\<lambda>T. tok_location T < w_Location Word) (spelledTokens TB);
             st = Consider_loop consider toks_after (None, 2 ^ 32 - 1);
             st = Consider_loop consider (rev toks_before) st
         in fst st))"

subsection \<open>Go to definition\<close>

text \<open>
  \<^verbatim>\<open>locateSymbolAt\<close>. The run also records which resolution steps were called,
  in order, and whether each produced a result: the include line, the macro at a
  touched identifier, the deduced type of a touched \<^verbatim>\<open>auto\<close> or \<^verbatim>\<open>decltype\<close>,
  the AST at the cursor, the macro and the AST at the nearby identifier, the textual
  index lookup. The loop over the touched tokens either returns from the function
  (\<open>Inl\<close> of the result) or ends with \<open>TouchedIdentifier\<close> (\<open>Inr\<close>).
\<close>

datatype Stage =
  S_FileReferent | S_DeducedType | S_MacroAtCursor | S_ASTAtCursor
| S_MacroNearby | S_ASTNearby | S_Textual

type_synonym Trace = "(Stage \<times> bool) list"

fun touched_loop ::
  "Lib \<Rightarrow> ParsedAST \<Rightarrow> SymbolIndex option \<Rightarrow> string \<Rightarrow> Token list \<Rightarrow>
   Trace \<times> (LocatedSymbol list + Token option)" where
  "touched_loop lib AST Index MainFilePath [] = ([], Inr None)"
| "touched_loop lib AST Index MainFilePath (Tok # Toks) =
     (if tok_kind Tok = tk_identifier
      then (case locateMacroReferent lib Tok AST MainFilePath of
              Some Macro \<Rightarrow> ([(S_MacroAtCursor, True)], Inl [Macro])
            | None \<Rightarrow> ([(S_MacroAtCursor, False)], Inr (Some Tok)))
      else if tok_kind Tok = tk_kw_auto \<or> tok_kind Tok = tk_kw_decltype
      then (case getDeducedType AST (tok_location Tok) of
              Some Deduced \<Rightarrow>
                (let LocSym = locateSymbolForType lib AST Deduced Index
                 in if LocSym \<noteq> [] then ([(S_DeducedType, True)], Inl LocSym)
                    else (let (tr, r) = touched_loop lib AST Index MainFilePath Toks
                          in ((S_DeducedType, False) # tr, r)))
            | None \<Rightarrow> touched_loop lib AST Index MainFilePath Toks)
      else touched_loop lib AST Index MainFilePath Toks)"

definition locate_fallback ::
  "Lib \<Rightarrow> (Symbol \<Rightarrow> 's::linorder) \<Rightarrow> ParsedAST \<Rightarrow> SymbolIndex option \<Rightarrow> string \<Rightarrow>
   SpelledWord \<Rightarrow> ASTNodeKind \<Rightarrow> Trace \<times> LocatedSymbol list" where
  "locate_fallback lib score AST Index MainFilePath Word NodeKind =
     (let textual = (\<lambda>NK.
            (let TextualResults =
                   locateSymbolTextually lib score (visibleNamespacesAt AST) Word Index
                     MainFilePath NK
             in if TextualResults \<noteq> [] then ([(S_Textual, True)], TextualResults)
                else ([(S_Textual, False)], [])))
      in case findNearbyIdentifier Word (getTokens AST) (getSourceManager AST) of
           Some NearbyIdent \<Rightarrow>
             (case locateMacroReferent lib NearbyIdent AST MainFilePath of
                Some Macro \<Rightarrow> ([(S_MacroNearby, True)], [Macro])
              | None \<Rightarrow>
                  (let (ASTResults, NK) =
                         locateASTReferent lib (tok_location NearbyIdent) (Some NearbyIdent) AST
                           MainFilePath Index NodeKind
                   in if ASTResults \<noteq> []
                      then ([(S_MacroNearby, False), (S_ASTNearby, True)], ASTResults)
                      else (let (tr, r) = textual NK
                            in ((S_MacroNearby, False) # (S_ASTNearby, False) # tr, r))))
         | None \<Rightarrow> textual NodeKind)"

definition locateSymbolAt_run ::
  "Lib \<Rightarrow> (Symbol \<Rightarrow> 's::linorder) \<Rightarrow> ParsedAST \<Rightarrow> Position \<Rightarrow> SymbolIndex option \<Rightarrow>
   Trace \<times> LocatedSymbol list" where
  "locateSymbolAt_run lib score AST Pos Index =
     (let MainFilePath = tuPath AST
      in case locateFileReferent lib Pos AST MainFilePath of
           Some File \<Rightarrow> ([(S_FileReferent, True)], [File])
         | None \<Rightarrow>
             (case sourceLocationInMainFile (getSourceManager AST) Pos of
                None \<Rightarrow> ([(S_FileReferent, False)], [])
              | Some CurLoc \<Rightarrow>
                  (case touched_loop lib AST Index MainFilePath
                          (spelledTokensTouching (getTokens AST) CurLoc) of
                     (tr, Inl Found) \<Rightarrow> ((S_FileReferent, False) # tr, Found)
                   | (tr, Inr TouchedIdentifier) \<Rightarrow>
                       (let (ASTResults, NodeKind) =
                              locateASTReferent lib CurLoc TouchedIdentifier AST MainFilePath
                                Index NK_None
                        in if ASTResults \<noteq> []
                           then ((S_FileReferent, False) # tr @ [(S_ASTAtCursor, True)], ASTResults)
                           else (case wordTouching (getTokens AST) CurLoc of
                                   None \<Rightarrow>
                                     ((S_FileReferent, False) # tr @ [(S_ASTAtCursor, False)], [])
                                 | Some Word \<Rightarrow>
                                     (let (tr', r) =
                                            locate_fallback lib score AST Index MainFilePath Word
                                              NodeKind
                                      in ((S_FileReferent, False) # tr @ (S_ASTAtCursor, False) # tr',
                                          r)))))))"

definition locateSymbolAt ::
  "Lib \<Rightarrow> (Symbol \<Rightarrow> 's::linorder) \<Rightarrow> ParsedAST \<Rightarrow> Position \<Rightarrow> SymbolIndex option \<Rightarrow>
   LocatedSymbol list" where
  "locateSymbolAt lib score AST Pos Index = snd (locateSymbolAt_run lib score AST Pos Index)"

text \<open>The rank of a step in the order the steps are called.\<close>

fun stage_rank :: "Stage \<Rightarrow> nat" where
  "stage_rank S_FileReferent = 0"
| "stage_rank S_DeducedType = 1"
| "stage_rank S_MacroAtCursor = 2"
| "stage_rank S_ASTAtCursor = 3"
| "stage_rank S_MacroNearby = 4"
| "stage_rank S_ASTNearby = 5"
| "stage_rank S_Textual = 6"

text \<open>The order of the steps: each step comes after the steps of lower rank; only
  the deduced-type step can repeat (once for each touched \<^verbatim>\<open>auto\<close> or
  \<^verbatim>\<open>decltype\<close>). A run is in order when its steps are, every step but the last
  produced nothing, and the last produced the result.\<close>

definition stage_before :: "Stage \<Rightarrow> Stage \<Rightarrow> bool" where
  "stage_before a b = (stage_rank a < stage_rank b \<or> (a = S_DeducedType \<and> b = S_DeducedType))"

definition trace_in_order :: "Trace \<Rightarrow> LocatedSymbol list \<Rightarrow> bool" where
  "trace_in_order tr res =
     (tr \<noteq> [] \<and> sorted_wrt stage_before (map fst tr) \<and> list_all (\<lambda>e. \<not> snd e) (butlast tr)
      \<and> snd (last tr) = (res \<noteq> []))"

subsection \<open>Supertypes\<close>

text \<open>
  A base specifier, as \<^verbatim>\<open>typeParents\<close> reads it: the C++ record of its type when
  the type is a record type, and the record templated by the primary template when
  the type is a template specialization type naming a template declaration. What
  \<^verbatim>\<open>typeParents\<close> and \<^verbatim>\<open>fillSuperTypes\<close> ask of a C++ record:
  \<open>rd_specializedPattern\<close> is
  \<^verbatim>\<open>getSpecializedTemplate()->getTemplatedDecl()\<close> of a class template
  specialization (\<open>None\<close> for any other record) and \<open>rd_getDescribedTemplate\<close>
  whether \<^verbatim>\<open>getDescribedTemplate()\<close> is non-null.
\<close>

record BaseSpecifier =
  bs_asCXXRecordDecl :: "DeclPtr option"
  bs_primaryTemplated :: "DeclPtr option"

datatype ResolveParams =
  ResolveParams (rp_symbolID: SymbolID) (rp_parents: "ResolveParams list option")

datatype TypeHierarchyItem =
  TypeHierarchyItem (thi_name: string) (thi_data: ResolveParams)
    (thi_parents: "TypeHierarchyItem list option")

record Hierarchy =
  rd_specializedPattern :: "DeclPtr \<Rightarrow> DeclPtr option"
  rd_isInvalidDecl :: "DeclPtr \<Rightarrow> bool"
  rd_hasDefinition :: "DeclPtr \<Rightarrow> bool"
  rd_bases :: "DeclPtr \<Rightarrow> BaseSpecifier list"
  rd_getDescribedTemplate :: "DeclPtr \<Rightarrow> bool"
  declToTypeHierarchyItem :: "DeclPtr \<Rightarrow> TypeHierarchyItem option"

definition base_ParentDecl :: "BaseSpecifier \<Rightarrow> DeclPtr option" where
  "base_ParentDecl Base =
     (case bs_asCXXRecordDecl Base of
        Some ParentDecl \<Rightarrow> Some ParentDecl
      | None \<Rightarrow> bs_primaryTemplated Base)"

definition typeParents :: "Hierarchy \<Rightarrow> DeclPtr \<Rightarrow> DeclPtr list" where
  "typeParents h CXXRD0 =
     (let CXXRD = (case rd_specializedPattern h CXXRD0 of
                     Some Pattern \<Rightarrow> if rd_isInvalidDecl h CXXRD0 then Pattern else CXXRD0
                   | None \<Rightarrow> CXXRD0)
      in if \<not> rd_hasDefinition h CXXRD then []
         else List.map_filter base_ParentDecl (rd_bases h CXXRD))"

text \<open>
  \<^verbatim>\<open>fillSuperTypes\<close> recurses along the parents, so the model takes fuel: \<open>None\<close>
  is "the fuel ran out". The state is the item being filled and the
  \<^verbatim>\<open>RecursionProtectionSet\<close>. \<open>fill_parents\<close> is the loop over
  \<^verbatim>\<open>typeParents(&CXXRD)\<close>, with the recursive call as its first argument.
\<close>

definition item_add_parent :: "TypeHierarchyItem \<Rightarrow> TypeHierarchyItem \<Rightarrow> TypeHierarchyItem" where
  "item_add_parent Item ParentSym =
     TypeHierarchyItem (thi_name Item)
       (ResolveParams (rp_symbolID (thi_data Item))
          (Some ((case rp_parents (thi_data Item) of None \<Rightarrow> [] | Some ps \<Rightarrow> ps)
                 @ [thi_data ParentSym])))
       (Some ((case thi_parents Item of None \<Rightarrow> [] | Some ps \<Rightarrow> ps) @ [ParentSym]))"

definition item_emplace_parents :: "TypeHierarchyItem \<Rightarrow> TypeHierarchyItem" where
  "item_emplace_parents Item =
     TypeHierarchyItem (thi_name Item) (ResolveParams (rp_symbolID (thi_data Item)) (Some []))
       (Some [])"

primrec fill_parents ::
  "(DeclPtr \<Rightarrow> TypeHierarchyItem \<Rightarrow> DeclPtr set \<Rightarrow> (TypeHierarchyItem \<times> DeclPtr set) option) \<Rightarrow>
   Hierarchy \<Rightarrow> DeclPtr list \<Rightarrow> TypeHierarchyItem \<Rightarrow> DeclPtr set \<Rightarrow>
   (TypeHierarchyItem \<times> DeclPtr set) option" where
  "fill_parents rec_call h [] Item RPSet = Some (Item, RPSet)"
| "fill_parents rec_call h (ParentDecl # Ps) Item RPSet =
     (case declToTypeHierarchyItem h ParentDecl of
        None \<Rightarrow> fill_parents rec_call h Ps Item RPSet
      | Some ParentSym \<Rightarrow>
          (case rec_call ParentDecl ParentSym RPSet of
             None \<Rightarrow> None
           | Some (ParentSym', RPSet') \<Rightarrow>
               fill_parents rec_call h Ps (item_add_parent Item ParentSym') RPSet'))"

primrec fillSuperTypes ::
  "nat \<Rightarrow> Hierarchy \<Rightarrow> DeclPtr \<Rightarrow> TypeHierarchyItem \<Rightarrow> DeclPtr set \<Rightarrow>
   (TypeHierarchyItem \<times> DeclPtr set) option" where
  "fillSuperTypes 0 h CXXRD Item RPSet = None"
| "fillSuperTypes (Suc fuel) h CXXRD Item RPSet =
     (let Item = item_emplace_parents Item;
          Pattern = rd_getDescribedTemplate h CXXRD
      in if Pattern \<and> CXXRD \<in> RPSet then Some (Item, RPSet)
         else
           (case fill_parents (fillSuperTypes fuel h) h (typeParents h CXXRD) Item
                   (if Pattern then insert CXXRD RPSet else RPSet) of
              None \<Rightarrow> None
            | Some (Item', RPSet') \<Rightarrow>
                Some (Item', if Pattern then RPSet' - {CXXRD} else RPSet')))"

text \<open>The names along every chain from an item up through its parents.\<close>

fun parent_chains :: "TypeHierarchyItem \<Rightarrow> string list list" where
  "parent_chains (TypeHierarchyItem name d parents) =
     (case parents of
        None \<Rightarrow> [[name]]
      | Some ps \<Rightarrow>
          if ps = [] then [[name]]
          else map ((#) name) (concat (map parent_chains ps)))"

text \<open>
  What C++ guarantees of the records of a parsed file: finitely many are templated,
  and a record that is not itself a template pattern has its parents strictly below
  it in some ranking (a base must be complete before the class that derives from it;
  only a dependent base, replaced by its primary template, can lead back).
\<close>

definition hierarchy_ranked :: "Hierarchy \<Rightarrow> (DeclPtr \<Rightarrow> nat) \<Rightarrow> nat \<Rightarrow> bool" where
  "hierarchy_ranked h rank R =
     (finite {D. rd_getDescribedTemplate h D}
      \<and> (\<forall>D. rank D \<le> R)
      \<and> (\<forall>D. \<not> rd_getDescribedTemplate h D \<longrightarrow> (\<forall>Q \<in> set (typeParents h D). rank Q < rank D)))"

subsection \<open>Sample inputs\<close>

text \<open>
  A small parsed file for the closed statements: lines of 100 characters, a location
  \<open>100 * (line - 1) + column\<close>, every location in \<^verbatim>\<open>/main.cpp\<close>; an index
  location converts when its URI is not empty; nothing is declared and the index is
  empty until a sample says otherwise.
\<close>

definition ex_toLSP :: "SymbolLocation \<Rightarrow> string \<Rightarrow> Location option" where
  "ex_toLSP Loc TUPath =
     (if FileURI Loc = [] then None
      else Some \<lparr>loc_uri = FileURI Loc,
                 loc_range = \<lparr>range_start = \<lparr>pos_line = fst (sl_Start Loc),
                                               pos_character = snd (sl_Start Loc)\<rparr>,
                              range_end = \<lparr>pos_line = fst (sl_End Loc),
                                             pos_character = snd (sl_End Loc)\<rparr>\<rparr>\<rparr>)"

definition ex_lib :: Lib where
  "ex_lib = \<lparr>indexToLSPLocation = ex_toLSP, mergeSymbol = (\<lambda>L R. L), hashSymbolID = length,
             setLine = id, setColumn = id,
             path_filename = (\<lambda>Path. rev (takeWhile (\<lambda>c. c \<noteq> CHR ''/'') (rev Path))),
             URI_canonicalize = (\<lambda>Path TUPath. Path)\<rparr>"

definition ex_ctx :: DeclAPI where
  "ex_ctx = \<lparr>declClass = (\<lambda>D. C_Other), getCanonicalDecl = id,
             decl_getDefinition = (\<lambda>D. None), getTemplatedDecl = (\<lambda>D. None),
             isThisDeclarationADefinition = (\<lambda>D. False), getDeclContext = id,
             isInvalidDecl = (\<lambda>D. False), getCorrespondingObjCImpl = (\<lambda>D. None),
             impl_getMethod = (\<lambda>Impl MD. None), nameLocation = (\<lambda>D. 100 * D),
             printName = (\<lambda>D. ''decl''), getSymbolID = Suc,
             isPureVirtual = (\<lambda>D. False), getLocation = (\<lambda>D. 100 * D),
             cxx_overridden_methods = (\<lambda>D. []), getSelectorLocs = (\<lambda>D. []),
             objc_getOverriddenMethods = (\<lambda>D. []), getBeginLoc = (\<lambda>D. 100 * D),
             getEndLoc = (\<lambda>D. 100 * D + 99), getSpecializedTemplate = id,
             getClassInterface = (\<lambda>D. None), getName = (\<lambda>D. ''decl'')\<rparr>"

definition ex_SM :: SourceManager where
  "ex_SM = \<lparr>getSpellingLoc = id, isPointWithin = (\<lambda>P B E. B \<le> P \<and> P \<le> E),
            getSpellingLineNumber = (\<lambda>Loc. Loc div 100 + 1),
            translateLineCol = (\<lambda>Line. 100 * (Line - 1)),
            getFileEntryRef = (\<lambda>Loc. Some 0), getCanonicalPath = (\<lambda>F. Some ''/main.cpp''),
            MeasureTokenLength = (\<lambda>Loc. 1),
            halfOpenToRange = (\<lambda>B E. \<lparr>range_start = \<lparr>pos_line = B div 100, pos_character = B mod 100\<rparr>,
                                       range_end = \<lparr>pos_line = E div 100, pos_character = E mod 100\<rparr>\<rparr>),
            sourceLocationInMainFile = (\<lambda>P. Some (100 * pos_line P + pos_character P)),
            getDecomposedSpellingOffset = id\<rparr>"

definition ex_TB :: TokenBuffer where
  "ex_TB = \<lparr>spelledTokens = [], spelledTokensTouching = (\<lambda>Loc. []),
            expandedTokensAt = (\<lambda>Loc. []), expansionStartingAt = (\<lambda>Tok. False),
            wordTouching = (\<lambda>Loc. None)\<rparr>"

definition ex_AST :: ParsedAST where
  "ex_AST = \<lparr>tuPath = ''/main.cpp'', MainFileIncludes = [], locateMacroAt = (\<lambda>Tok. None),
             getMacroSymbolID = (\<lambda>N I. Suc I), getDeducedType = (\<lambda>Loc. None),
             targetDeclOfType = (\<lambda>T. []), selectionTrees = (\<lambda>Offset. []),
             visibleNamespacesAt = (\<lambda>Loc. []), getSourceManager = ex_SM, getTokens = ex_TB,
             getASTContext = ex_ctx\<rparr>"

definition ex_index :: SymbolIndex where
  "ex_index = \<lparr>idx_fuzzyFind = (\<lambda>Req. []), idx_lookup = (\<lambda>IDs. []),
               idx_relations = (\<lambda>IDs Predicate. [])\<rparr>"

definition ex_pos :: "nat \<Rightarrow> nat \<Rightarrow> Position" where
  "ex_pos l c = \<lparr>pos_line = l, pos_character = c\<rparr>"

text \<open>Four functions named \<^verbatim>\<open>foo\<close> in the index, and the word \<^verbatim>\<open>foo\<close> in a
  comment.\<close>

definition ex_foo :: "nat \<Rightarrow> Symbol" where
  "ex_foo n = empty_Symbol
     \<lparr>sym_ID := n, sym_Name := ''foo'', sym_Kind := SK_Function,
      sym_CanonicalDeclaration := \<lparr>FileURI = ''file:///a.h'', sl_Start = (n, 0), sl_End = (n, 3)\<rparr>\<rparr>"

definition ex_foo_index :: SymbolIndex where
  "ex_foo_index = ex_index\<lparr>idx_fuzzyFind := (\<lambda>Req. [ex_foo 1, ex_foo 2, ex_foo 3, ex_foo 4])\<rparr>"

definition ex_foo_word :: SpelledWord where
  "ex_foo_word = \<lparr>w_Location = 210, w_Text = ''foo'', w_LikelyIdentifier = True,
                  w_PartOfSpelledToken = None, w_ExpandedToken = None\<rparr>"

text \<open>An Objective-C class declared forward as declaration 1 and defined by the
  interface 2; the forward declaration is the canonical one.\<close>

definition ex_objc_ctx :: DeclAPI where
  "ex_objc_ctx = ex_ctx
     \<lparr>declClass := (\<lambda>D. if D = 1 \<or> D = 2 then C_ObjCInterface else C_Other),
      getCanonicalDecl := (\<lambda>D. if D = 2 then 1 else D),
      decl_getDefinition := (\<lambda>D. if D = 1 \<or> D = 2 then Some 2 else None)\<rparr>"

text \<open>A namespace, declaration 5, under the cursor at line 5; the index holds a
  definition location for its symbol id.\<close>

definition ex_ns_ctx :: DeclAPI where
  "ex_ns_ctx = ex_ctx\<lparr>declClass := (\<lambda>D. if D = 5 then C_Namespace else C_Other)\<rparr>"

definition ex_node5 :: SelNode where
  "ex_node5 = \<lparr>sn_NodeKind = NK_Other 0, sn_isAttr = False, sn_targets = [(5, {})],
               sn_parent_targets = None\<rparr>"

definition ex_ns_AST :: ParsedAST where
  "ex_ns_AST = ex_AST\<lparr>selectionTrees := (\<lambda>Offset. [Some ex_node5]), getASTContext := ex_ns_ctx\<rparr>"

definition ex_ns_symbol :: Symbol where
  "ex_ns_symbol = empty_Symbol
     \<lparr>sym_ID := 6, sym_Name := ''ns'', sym_Kind := SK_Namespace,
      sym_CanonicalDeclaration := \<lparr>FileURI = ''file:///ns.h'', sl_Start = (1, 10), sl_End = (1, 12)\<rparr>,
      sym_Definition := \<lparr>FileURI = ''file:///ns.cpp'', sl_Start = (3, 10), sl_End = (3, 12)\<rparr>\<rparr>"

definition ex_ns_index :: SymbolIndex where
  "ex_ns_index = ex_index\<lparr>idx_lookup := (\<lambda>IDs. if 6 \<in> IDs then [ex_ns_symbol] else [])\<rparr>"

text \<open>The identifier \<^verbatim>\<open>M\<close> under the cursor is a macro; the AST at the same place
  resolves to declaration 5.\<close>

definition ex_M_tok :: Token where
  "ex_M_tok = \<lparr>tok_location = 500, tok_length = 1, tok_kind = tk_identifier, tok_text = ''M''\<rparr>"

definition ex_macro_AST :: ParsedAST where
  "ex_macro_AST = ex_AST
     \<lparr>locateMacroAt := (\<lambda>Tok. if tok_text Tok = ''M''
                              then Some \<lparr>dm_Name = ''M'', dm_Info = 0, dm_NameLoc = 100\<rparr> else None),
      selectionTrees := (\<lambda>Offset. [Some ex_node5]),
      getTokens := ex_TB\<lparr>spelledTokensTouching := (\<lambda>Loc. [ex_M_tok])\<rparr>\<rparr>"

text \<open>The word \<^verbatim>\<open>foo\<close> in a comment on line 3, and an identifier \<^verbatim>\<open>foo\<close> one line
  below that resolves to nothing.\<close>

definition ex_foo_tok :: Token where
  "ex_foo_tok = \<lparr>tok_location = 310, tok_length = 3, tok_kind = tk_identifier, tok_text = ''foo''\<rparr>"

definition ex_comment_AST :: ParsedAST where
  "ex_comment_AST = ex_AST
     \<lparr>getTokens := ex_TB
        \<lparr>spelledTokens := [ex_foo_tok],
         expandedTokensAt := (\<lambda>Loc. if Loc = 310 then [ex_foo_tok] else []),
         wordTouching := (\<lambda>Loc. Some ex_foo_word)\<rparr>\<rparr>"

definition requested_IDs :: "LocatedSymbol list \<Rightarrow> SymbolID set" where
  "requested_IDs Result = set (filter (\<lambda>k. k \<noteq> 0) (map ID Result))"

definition ex_strict_lib :: Lib where
  "ex_strict_lib = ex_lib
     \<lparr>indexToLSPLocation := (\<lambda>Loc TUPath. if take 7 (FileURI Loc) = ''file://''
                                         then ex_toLSP Loc TUPath else None)\<rparr>"

definition ex_ast_result :: LocatedSymbol where
  "ex_ast_result =
     \<lparr>Name = ''ns'',
      PreferredDeclaration = \<lparr>loc_uri = ''/main.cpp'',
         loc_range = \<lparr>range_start = \<lparr>pos_line = 5, pos_character = 0\<rparr>,
                      range_end = \<lparr>pos_line = 5, pos_character = 2\<rparr>\<rparr>\<rparr>,
      Definition = None, ID = 6\<rparr>"

definition ex_remote_symbol :: Symbol where
  "ex_remote_symbol = ex_ns_symbol
     \<lparr>sym_Definition := \<lparr>FileURI = ''remote://ns.cpp'', sl_Start = (3, 10), sl_End = (3, 12)\<rparr>\<rparr>"

definition ex_remote_index :: SymbolIndex where
  "ex_remote_index = ex_index\<lparr>idx_lookup := (\<lambda>IDs. if 6 \<in> IDs then [ex_remote_symbol] else [])\<rparr>"

text \<open>
  A location is known when a conversion produced it: of a valid index location, of a
  source location of the parsed file, or of a resolved include. A located symbol is
  populated when its preferred declaration is known and its definition, if it has
  one, is known. \<open>rejects_null\<close>: \<^verbatim>\<open>indexToLSPLocation\<close> fails on the null location
  (its URI is empty and does not resolve).
\<close>

definition rejects_null :: "Lib \<Rightarrow> string \<Rightarrow> bool" where
  "rejects_null lib TUPath =
     (\<forall>Loc. \<not> symloc_valid Loc \<longrightarrow> indexToLSPLocation lib Loc TUPath = None)"

definition known_location :: "Lib \<Rightarrow> ParsedAST \<Rightarrow> Location \<Rightarrow> bool" where
  "known_location lib AST L =
     ((\<exists>Loc. symloc_valid Loc \<and> indexToLSPLocation lib Loc (tuPath AST) = Some L)
      \<or> (\<exists>Loc. makeLocation lib AST Loc (tuPath AST) = Some L)
      \<or> (\<exists>Inc \<in> set (MainFileIncludes AST). inc_Resolved Inc \<noteq> []
            \<and> L = \<lparr>loc_uri = URI_canonicalize lib (inc_Resolved Inc) (tuPath AST),
                    loc_range = empty_Range\<rparr>))"

definition populated :: "Lib \<Rightarrow> ParsedAST \<Rightarrow> LocatedSymbol \<Rightarrow> bool" where
  "populated lib AST R =
     (known_location lib AST (PreferredDeclaration R)
      \<and> (case Definition R of None \<Rightarrow> True | Some Def \<Rightarrow> known_location lib AST Def))"

text \<open>The symbol ids along every chain from an item up through its parents.\<close>

fun id_chains :: "TypeHierarchyItem \<Rightarrow> SymbolID list list" where
  "id_chains (TypeHierarchyItem name d parents) =
     (case parents of
        None \<Rightarrow> [[rp_symbolID d]]
      | Some ps \<Rightarrow>
          if ps = [] then [[rp_symbolID d]]
          else map ((#) (rp_symbolID d)) (concat (map id_chains ps)))"

text \<open>In the statements about chains the symbol id of a record's item is the record
  itself.\<close>

definition items_identify :: "Hierarchy \<Rightarrow> bool" where
  "items_identify h =
     (\<forall>D It. declToTypeHierarchyItem h D = Some It \<longrightarrow> rp_symbolID (thi_data It) = D)"

definition fuel_bound :: "Hierarchy \<Rightarrow> (DeclPtr \<Rightarrow> nat) \<Rightarrow> nat \<Rightarrow> DeclPtr \<Rightarrow> DeclPtr set \<Rightarrow> nat" where
  "fuel_bound h rank R D RPSet =
     card ({P. rd_getDescribedTemplate h P} - RPSet) * (R + 1) + rank D + 1"

definition chain_ok :: "Hierarchy \<Rightarrow> DeclPtr set \<Rightarrow> SymbolID list \<Rightarrow> bool" where
  "chain_ok h RPSet c =
     (c \<noteq> [] \<and> distinct (filter (rd_getDescribedTemplate h) (butlast c))
      \<and> (\<forall>P \<in> set (butlast c). rd_getDescribedTemplate h P \<longrightarrow> P \<notin> RPSet))"

definition item_ok :: "Hierarchy \<Rightarrow> DeclPtr set \<Rightarrow> DeclPtr \<Rightarrow> TypeHierarchyItem \<Rightarrow> bool" where
  "item_ok h RPSet D It =
     (items_identify h \<and> rp_symbolID (thi_data It) = D
      \<longrightarrow> (\<forall>c \<in> set (id_chains It). chain_ok h RPSet c))"

text \<open>The class template \<^verbatim>\<open>template <class T> struct A : A<A<T>> {}\<close>: record 1 is
  the pattern, and its dependent base is replaced by the pattern itself.\<close>

definition ex_selfref :: Hierarchy where
  "ex_selfref =
     \<lparr>rd_specializedPattern = (\<lambda>D. None), rd_isInvalidDecl = (\<lambda>D. False),
      rd_hasDefinition = (\<lambda>D. D = 1),
      rd_bases = (\<lambda>D. if D = 1 then [\<lparr>bs_asCXXRecordDecl = None, bs_primaryTemplated = Some 1\<rparr>]
                       else []),
      rd_getDescribedTemplate = (\<lambda>D. D = 1),
      declToTypeHierarchyItem =
        (\<lambda>D. Some (TypeHierarchyItem (if D = 1 then ''A'' else ''other'') (ResolveParams D None) None))\<rparr>"

definition ex_A_item :: TypeHierarchyItem where
  "ex_A_item = TypeHierarchyItem ''A'' (ResolveParams 1 None) None"

text \<open>
  The search of \<^verbatim>\<open>findNearbyIdentifier\<close> in the words of its specification: the
  window, the tokens it accepts, the order it visits them in, and the first token of
  lowest cost in that order.
\<close>

definition nearby_in_window :: "SourceManager \<Rightarrow> SpelledWord \<Rightarrow> Token \<Rightarrow> bool" where
  "nearby_in_window SM Word Tok =
     (let WordLine = getSpellingLineNumber SM (w_Location Word);
          MaxDistance = nearby_MaxDistance Word
      in translateLineCol SM (nearby_LineMin WordLine MaxDistance) \<le> tok_location Tok
         \<and> tok_location Tok \<le> translateLineCol SM (nearby_LineMax WordLine MaxDistance))"

definition nearby_candidate :: "SourceManager \<Rightarrow> TokenBuffer \<Rightarrow> SpelledWord \<Rightarrow> Token \<Rightarrow> bool" where
  "nearby_candidate SM TB Word Tok =
     (nearby_in_window SM Word Tok \<and> tok_kind Tok = tk_identifier
      \<and> tok_text Tok = w_Text Word \<and> tok_location Tok \<noteq> w_Location Word
      \<and> (tokenSpelledAt (tok_location Tok) TB \<or> expansionStartingAt TB Tok))"

definition nearby_traversal :: "TokenBuffer \<Rightarrow> SpelledWord \<Rightarrow> Token list" where
  "nearby_traversal TB Word =
     dropWhile (\<lambda>T. tok_location T < w_Location Word) (spelledTokens TB)
     @ rev (takeWhile (\<lambda>T. tok_location T < w_Location Word) (spelledTokens TB))"

fun first_lowest :: "('a \<Rightarrow> nat) \<Rightarrow> 'a list \<Rightarrow> 'a option" where
  "first_lowest cost [] = None"
| "first_lowest cost (x # xs) =
     (case first_lowest cost xs of
        None \<Rightarrow> Some x
      | Some y \<Rightarrow> if cost y < cost x then Some y else Some x)"

definition token_cost :: "SourceManager \<Rightarrow> SpelledWord \<Rightarrow> Token \<Rightarrow> nat" where
  "token_cost SM Word Tok =
     nearby_Cost SM (getSpellingLineNumber SM (w_Location Word)) (tok_location Tok)"

text \<open>
  What the source manager and the token buffer guarantee, and the sizes for which
  the \<^verbatim>\<open>unsigned\<close> arithmetic does not wrap: the word is not an expanded token and
  not part of a string literal, its text is not empty; the spelled tokens are in
  source order; line numbers start at 1, grow with the location and stay below
  \<open>2 ^ 31\<close>; \<open>translateLineCol L\<close> is the first location of line \<open>L\<close>, or
  the last location of the file when the file has fewer lines: a token before it
  lies on an earlier line, a token on an earlier line does not lie after it, and up
  to the word's line a token on an earlier line lies before it.
\<close>

definition nearby_setting :: "SourceManager \<Rightarrow> TokenBuffer \<Rightarrow> SpelledWord \<Rightarrow> bool" where
  "nearby_setting SM TB Word =
     (w_ExpandedToken Word = None
      \<and> (case w_PartOfSpelledToken Word of None \<Rightarrow> True | Some T \<Rightarrow> \<not> isStringLiteral (tok_kind T))
      \<and> w_Text Word \<noteq> [] \<and> length (w_Text Word) < 2 ^ 32
      \<and> sorted_wrt (\<lambda>a b. tok_location a < tok_location b) (spelledTokens TB)
      \<and> (\<forall>a b. a \<le> b \<longrightarrow> getSpellingLineNumber SM a \<le> getSpellingLineNumber SM b)
      \<and> (\<forall>T \<in> set (spelledTokens TB). \<forall>L \<ge> 1.
            (tok_location T < translateLineCol SM L
               \<longrightarrow> getSpellingLineNumber SM (tok_location T) < L)
            \<and> (getSpellingLineNumber SM (tok_location T) < L
               \<longrightarrow> tok_location T \<le> translateLineCol SM L)
            \<and> (L \<le> getSpellingLineNumber SM (w_Location Word)
               \<longrightarrow> getSpellingLineNumber SM (tok_location T) < L
               \<longrightarrow> tok_location T < translateLineCol SM L))
      \<and> (\<forall>L \<ge> 1. getSpellingLineNumber SM (translateLineCol SM L) \<le> L)
      \<and> (\<forall>Loc. 1 \<le> getSpellingLineNumber SM Loc)
      \<and> getSpellingLineNumber SM (w_Location Word) < 2 ^ 31 - 1
      \<and> (\<forall>T \<in> set (spelledTokens TB). getSpellingLineNumber SM (tok_location T) < 2 ^ 31))"

text \<open>
  The one-letter word \<^verbatim>\<open>I\<close> in a comment on line 5 and an identifier \<^verbatim>\<open>I\<close> on
  the line above it; and the word \<^verbatim>\<open>foo\<close> on line 3 with an identifier \<^verbatim>\<open>foo\<close>
  one line above and another two lines below.
\<close>

definition ex_I_word :: SpelledWord where
  "ex_I_word = \<lparr>w_Location = 410, w_Text = ''I'', w_LikelyIdentifier = False,
                w_PartOfSpelledToken = None, w_ExpandedToken = None\<rparr>"

definition ex_I_tok :: Token where
  "ex_I_tok = \<lparr>tok_location = 310, tok_length = 1, tok_kind = tk_identifier, tok_text = ''I''\<rparr>"

definition ex_I_TB :: TokenBuffer where
  "ex_I_TB = ex_TB\<lparr>spelledTokens := [ex_I_tok],
                   expandedTokensAt := (\<lambda>Loc. if Loc = 310 then [ex_I_tok] else [])\<rparr>"

definition ex_foo_above :: Token where
  "ex_foo_above = \<lparr>tok_location = 110, tok_length = 3, tok_kind = tk_identifier, tok_text = ''foo''\<rparr>"

definition ex_foo_below :: Token where
  "ex_foo_below = \<lparr>tok_location = 410, tok_length = 3, tok_kind = tk_identifier, tok_text = ''foo''\<rparr>"

definition ex_tie_TB :: TokenBuffer where
  "ex_tie_TB = ex_TB\<lparr>spelledTokens := [ex_foo_above, ex_foo_below],
                     expandedTokensAt := (\<lambda>Loc. if Loc = 110 then [ex_foo_above]
                                                else if Loc = 410 then [ex_foo_below] else [])\<rparr>"

text \<open>A file whose line 2 holds an include that did not resolve and one that did.\<close>

definition ex_inc_AST :: ParsedAST where
  "ex_inc_AST = ex_AST
     \<lparr>MainFileIncludes := [\<lparr>inc_Resolved = [], inc_HashLine = 2\<rparr>,
                            \<lparr>inc_Resolved = ''/usr/include/a.h'', inc_HashLine = 2\<rparr>,
                            \<lparr>inc_Resolved = ''/usr/include/b.h'', inc_HashLine = 3\<rparr>]\<rparr>"

text \<open>The same template with record 2 an instantiation \<^verbatim>\<open>A<int>\<close> that is invalid,
  so that its parents are read from the pattern.\<close>

definition ex_selfref_inst :: Hierarchy where
  "ex_selfref_inst = ex_selfref
     \<lparr>rd_specializedPattern := (\<lambda>D. if D = 2 then Some 1 else None),
      rd_isInvalidDecl := (\<lambda>D. D = 2),
      declToTypeHierarchyItem :=
        (\<lambda>D. Some (TypeHierarchyItem (if D = 1 then ''A'' else ''A<int>'') (ResolveParams D None) None))\<rparr>"

definition ex_inst_item :: TypeHierarchyItem where
  "ex_inst_item = TypeHierarchyItem ''A<int>'' (ResolveParams 2 None) None"

text \<open>
  The order of the steps as a list: every step \<^verbatim>\<open>locateSymbolAt\<close> can take at a
  position, in the order it takes them, each with what the function of that step
  returns there. \<open>first_hit\<close> runs such a list: it stops at the first step that
  produced something and records the steps it went through.
\<close>

fun first_hit :: "(Stage \<times> LocatedSymbol list) list \<Rightarrow> Trace \<times> LocatedSymbol list" where
  "first_hit [] = ([], [])"
| "first_hit (step # rest) =
     (if snd step \<noteq> [] then ([(fst step, True)], snd step)
      else (let (tr, res) = first_hit rest in ((fst step, False) # tr, res)))"

fun touched_steps ::
  "Lib \<Rightarrow> ParsedAST \<Rightarrow> SymbolIndex option \<Rightarrow> string \<Rightarrow> Token list \<Rightarrow>
   (Stage \<times> LocatedSymbol list) list" where
  "touched_steps lib AST Index MainFilePath [] = []"
| "touched_steps lib AST Index MainFilePath (Tok # Toks) =
     (if tok_kind Tok = tk_identifier
      then [(S_MacroAtCursor,
             (case locateMacroReferent lib Tok AST MainFilePath of
                None \<Rightarrow> [] | Some Macro \<Rightarrow> [Macro]))]
      else if tok_kind Tok = tk_kw_auto \<or> tok_kind Tok = tk_kw_decltype
      then (case getDeducedType AST (tok_location Tok) of
              Some Deduced \<Rightarrow>
                (S_DeducedType, locateSymbolForType lib AST Deduced Index)
                  # touched_steps lib AST Index MainFilePath Toks
            | None \<Rightarrow> touched_steps lib AST Index MainFilePath Toks)
      else touched_steps lib AST Index MainFilePath Toks)"

definition nearby_steps ::
  "Lib \<Rightarrow> (Symbol \<Rightarrow> 's::linorder) \<Rightarrow> ParsedAST \<Rightarrow> SymbolIndex option \<Rightarrow> SpelledWord \<Rightarrow>
   ASTNodeKind \<Rightarrow> (Stage \<times> LocatedSymbol list) list" where
  "nearby_steps lib score AST Index Word NodeKind =
     (let MainFilePath = tuPath AST;
          textual = (\<lambda>NK. (S_Textual,
                       locateSymbolTextually lib score (visibleNamespacesAt AST) Word Index
                         MainFilePath NK))
      in case findNearbyIdentifier Word (getTokens AST) (getSourceManager AST) of
           None \<Rightarrow> [textual NodeKind]
         | Some NearbyIdent \<Rightarrow>
             (let (ASTResults, NK) =
                    locateASTReferent lib (tok_location NearbyIdent) (Some NearbyIdent) AST
                      MainFilePath Index NodeKind
              in [(S_MacroNearby,
                   (case locateMacroReferent lib NearbyIdent AST MainFilePath of
                      None \<Rightarrow> [] | Some Macro \<Rightarrow> [Macro])),
                  (S_ASTNearby, ASTResults),
                  textual NK]))"

definition resolution_steps ::
  "Lib \<Rightarrow> (Symbol \<Rightarrow> 's::linorder) \<Rightarrow> ParsedAST \<Rightarrow> Position \<Rightarrow> SymbolIndex option \<Rightarrow>
   (Stage \<times> LocatedSymbol list) list" where
  "resolution_steps lib score AST Pos Index =
     (let MainFilePath = tuPath AST
      in (S_FileReferent,
          (case locateFileReferent lib Pos AST MainFilePath of
             None \<Rightarrow> [] | Some File \<Rightarrow> [File]))
         # (case sourceLocationInMainFile (getSourceManager AST) Pos of
              None \<Rightarrow> []
            | Some CurLoc \<Rightarrow>
                (let Touching = spelledTokensTouching (getTokens AST) CurLoc;
                     TouchedIdentifier = List.find (\<lambda>T. tok_kind T = tk_identifier) Touching;
                     (ASTResults, NodeKind) =
                       locateASTReferent lib CurLoc TouchedIdentifier AST MainFilePath Index
                         NK_None
                 in touched_steps lib AST Index MainFilePath Touching
                    @ (S_ASTAtCursor, ASTResults)
                    # (case wordTouching (getTokens AST) CurLoc of
                         None \<Rightarrow> []
                       | Some Word \<Rightarrow> nearby_steps lib score AST Index Word NodeKind))))"

text \<open>
  When a definition is known for a located symbol. The AST knows one when the
  declaration the symbol names (by its printed name and its symbol id) has a
  definition; the index knows one when a symbol it answers with has a valid
  definition location and is the symbol the located one was made from (the same
  non-null id, or the same name when the located symbol carries no id); a macro
  and an included file are their own definition. \<open>lookup_answers_requested\<close>:
  the index answers a lookup with symbols of the requested ids only.
\<close>

definition lookup_answers_requested :: "SymbolIndex option \<Rightarrow> bool" where
  "lookup_answers_requested Index =
     (\<forall>idx IDs. Index = Some idx \<longrightarrow> (\<forall>S \<in> set (idx_lookup idx IDs). sym_ID S \<in> IDs))"

definition index_holds :: "SymbolIndex option \<Rightarrow> Symbol \<Rightarrow> bool" where
  "index_holds Index Sym =
     (\<exists>idx. Index = Some idx
        \<and> ((\<exists>Req. Sym \<in> set (idx_fuzzyFind idx Req))
           \<or> (\<exists>IDs. Sym \<in> set (idx_lookup idx IDs))
           \<or> (\<exists>IDs Predicate. Sym \<in> snd ` set (idx_relations idx IDs Predicate))))"

definition made_from :: "LocatedSymbol \<Rightarrow> Symbol \<Rightarrow> bool" where
  "made_from R Sym =
     ((ID R \<noteq> 0 \<and> ID R = sym_ID Sym)
      \<or> (ID R = 0 \<and> Name R = sym_Name Sym)
      \<or> (ID R = sym_ID Sym \<and> Name R = sym_Name Sym @ sym_TemplateSpecializationArgs Sym))"

definition definition_known ::
  "Lib \<Rightarrow> ParsedAST \<Rightarrow> SymbolIndex option \<Rightarrow> LocatedSymbol \<Rightarrow> bool" where
  "definition_known lib AST Index R =
     ((\<exists>D. Name R = printName (getASTContext AST) D \<and> ID R = getSymbolID (getASTContext AST) D
           \<and> getDefinition (getASTContext AST) D \<noteq> None)
      \<or> (\<exists>Sym. index_holds Index Sym \<and> symloc_valid (sym_Definition Sym) \<and> made_from R Sym)
      \<or> (\<exists>Tok M. locateMacroAt AST Tok = Some M \<and> Name R = dm_Name M
            \<and> ID R = getMacroSymbolID AST (dm_Name M) (dm_Info M))
      \<or> (\<exists>Inc \<in> set (MainFileIncludes AST). inc_Resolved Inc \<noteq> []
            \<and> Name R = path_filename lib (inc_Resolved Inc) \<and> ID R = 0))"

definition located_ok ::
  "Lib \<Rightarrow> ParsedAST \<Rightarrow> SymbolIndex option \<Rightarrow> LocatedSymbol \<Rightarrow> bool" where
  "located_ok lib AST Index R =
     (populated lib AST R \<and> (Definition R \<noteq> None \<longrightarrow> definition_known lib AST Index R))"

subsection \<open>Facts about sorting\<close>

lemma set_sort_insert: "set (sort_insert lt x ys) = insert x (set ys)"
  by (induction ys) auto

lemma set_llvm_sort: "set (llvm_sort lt xs) = set xs"
  by (induction xs) (auto simp: set_sort_insert)

lemma length_sort_insert: "length (sort_insert lt x ys) = Suc (length ys)"
  by (induction ys) auto

lemma length_llvm_sort: "length (llvm_sort lt xs) = length xs"
  by (induction xs) (auto simp: length_sort_insert)

lemma sorted_sort_insert:
  assumes asym: "\<And>a b. lt a b \<Longrightarrow> \<not> lt b a"
    and ntrans: "\<And>a b c. \<not> lt b a \<Longrightarrow> \<not> lt c b \<Longrightarrow> \<not> lt c a"
    and srt: "sorted_wrt (\<lambda>a b. \<not> lt b a) ys"
  shows "sorted_wrt (\<lambda>a b. \<not> lt b a) (sort_insert lt x ys)"
  using srt
proof (induction ys)
  case Nil
  then show ?case by simp
next
  case (Cons y ys)
  show ?case
  proof (cases "lt y x")
    case True
    have "\<not> lt x y" using True asym by blast
    from Cons have "sorted_wrt (\<lambda>a b. \<not> lt b a) (sort_insert lt x ys)" by simp
    moreover have "\<forall>z\<in>set (sort_insert lt x ys). \<not> lt z y"
      using \<open>\<not> lt x y\<close> Cons.prems by (auto simp: set_sort_insert)
    ultimately show ?thesis using True by simp
  next
    case False
    have "\<forall>z\<in>set ys. \<not> lt z x"
    proof
      fix z assume "z \<in> set ys"
      with Cons.prems have "\<not> lt z y" by simp
      with False show "\<not> lt z x" using ntrans by blast
    qed
    then show ?thesis using False Cons.prems by simp
  qed
qed

lemma sorted_llvm_sort:
  assumes "\<And>a b. lt a b \<Longrightarrow> \<not> lt b a"
    and "\<And>a b c. \<not> lt b a \<Longrightarrow> \<not> lt c b \<Longrightarrow> \<not> lt c a"
  shows "sorted_wrt (\<lambda>a b. \<not> lt b a) (llvm_sort lt xs)"
proof (induction xs)
  case Nil
  then show ?case by simp
next
  case (Cons x xs)
  have "sorted_wrt (\<lambda>a b. \<not> lt b a) (sort_insert lt x (llvm_sort lt xs))"
    by (rule sorted_sort_insert [OF assms Cons.IH])
  then show ?case by simp
qed

lemma set_llvm_unique_subset: "set (llvm_unique eq xs) \<subseteq> set xs"
  by (induction eq xs rule: llvm_unique.induct) auto

lemma strict_llvm_unique:
  assumes step: "\<forall>a b. \<not> lt b a \<longrightarrow> \<not> eq a b \<longrightarrow> lt a b"
    and mix: "\<forall>a b c. lt a b \<longrightarrow> \<not> lt c b \<longrightarrow> lt a c"
  shows "sorted_wrt (\<lambda>a b. \<not> lt b a) xs \<Longrightarrow> sorted_wrt lt (llvm_unique eq xs)"
proof (induction "length xs" arbitrary: xs rule: less_induct)
  case less
  show ?case
  proof (cases xs)
    case Nil
    then show ?thesis by simp
  next
    case (Cons x xs')
    note xs = Cons
    show ?thesis
    proof (cases xs')
      case Nil
      with xs show ?thesis by simp
    next
      case (Cons y ys)
      have srt: "sorted_wrt (\<lambda>a b. \<not> lt b a) (x # y # ys)"
        using less.prems xs Cons by simp
      show ?thesis
      proof (cases "eq x y")
        case True
        have "sorted_wrt (\<lambda>a b. \<not> lt b a) (x # ys)" using srt by simp
        moreover have "length (x # ys) < length xs" using xs Cons by simp
        ultimately have "sorted_wrt lt (llvm_unique eq (x # ys))"
          using less.hyps by blast
        with True xs Cons show ?thesis by simp
      next
        case False
        from srt have xy: "\<not> lt y x" by simp
        have lxy: "lt x y" using step xy False by blast
        have "\<forall>z\<in>set (llvm_unique eq (y # ys)). lt x z"
        proof
          fix z assume "z \<in> set (llvm_unique eq (y # ys))"
          then have "z \<in> set (y # ys)"
            using set_llvm_unique_subset [of eq "y # ys"] by blast
          then have "z = y \<or> \<not> lt z y" using srt by auto
          then show "lt x z" using lxy mix by blast
        qed
        moreover have "sorted_wrt (\<lambda>a b. \<not> lt b a) (y # ys)" using srt by simp
        moreover have "length (y # ys) < length xs" using xs Cons by simp
        ultimately have "sorted_wrt lt (x # llvm_unique eq (y # ys))"
          using less.hyps [of "y # ys"] by simp
        with False xs Cons show ?thesis by simp
      qed
    qed
  qed
qed

lemma ref_less_asym: "ref_less a b \<Longrightarrow> \<not> ref_less b a"
  by (auto simp: ref_less_def Let_def)

lemma ref_less_ntrans: "\<not> ref_less b a \<Longrightarrow> \<not> ref_less c b \<Longrightarrow> \<not> ref_less c a"
  by (auto simp: ref_less_def Let_def)

lemma ref_less_step: "\<not> ref_less b a \<Longrightarrow> \<not> ref_same a b \<Longrightarrow> ref_less a b"
  by (auto simp: ref_less_def ref_same_def Let_def)

lemma ref_less_mix: "ref_less a b \<Longrightarrow> \<not> ref_less c b \<Longrightarrow> ref_less a c"
  by (auto simp: ref_less_def Let_def)

lemma take_refs_strict: "sorted_wrt ref_less (take_refs refs)"
proof -
  have "sorted_wrt (\<lambda>a b. \<not> ref_less b a) (llvm_sort ref_less refs)"
    by (rule sorted_llvm_sort) (blast dest: ref_less_asym ref_less_ntrans)+
  moreover have "\<forall>a b. \<not> ref_less b a \<longrightarrow> \<not> ref_same a b \<longrightarrow> ref_less a b"
    using ref_less_step by blast
  moreover have "\<forall>a b c. ref_less a b \<longrightarrow> \<not> ref_less c b \<longrightarrow> ref_less a c"
    using ref_less_mix by blast
  ultimately show ?thesis
    unfolding take_refs_def by (intro strict_llvm_unique)
qed

lemma ref_less_key_le: "ref_less a b \<Longrightarrow> key_le (ref_key a) (ref_key b)"
  by (auto simp: ref_less_def key_le_def ref_key_def Let_def)

lemma ref_less_key_neq: "ref_less a b \<Longrightarrow> ref_key a \<noteq> ref_key b"
  by (auto simp: ref_less_def ref_key_def Let_def)

lemma strict_keys_distinct: "sorted_wrt ref_less xs \<Longrightarrow> distinct (map ref_key xs)"
  by (induction xs) (auto dest: ref_less_key_neq)

subsection \<open>Sorted, duplicate-free references\<close>

text \<open>
  C2. Whatever the targets and the occurrences the traversal reports, the list
  \<^verbatim>\<open>findRefs\<close> returns is non-decreasing in the lexicographic order of
  (token location, role set), and no two of its entries have the same location and
  the same role set.
\<close>

theorem findRefs_sorted_distinct:
  "sorted_wrt (\<lambda>a b. key_le (ref_key a) (ref_key b))
     (findRefs env canonical TargetDecls PerToken occs)
   \<and> distinct (map ref_key (findRefs env canonical TargetDecls PerToken occs))"
proof -
  have s: "sorted_wrt ref_less (findRefs env canonical TargetDecls PerToken occs)"
    unfolding findRefs_def by (rule take_refs_strict)
  have "sorted_wrt (\<lambda>a b. key_le (ref_key a) (ref_key b))
     (findRefs env canonical TargetDecls PerToken occs)"
    by (rule sorted_wrt_mono_rel [OF _ s]) (simp add: ref_less_key_le)
  with s show ?thesis by (simp add: strict_keys_distinct)
qed

subsection \<open>Facts about the textual fallback\<close>

lemma textual_callback_len: "length (fst st) \<le> 5 \<Longrightarrow> length (fst (textual_callback lib score W P st Sym)) \<le> 5"
  by (auto simp: textual_callback_def split: option.splits)

lemma textual_fold_len: "length (fst st) \<le> 5 \<Longrightarrow> length (fst (foldl (textual_callback lib score W P) st syms)) \<le> 5"
  by (induction syms arbitrary: st) (auto simp: textual_callback_len)

lemma locateSymbolTextually_at_most_5:
  "length (locateSymbolTextually lib score vis Word Index P NodeKind) \<le> 5"
proof -
  have "length (fst (foldl (textual_callback lib score (w_Text Word) P) ([], False) syms)) \<le> 5" for syms
    by (rule textual_fold_len) simp
  then have "foldl (textual_callback lib score (w_Text Word) P) ([], False) syms = (a, b) \<Longrightarrow> length a \<le> 5" for syms a b
    by (metis fst_conv)
  then show ?thesis
    by (auto simp: locateSymbolTextually_def Let_def length_llvm_sort split: option.splits prod.splits)
qed

lemma textual_callback_skip:
  "\<not> textual_candidate lib W P Sym \<Longrightarrow> textual_callback lib score W P st Sym = st"
  by (auto simp: textual_callback_def textual_candidate_def split: option.splits)

lemma textual_callback_take:
  "textual_candidate lib W P Sym \<Longrightarrow>
   textual_callback lib score W P (acc, tm) Sym =
     (if length acc \<ge> 5 then (acc, True) else (acc @ [scored lib score P Sym], tm))"
  by (auto simp: textual_callback_def textual_candidate_def scored_def split: option.splits)

lemma textual_fold:
  "length acc \<le> 5 \<Longrightarrow>
   foldl (textual_callback lib score W P) (acc, tm) syms =
     (acc @ take (5 - length acc) (map (scored lib score P) (filter (textual_candidate lib W P) syms)),
      tm \<or> length acc + length (filter (textual_candidate lib W P) syms) > 5)"
proof (induction syms arbitrary: acc tm)
  case Nil
  then show ?case by simp
next
  case (Cons Sym syms)
  show ?case
  proof (cases "textual_candidate lib W P Sym")
    case False
    then show ?thesis using Cons by (simp add: textual_callback_skip)
  next
    case True
    show ?thesis
    proof (cases "length acc \<ge> 5")
      case full: True
      then have "length acc = 5" using Cons.prems by simp
      then show ?thesis using True Cons.IH [of acc True] by (simp add: textual_callback_take)
    next
      case False
      then have l: "length (acc @ [scored lib score P Sym]) \<le> 5" by simp
      have "5 - length acc = Suc (5 - length (acc @ [scored lib score P Sym]))"
        using False by simp
      then show ?thesis
        using True False Cons.IH [OF l, of tm] by (auto simp: textual_callback_take)
    qed
  qed
qed

lemmas ex_defs = ex_toLSP_def ex_lib_def ex_ctx_def ex_SM_def ex_TB_def ex_AST_def ex_index_def ex_pos_def
  empty_Symbol_def empty_LocatedSymbol_def empty_SymbolLocation_def empty_Location_def empty_Range_def
  symloc_valid_def

lemma locateSymbolTextually_candidates:
  fixes score :: "Symbol \<Rightarrow> 's::linorder"
  shows "locateSymbolTextually lib score vis Word Index P NodeKind =
     (if (w_ExpandedToken Word \<noteq> None \<and> \<not> isDependentName NodeKind)
         \<or> \<not> w_LikelyIdentifier Word then []
      else case Index of
        None \<Rightarrow> []
      | Some idx \<Rightarrow>
          if (case w_PartOfSpelledToken Word of
                None \<Rightarrow> False | Some T \<Rightarrow> isStringLiteral (tok_kind T)) then []
          else
            (let cands = filter (textual_candidate lib (w_Text Word) P)
                           (idx_fuzzyFind idx
                              \<lparr>req_Query = w_Text Word, req_Scopes = vis (w_Location Word),
                               req_AnyScope = True, req_Limit = Some 10,
                               req_ProximityPaths = [P]\<rparr>)
             in if 5 < length cands then []
                else map snd (llvm_sort (\<lambda>A B. fst A > fst B) (map (scored lib score P) cands))))"
proof -
  have fold: "foldl (textual_callback lib score W P) ([], False) syms =
      (take 5 (map (scored lib score P) (filter (textual_candidate lib W P) syms)),
       5 < length (filter (textual_candidate lib W P) syms))" for W syms
    using textual_fold [of "[]" lib score W P False syms] by simp
  show ?thesis
    unfolding locateSymbolTextually_def Let_def fold
    by (auto split: option.splits)
qed

text \<open>
  Claim C1, as the code has it. When the word passes the guards of
  \<^verbatim>\<open>locateSymbolTextually\<close>, the result is empty if more than five symbols of the
  index answer pass the filters of the callback (exact name, not a constructor,
  locations that convert); otherwise it is every one of them, sorted by descending
  score. So the result holds up to five located symbols, and nothing cuts it to
  three: an index that answers with four functions named \<^verbatim>\<open>foo\<close> gives four
  results.
\<close>

theorem locateSymbolTextually_up_to_five:
  fixes score :: "Symbol \<Rightarrow> 's::linorder"
  shows "locateSymbolTextually lib score vis Word Index P NodeKind =
     (if (w_ExpandedToken Word \<noteq> None \<and> \<not> isDependentName NodeKind)
         \<or> \<not> w_LikelyIdentifier Word then []
      else case Index of
        None \<Rightarrow> []
      | Some idx \<Rightarrow>
          if (case w_PartOfSpelledToken Word of
                None \<Rightarrow> False | Some T \<Rightarrow> isStringLiteral (tok_kind T)) then []
          else
            (let cands = filter (textual_candidate lib (w_Text Word) P)
                           (idx_fuzzyFind idx
                              \<lparr>req_Query = w_Text Word, req_Scopes = vis (w_Location Word),
                               req_AnyScope = True, req_Limit = Some 10,
                               req_ProximityPaths = [P]\<rparr>)
             in if 5 < length cands then []
                else map snd (llvm_sort (\<lambda>A B. fst A > fst B) (map (scored lib score P) cands))))
   \<and> sorted_wrt (\<lambda>A B. fst B \<le> fst A)
        (llvm_sort (\<lambda>A B. fst A > fst B) (map (scored lib score P) syms))
   \<and> length (locateSymbolTextually lib score vis Word Index P NodeKind) \<le> 5
   \<and> map ID (locateSymbolTextually ex_lib sym_ID (\<lambda>Loc. []) ex_foo_word (Some ex_foo_index)
             ''/main.cpp'' NK_None) = [4, 3, 2, 1]"
proof (intro conjI)
  show "sorted_wrt (\<lambda>A B. fst B \<le> fst A)
        (llvm_sort (\<lambda>A B. fst A > fst B) (map (scored lib score P) syms))"
  proof -
    have "sorted_wrt (\<lambda>a b. \<not> fst b > fst a)
        (llvm_sort (\<lambda>A B. fst A > fst B) (map (scored lib score P) syms))"
      by (rule sorted_llvm_sort) auto
    then show ?thesis by (simp add: not_less)
  qed
  show "length (locateSymbolTextually lib score vis Word Index P NodeKind) \<le> 5"
    by (rule locateSymbolTextually_at_most_5)
  show "map ID (locateSymbolTextually ex_lib sym_ID (\<lambda>Loc. []) ex_foo_word (Some ex_foo_index)
             ''/main.cpp'' NK_None) = [4, 3, 2, 1]"
    by (simp add: locateSymbolTextually_def textual_callback_def textual_located_def
      ex_foo_def ex_foo_index_def ex_foo_word_def ex_defs isDependentName_def)
qed (rule locateSymbolTextually_candidates)

subsection \<open>The preferred declaration\<close>

text \<open>
  Claim C5. On redeclaration chains as Clang builds them, \<^verbatim>\<open>getPreferredDecl\<close> is
  idempotent: the preferred declaration of a preferred declaration is itself, also
  when the canonical declaration is an Objective-C interface or protocol and its
  definition is preferred over it.
\<close>

theorem getPreferredDecl_idem:
  assumes "redecl_chains_ok ctx"
  shows "getPreferredDecl ctx (getPreferredDecl ctx D) = getPreferredDecl ctx D"
proof -
  let ?C = "getCanonicalDecl ctx D"
  have cc: "getCanonicalDecl ctx ?C = ?C"
    using assms by (simp add: redecl_chains_ok_def)
  have cd: "getCanonicalDecl ctx Def = ?C"
    if "declClass ctx ?C = C_ObjCInterface \<or> declClass ctx ?C = C_ObjCProtocol"
      and "decl_getDefinition ctx ?C = Some Def" for Def
  proof -
    have "getCanonicalDecl ctx Def = getCanonicalDecl ctx ?C"
      using assms that unfolding redecl_chains_ok_def by blast
    with cc show ?thesis by simp
  qed
  show ?thesis
  proof (cases "(declClass ctx ?C = C_ObjCInterface \<or> declClass ctx ?C = C_ObjCProtocol)
                 \<and> decl_getDefinition ctx ?C \<noteq> None")
    case True
    then obtain Def where d: "decl_getDefinition ctx ?C = Some Def" by auto
    then have p: "getPreferredDecl ctx D = Def"
      using True by (auto simp: getPreferredDecl_def Let_def)
    have "getCanonicalDecl ctx Def = ?C" using cd True d by blast
    then have "getPreferredDecl ctx Def = Def"
      using True d by (auto simp: getPreferredDecl_def Let_def)
    with p show ?thesis by simp
  next
    case False
    then have p: "getPreferredDecl ctx D = ?C"
      by (auto simp: getPreferredDecl_def Let_def)
    have "getPreferredDecl ctx ?C = ?C"
      using False cc by (auto simp: getPreferredDecl_def Let_def)
    with p show ?thesis by simp
  qed
qed

theorem getPreferredDecl_idem_witness:
  "redecl_chains_ok ex_objc_ctx
   \<and> getPreferredDecl ex_objc_ctx 1 = 2
   \<and> getPreferredDecl ex_objc_ctx (getPreferredDecl ex_objc_ctx 1) = getPreferredDecl ex_objc_ctx 1"
proof -
  have h: "redecl_chains_ok ex_objc_ctx"
    by (simp add: redecl_chains_ok_def ex_objc_ctx_def ex_ctx_def)
  have "getPreferredDecl ex_objc_ctx 1 = 2"
    by (simp add: getPreferredDecl_def ex_objc_ctx_def ex_ctx_def)
  with h getPreferredDecl_idem [OF h, of 1] show ?thesis by simp
qed

lemma AddResultDecl_no_definition:
  "getDefinition (getASTContext AST) (getPreferredDecl (getASTContext AST) D) = None \<Longrightarrow>
   AddResultDecl lib AST P Result D = Result
   \<or> (\<exists>R. AddResultDecl lib AST P Result D = Result @ [R] \<and> Definition R = None)"
  by (auto simp: AddResultDecl_def Let_def split: option.splits)

subsection \<open>Definitions per kind\<close>

lemma toLSPLocation_null: "\<not> symloc_valid Loc \<Longrightarrow> toLSPLocation lib Loc P = None"
  by (simp add: toLSPLocation_def)

lemma enhance_one_takes_index_definition:
  "Definition R = None \<Longrightarrow>
   Definition (enhance_one lib P Sym R) = toLSPLocation lib (sym_Definition Sym) P"
  by (auto simp: enhance_one_def Let_def split: option.splits)

subsection \<open>Include lines\<close>

lemma locateFileReferent_loop_find:
  "locateFileReferent_loop lib Pos P Incs =
     map_option (\<lambda>Inc. \<lparr>Name = path_filename lib (inc_Resolved Inc),
                        PreferredDeclaration = \<lparr>loc_uri = URI_canonicalize lib (inc_Resolved Inc) P,
                                                 loc_range = empty_Range\<rparr>,
                        Definition = Some \<lparr>loc_uri = URI_canonicalize lib (inc_Resolved Inc) P,
                                           loc_range = empty_Range\<rparr>,
                        ID = 0\<rparr>)
       (List.find (\<lambda>Inc. inc_Resolved Inc \<noteq> [] \<and> inc_HashLine Inc = pos_line Pos) Incs)"
  by (induction Incs) (auto simp: Let_def empty_LocatedSymbol_def)

text \<open>
  Claim C10. When the line of the position holds a resolved include of the main
  file, \<^verbatim>\<open>locateSymbolAt\<close> returns exactly one located symbol, for the first such
  include: its name is the file name of the included file, its preferred
  declaration is the included file with the empty range and its definition is the
  same location. The include line is the only step that runs: no token, no AST, no
  index and no fallback is consulted.
\<close>

theorem locateSymbolAt_include_line:
  assumes "List.find (\<lambda>Inc. inc_Resolved Inc \<noteq> [] \<and> inc_HashLine Inc = pos_line Pos)
             (MainFileIncludes AST) = Some Inc"
  shows "locateSymbolAt lib score AST Pos Index =
           [\<lparr>Name = path_filename lib (inc_Resolved Inc),
             PreferredDeclaration = \<lparr>loc_uri = URI_canonicalize lib (inc_Resolved Inc) (tuPath AST),
                                      loc_range = empty_Range\<rparr>,
             Definition = Some \<lparr>loc_uri = URI_canonicalize lib (inc_Resolved Inc) (tuPath AST),
                                loc_range = empty_Range\<rparr>,
             ID = 0\<rparr>]
    \<and> locateSymbolAt_run lib score AST Pos Index =
           ([(S_FileReferent, True)], locateSymbolAt lib score AST Pos Index)"
  using assms
  by (simp add: locateSymbolAt_def locateSymbolAt_run_def locateFileReferent_def
      locateFileReferent_loop_find Let_def)

theorem locateSymbolAt_include_line_witness:
  "List.find (\<lambda>Inc. inc_Resolved Inc \<noteq> [] \<and> inc_HashLine Inc = pos_line (ex_pos 2 7))
     (MainFileIncludes ex_inc_AST) = Some \<lparr>inc_Resolved = ''/usr/include/a.h'', inc_HashLine = 2\<rparr>
   \<and> locateSymbolAt ex_lib sym_ID ex_inc_AST (ex_pos 2 7) (Some ex_foo_index) =
        [\<lparr>Name = ''a.h'',
          PreferredDeclaration = \<lparr>loc_uri = ''/usr/include/a.h'', loc_range = empty_Range\<rparr>,
          Definition = Some \<lparr>loc_uri = ''/usr/include/a.h'', loc_range = empty_Range\<rparr>,
          ID = 0\<rparr>]
   \<and> fst (locateSymbolAt_run ex_lib sym_ID ex_inc_AST (ex_pos 2 7) (Some ex_foo_index))
        = [(S_FileReferent, True)]"
proof -
  have f: "List.find (\<lambda>Inc. inc_Resolved Inc \<noteq> [] \<and> inc_HashLine Inc = pos_line (ex_pos 2 7))
     (MainFileIncludes ex_inc_AST) = Some \<lparr>inc_Resolved = ''/usr/include/a.h'', inc_HashLine = 2\<rparr>"
    by (simp add: ex_inc_AST_def ex_AST_def ex_pos_def)
  from f locateSymbolAt_include_line [OF f, of ex_lib sym_ID "Some ex_foo_index"]
  show ?thesis by (simp add: ex_lib_def ex_inc_AST_def ex_AST_def)
qed

subsection \<open>The order of the resolution steps\<close>

lemmas run_defs = locateSymbolAt_def locateSymbolAt_run_def locateFileReferent_def locate_fallback_def
  locateASTReferent_def getDeclAtPositionWithRelations_def ResultFromTree_def candidate_step_def
  AddResultDecl_def getPreferredDecl_def getDefinition_def getDefinition_tail_def
  getDefinition_objc_method_def makeLocation_def enhanceLocatedSymbolsFromIndex_def
  enhance_callback_def enhance_one_def ResultIndex_lookup_def toLSPLocation_def
  getPreferredLocation_def toIndexLocation_def findImplementors_def locateMacroReferent_def
  isa_TagDecl_def isa_FunctionDecl_def isa_ValueDecl_def isa_ObjCContainerDecl_def
  objcMethodIsTouched_def Let_def

lemma touched_loop_members:
  "touched_loop lib AST Index P toks = (tr, r) \<Longrightarrow>
   \<forall>e \<in> set tr. fst e = S_DeducedType \<or> fst e = S_MacroAtCursor"
proof (induction toks arbitrary: tr r)
  case Nil
  then show ?case by simp
next
  case (Cons Tok toks)
  then show ?case
    by (auto simp: Let_def split: if_splits option.splits prod.splits)
qed

lemma touched_loop_sorted:
  "touched_loop lib AST Index P toks = (tr, r) \<Longrightarrow> sorted_wrt stage_before (map fst tr)"
proof (induction toks arbitrary: tr r)
  case Nil
  then show ?case by simp
next
  case (Cons Tok toks)
  have m: "touched_loop lib AST Index P toks = (tr', r') \<Longrightarrow> e \<in> set tr'
           \<Longrightarrow> stage_before S_DeducedType (fst e)" for tr' r' e
    using touched_loop_members [of lib AST Index P toks tr' r']
    by (auto simp: stage_before_def)
  from Cons show ?case
    by (auto simp: Let_def m split: if_splits option.splits prod.splits)
qed

lemma touched_loop_continues:
  "touched_loop lib AST Index P toks = (tr, Inr T) \<Longrightarrow> \<forall>e \<in> set tr. \<not> snd e"
proof (induction toks arbitrary: tr)
  case Nil
  then show ?case by simp
next
  case (Cons Tok toks)
  then show ?case
    by (auto simp: Let_def split: if_splits option.splits prod.splits)
qed

lemma touched_loop_returns:
  "touched_loop lib AST Index P toks = (tr, Inl Found) \<Longrightarrow>
   tr \<noteq> [] \<and> snd (last tr) \<and> Found \<noteq> [] \<and> (\<forall>e \<in> set (butlast tr). \<not> snd e)"
proof (induction toks arbitrary: tr)
  case Nil
  then show ?case by simp
next
  case (Cons Tok toks)
  then show ?case
    by (auto simp: Let_def split: if_splits option.splits prod.splits)
qed

lemma locate_fallback_trace:
  "locate_fallback lib score AST Index P Word NK = (tr, r) \<Longrightarrow>
   tr \<noteq> [] \<and> sorted_wrt stage_before (map fst tr) \<and> (\<forall>e \<in> set tr. 4 \<le> stage_rank (fst e))
   \<and> (\<forall>e \<in> set (butlast tr). \<not> snd e) \<and> snd (last tr) = (r \<noteq> [])"
  by (auto simp: locate_fallback_def Let_def stage_before_def
      split: if_splits option.splits prod.splits)

lemma locateSymbolAt_trace_in_order:
  fixes score :: "Symbol \<Rightarrow> 's::linorder"
  shows "trace_in_order (fst (locateSymbolAt_run lib score AST Pos Index))
           (locateSymbolAt lib score AST Pos Index)
    \<and> ((S_MacroAtCursor, True) \<in> set (fst (locateSymbolAt_run lib score AST Pos Index))
         \<longrightarrow> S_ASTAtCursor \<notin> fst ` set (fst (locateSymbolAt_run lib score AST Pos Index)))
    \<and> (S_Textual \<in> fst ` set (fst (locateSymbolAt_run lib score AST Pos Index))
         \<longrightarrow> (S_ASTAtCursor, False) \<in> set (fst (locateSymbolAt_run lib score AST Pos Index)))
    \<and> (S_MacroNearby \<in> fst ` set (fst (locateSymbolAt_run lib score AST Pos Index))
         \<longrightarrow> (S_ASTAtCursor, False) \<in> set (fst (locateSymbolAt_run lib score AST Pos Index)))"
proof -
  define run where "run = locateSymbolAt_run lib score AST Pos Index"
  have "trace_in_order (fst run) (snd run)
    \<and> ((S_MacroAtCursor, True) \<in> set (fst run) \<longrightarrow> S_ASTAtCursor \<notin> fst ` set (fst run))
    \<and> (S_Textual \<in> fst ` set (fst run) \<longrightarrow> (S_ASTAtCursor, False) \<in> set (fst run))
    \<and> (S_MacroNearby \<in> fst ` set (fst run) \<longrightarrow> (S_ASTAtCursor, False) \<in> set (fst run))"
proof (cases "locateFileReferent lib Pos AST (tuPath AST)")
  case (Some File)
  then show ?thesis
    by (simp add: run_def locateSymbolAt_run_def trace_in_order_def)
next
  case None
  note nofile = None
  show ?thesis
  proof (cases "sourceLocationInMainFile (getSourceManager AST) Pos")
    case None
    with nofile show ?thesis
      by (simp add: run_def locateSymbolAt_run_def trace_in_order_def)
  next
    case (Some CurLoc)
    obtain tr r where tl: "touched_loop lib AST Index (tuPath AST)
        (spelledTokensTouching (getTokens AST) CurLoc) = (tr, r)"
      by (cases "touched_loop lib AST Index (tuPath AST)
        (spelledTokensTouching (getTokens AST) CurLoc)") auto
    note mem = touched_loop_members [OF tl] and srt = touched_loop_sorted [OF tl]
    have low: "\<forall>e \<in> set tr. stage_before S_FileReferent (fst e)"
      using mem by (auto simp: stage_before_def)
    have high: "\<forall>e \<in> set tr. \<forall>e'. 3 \<le> stage_rank (fst e') \<longrightarrow> stage_before (fst e) (fst e')"
      using mem by (auto simp: stage_before_def)
    show ?thesis
    proof (cases r)
      case (Inl Found)
      have "run = ((S_FileReferent, False) # tr, Found)"
        using nofile Some tl Inl by (simp add: run_def locateSymbolAt_run_def)
      moreover note touched_loop_returns [OF tl [unfolded Inl]]
      ultimately show ?thesis
        using low srt mem by (auto simp: trace_in_order_def list_all_iff)
    next
      case (Inr TouchedIdentifier)
      note allF = touched_loop_continues [OF tl [unfolded Inr]]
      obtain ASTResults NodeKind where ar: "locateASTReferent lib CurLoc TouchedIdentifier AST
          (tuPath AST) Index NK_None = (ASTResults, NodeKind)"
        by (cases "locateASTReferent lib CurLoc TouchedIdentifier AST (tuPath AST) Index NK_None") auto
      show ?thesis
      proof (cases "ASTResults \<noteq> []")
        case True
        have "run = ((S_FileReferent, False) # tr @ [(S_ASTAtCursor, True)], ASTResults)"
          using nofile Some tl Inr ar True by (simp add: run_def locateSymbolAt_run_def)
        then show ?thesis
          using low srt mem allF True
          by (auto simp: trace_in_order_def list_all_iff sorted_wrt_append stage_before_def
              butlast_append)
      next
        case False
        show ?thesis
        proof (cases "wordTouching (getTokens AST) CurLoc")
          case None
          have "run = ((S_FileReferent, False) # tr @ [(S_ASTAtCursor, False)], [])"
            using nofile Some tl Inr ar False None by (simp add: run_def locateSymbolAt_run_def)
          then show ?thesis
            using low srt mem allF
            by (auto simp: trace_in_order_def list_all_iff sorted_wrt_append stage_before_def
                butlast_append)
        next
          case (Some Word)
          obtain tr' res where fb: "locate_fallback lib score AST Index (tuPath AST) Word NodeKind
              = (tr', res)"
            by (cases "locate_fallback lib score AST Index (tuPath AST) Word NodeKind") auto
          note f = locate_fallback_trace [OF fb]
          have r: "run = ((S_FileReferent, False) # tr @ (S_ASTAtCursor, False) # tr', res)"
            using nofile \<open>sourceLocationInMainFile (getSourceManager AST) Pos = Some CurLoc\<close>
              tl Inr ar False Some fb
            by (simp add: run_def locateSymbolAt_run_def)
          have upper: "\<forall>e \<in> set tr. stage_rank (fst e) \<le> 2"
            using mem by auto
          have cross: "\<forall>e \<in> set tr. \<forall>e' \<in> set tr'. stage_before (fst e) (fst e')"
            using upper f by (fastforce simp: stage_before_def)
          have cross0: "\<forall>e' \<in> set tr'. stage_before S_FileReferent (fst e')
              \<and> stage_before S_ASTAtCursor (fst e')"
            using f by (fastforce simp: stage_before_def)
          have cross1: "\<forall>e \<in> set tr. stage_before (fst e) S_ASTAtCursor"
            using upper by (fastforce simp: stage_before_def)
          have s1: "sorted_wrt stage_before (map fst ((S_FileReferent, False) # tr @ (S_ASTAtCursor, False) # tr'))"
            using low srt f cross cross0 cross1
            by (simp add: sorted_wrt_append) (auto simp: stage_before_def)
          have s2: "butlast ((S_FileReferent, False) # tr @ (S_ASTAtCursor, False) # tr')
              = (S_FileReferent, False) # tr @ (S_ASTAtCursor, False) # butlast tr'"
            using f by (simp add: butlast_append)
          have s3: "last ((S_FileReferent, False) # tr @ (S_ASTAtCursor, False) # tr') = last tr'"
            using f by simp
          have s4: "(S_MacroAtCursor, True) \<notin> set tr'"
            using f by auto
          show ?thesis
            unfolding r fst_conv snd_conv trace_in_order_def s2 s3
            using s1 allF f s4 by (auto simp: list_all_iff)
        qed
      qed
    qed
  qed
qed
  then show ?thesis by (simp add: run_def locateSymbolAt_def)
qed

subsection \<open>Index enhancement\<close>

lemma build_ResultIndex_IDs:
  "snd (build_ResultIndex Rs I (M, S)) = S \<union> requested_IDs Rs"
  by (induction Rs arbitrary: I M S) (auto simp: requested_IDs_def)

lemma build_ResultIndex_keeps:
  "M k = Some v \<Longrightarrow> fst (build_ResultIndex Rs I (M, S)) k = Some v"
proof (induction Rs arbitrary: I M S)
  case Nil
  then show ?case by simp
next
  case (Cons R Rs)
  have "(if M (ID R) = None then M(ID R \<mapsto> I) else M) k = Some v"
    using Cons.prems by auto
  then show ?case using Cons.IH Cons.prems by simp
qed

lemma build_ResultIndex_first:
  "M k = None \<Longrightarrow> J < length Rs \<Longrightarrow> ID (Rs ! J) = k \<Longrightarrow> k \<noteq> 0 \<Longrightarrow>
   \<forall>J' < J. ID (Rs ! J') \<noteq> k \<Longrightarrow>
   fst (build_ResultIndex Rs I (M, S)) k = Some (I + J)"
proof (induction Rs arbitrary: I M S J)
  case Nil
  then show ?case by simp
next
  case (Cons R Rs)
  show ?case
  proof (cases J)
    case 0
    then show ?thesis using Cons.prems by (simp add: build_ResultIndex_keeps)
  next
    case (Suc J')
    have neq: "ID R \<noteq> k" using Cons.prems(5) Suc by auto
    have rest: "\<forall>J''<J'. ID (Rs ! J'') \<noteq> k" using Cons.prems(5) Suc by auto
    have "fst (build_ResultIndex Rs (Suc I) (M', S')) k = Some (Suc I + J')"
      if "M' k = None" for M' S'
      using Cons.IH [of M' J' "Suc I" S'] that Cons.prems Suc rest by simp
    then show ?thesis using neq Cons.prems(1) Suc by auto
  qed
qed

lemma build_ResultIndex_sound:
  "fst (build_ResultIndex Rs I (M, S)) k = Some v \<Longrightarrow>
   M k = Some v \<or> (I \<le> v \<and> v < I + length Rs \<and> ID (Rs ! (v - I)) = k)"
proof (induction Rs arbitrary: I M S)
  case Nil
  then show ?case by simp
next
  case (Cons R Rs)
  show ?case
  proof (cases "ID R \<noteq> 0")
    case True
    let ?M = "if M (ID R) = None then M(ID R \<mapsto> I) else M"
    from Cons.prems True have "fst (build_ResultIndex Rs (Suc I) (?M, insert (ID R) S)) k = Some v"
      by simp
    from Cons.IH [OF this]
    have "?M k = Some v \<or> (Suc I \<le> v \<and> v < Suc I + length Rs \<and> ID (Rs ! (v - Suc I)) = k)" .
    then show ?thesis
    proof
      assume "?M k = Some v"
      then show ?thesis by (auto split: if_splits)
    next
      assume a: "Suc I \<le> v \<and> v < Suc I + length Rs \<and> ID (Rs ! (v - Suc I)) = k"
      then have "v - I = Suc (v - Suc I)" by linarith
      with a show ?thesis by simp
    qed
  next
    case False
    with Cons.prems have "fst (build_ResultIndex Rs (Suc I) (M, S)) k = Some v" by simp
    from Cons.IH [OF this]
    have "M k = Some v \<or> (Suc I \<le> v \<and> v < Suc I + length Rs \<and> ID (Rs ! (v - Suc I)) = k)" .
    then show ?thesis
    proof
      assume "M k = Some v" then show ?thesis by simp
    next
      assume a: "Suc I \<le> v \<and> v < Suc I + length Rs \<and> ID (Rs ! (v - Suc I)) = k"
      then have "v - I = Suc (v - Suc I)" by linarith
      with a show ?thesis by simp
    qed
  qed
qed

lemma build_ResultIndex_dom:
  assumes "k \<in> requested_IDs Rs"
  shows "\<exists>v < length Rs. fst (build_ResultIndex Rs 0 (Map.empty, S)) k = Some v \<and> ID (Rs ! v) = k"
proof -
  from assms obtain J where J: "J < length Rs" "ID (Rs ! J) = k" and k: "k \<noteq> 0"
    by (auto simp: requested_IDs_def in_set_conv_nth)
  define J0 where "J0 = (LEAST J. J < length Rs \<and> ID (Rs ! J) = k)"
  have J0: "J0 < length Rs \<and> ID (Rs ! J0) = k"
    unfolding J0_def by (rule LeastI [of _ J]) (simp add: J)
  have least: "\<forall>J' < J0. ID (Rs ! J') \<noteq> k"
  proof (intro allI impI)
    fix J' assume lt: "J' < J0"
    show "ID (Rs ! J') \<noteq> k"
    proof
      assume "ID (Rs ! J') = k"
      with lt J0 have "J' < length Rs \<and> ID (Rs ! J') = k" by simp
      then have "J0 \<le> J'" unfolding J0_def by (rule Least_le)
      with lt show False by simp
    qed
  qed
  have "fst (build_ResultIndex Rs 0 (Map.empty, S)) k = Some (0 + J0)"
    by (rule build_ResultIndex_first) (use J0 k least in auto)
  with J0 show ?thesis by auto
qed

lemma length_enhance_fold:
  "length (foldl (enhance_callback lib P RI) Res syms) = length Res"
  by (induction syms arbitrary: Res) (auto simp: enhance_callback_def Let_def)

lemma enhance_fold_slot:
  assumes "I < length Res"
    and "ResultIndex_lookup RI key = I"
    and "\<forall>S \<in> set syms. sym_ID S \<noteq> key \<longrightarrow> ResultIndex_lookup RI (sym_ID S) \<noteq> I"
  shows "foldl (enhance_callback lib P RI) Res syms ! I =
         foldl (\<lambda>R S. enhance_one lib P S R) (Res ! I) (filter (\<lambda>S. sym_ID S = key) syms)"
  using assms
proof (induction syms arbitrary: Res)
  case Nil
  then show ?case by simp
next
  case (Cons S syms)
  let ?Res = "enhance_callback lib P RI Res S"
  have len: "I < length ?Res" using Cons.prems(1) by (simp add: enhance_callback_def Let_def)
  have rest: "\<forall>S \<in> set syms. sym_ID S \<noteq> key \<longrightarrow> ResultIndex_lookup RI (sym_ID S) \<noteq> I"
    using Cons.prems(3) by simp
  have step: "?Res ! I = (if sym_ID S = key then enhance_one lib P S (Res ! I) else Res ! I)"
    using Cons.prems by (auto simp: enhance_callback_def Let_def)
  show ?case
    using Cons.IH [OF len Cons.prems(2) rest] step by simp
qed

lemma enhance_one_keeps_definition:
  "Definition R \<noteq> None \<Longrightarrow> Definition (enhance_one lib P Sym R) \<noteq> None"
  by (auto simp: enhance_one_def Let_def split: option.splits)

lemma enhance_one_definition:
  "(case Definition R of
      Some Def \<Rightarrow>
        Definition (enhance_one lib P Sym R) = Some Def
        \<or> (Definition (enhance_one lib P Sym R) \<noteq> None
           \<and> Definition (enhance_one lib P Sym R)
               = toLSPLocation lib (getPreferredLocation lib Def (sym_Definition Sym)) P)
    | None \<Rightarrow> Definition (enhance_one lib P Sym R) = toLSPLocation lib (sym_Definition Sym) P)"
  by (auto simp: enhance_one_def Let_def split: option.splits)

lemma enhanceLocatedSymbolsFromIndex_unfold:
  assumes "requested_IDs Result \<noteq> {}"
  shows "enhanceLocatedSymbolsFromIndex lib Result (Some idx) P =
         foldl (enhance_callback lib P (fst (build_ResultIndex Result 0 (Map.empty, {})))) Result
           (idx_lookup idx (requested_IDs Result))"
proof -
  have "snd (build_ResultIndex Result 0 (Map.empty, {})) = requested_IDs Result"
    using build_ResultIndex_IDs [of Result 0 Map.empty "{}"] by simp
  then show ?thesis
    using assms by (simp add: enhanceLocatedSymbolsFromIndex_def split_beta)
qed

lemma enhance_slot:
  assumes first: "I < length Result" "ID (Result ! I) \<noteq> 0" "\<forall>J<I. ID (Result ! J) \<noteq> ID (Result ! I)"
    and only: "\<forall>S \<in> set (idx_lookup idx (requested_IDs Result)). sym_ID S \<in> requested_IDs Result"
  shows "enhanceLocatedSymbolsFromIndex lib Result (Some idx) P ! I =
         foldl (\<lambda>R S. enhance_one lib P S R) (Result ! I)
           (filter (\<lambda>S. sym_ID S = ID (Result ! I)) (idx_lookup idx (requested_IDs Result)))"
proof -
  let ?RI = "fst (build_ResultIndex Result 0 (Map.empty, {}))"
  have "ID (Result ! I) \<in> requested_IDs Result"
    using first(1,2) by (simp add: requested_IDs_def)
  then have ne: "requested_IDs Result \<noteq> {}" by blast
  have "?RI (ID (Result ! I)) = Some (0 + I)"
    by (rule build_ResultIndex_first) (simp_all add: first)
  then have key: "ResultIndex_lookup ?RI (ID (Result ! I)) = I"
    by (simp add: ResultIndex_lookup_def)
  have others: "\<forall>S \<in> set (idx_lookup idx (requested_IDs Result)). sym_ID S \<noteq> ID (Result ! I)
      \<longrightarrow> ResultIndex_lookup ?RI (sym_ID S) \<noteq> I"
  proof (intro ballI impI)
    fix S assume S: "S \<in> set (idx_lookup idx (requested_IDs Result))"
      and neq: "sym_ID S \<noteq> ID (Result ! I)"
    from S only have "sym_ID S \<in> requested_IDs Result" by blast
    from build_ResultIndex_dom [OF this, of "{}"]
    obtain v where v: "?RI (sym_ID S) = Some v" "ID (Result ! v) = sym_ID S" by blast
    have "ResultIndex_lookup ?RI (sym_ID S) = v"
      using v(1) by (simp add: ResultIndex_lookup_def)
    with v(2) neq show "ResultIndex_lookup ?RI (sym_ID S) \<noteq> I" by auto
  qed
  show ?thesis
    unfolding enhanceLocatedSymbolsFromIndex_unfold [OF ne]
    by (rule enhance_fold_slot [OF first(1) key others])
qed

text \<open>
  Claim C3, as the code has it. Take the first result that carries a given non-null
  symbol id, and an index that answers the lookup with symbols of requested ids
  only, exactly one of them for this id. If the result had a definition it still
  has one afterwards: the same, or the conversion of the location the merge
  prefers, when that converts. If it had none, its definition is the conversion of
  the index's definition location, which is nothing when the index holds none or
  when the location does not convert.
\<close>

theorem enhance_definition_kept_or_taken:
  assumes "I < length Result" and "ID (Result ! I) \<noteq> 0"
    and "\<forall>J<I. ID (Result ! J) \<noteq> ID (Result ! I)"
    and "\<forall>S \<in> set (idx_lookup idx (requested_IDs Result)). sym_ID S \<in> requested_IDs Result"
    and "filter (\<lambda>S. sym_ID S = ID (Result ! I)) (idx_lookup idx (requested_IDs Result)) = [Sym]"
  shows "case Definition (Result ! I) of
      Some Def \<Rightarrow>
        Definition (enhanceLocatedSymbolsFromIndex lib Result (Some idx) P ! I) = Some Def
        \<or> (Definition (enhanceLocatedSymbolsFromIndex lib Result (Some idx) P ! I) \<noteq> None
           \<and> Definition (enhanceLocatedSymbolsFromIndex lib Result (Some idx) P ! I)
               = toLSPLocation lib (getPreferredLocation lib Def (sym_Definition Sym)) P)
    | None \<Rightarrow>
        Definition (enhanceLocatedSymbolsFromIndex lib Result (Some idx) P ! I)
          = toLSPLocation lib (sym_Definition Sym) P"
proof -
  have eq: "enhanceLocatedSymbolsFromIndex lib Result (Some idx) P ! I
        = enhance_one lib P Sym (Result ! I)"
    using enhance_slot [OF assms(1-4), of lib P] assms(5) by simp
  show ?thesis
    unfolding eq by (rule enhance_one_definition)
qed

lemma ex_requested: "requested_IDs [ex_ast_result] = {6}"
  by (simp add: requested_IDs_def ex_ast_result_def)

theorem enhance_definition_kept_or_taken_witness:
  "Definition ex_ast_result = None
   \<and> Definition (enhanceLocatedSymbolsFromIndex ex_lib [ex_ast_result] (Some ex_ns_index) ''/main.cpp'' ! 0)
       = Some \<lparr>loc_uri = ''file:///ns.cpp'',
               loc_range = \<lparr>range_start = \<lparr>pos_line = 3, pos_character = 10\<rparr>,
                            range_end = \<lparr>pos_line = 3, pos_character = 12\<rparr>\<rparr>\<rparr>"
proof -
  have 1: "0 < length [ex_ast_result]" by simp
  have 2: "ID ([ex_ast_result] ! 0) \<noteq> 0" by (simp add: ex_ast_result_def)
  have 3: "\<forall>J<0. ID ([ex_ast_result] ! J) \<noteq> ID ([ex_ast_result] ! 0)" by simp
  have 4: "\<forall>S \<in> set (idx_lookup ex_ns_index (requested_IDs [ex_ast_result])).
             sym_ID S \<in> requested_IDs [ex_ast_result]"
    by (simp add: ex_requested ex_ns_index_def ex_index_def ex_ns_symbol_def empty_Symbol_def)
  have 5: "filter (\<lambda>S. sym_ID S = ID ([ex_ast_result] ! 0))
             (idx_lookup ex_ns_index (requested_IDs [ex_ast_result])) = [ex_ns_symbol]"
    by (simp add: ex_requested)
      (simp add: ex_ns_index_def ex_index_def ex_ns_symbol_def empty_Symbol_def ex_ast_result_def)
  show ?thesis
    using enhance_definition_kept_or_taken [OF 1 2 3 4 5, of ex_lib "''/main.cpp''"]
    by (simp add: ex_ast_result_def toLSPLocation_def symloc_valid_def ex_ns_symbol_def
        empty_Symbol_def ex_lib_def ex_toLSP_def)
qed

text \<open>
  An index definition that is valid and does not convert leaves the result without
  a definition.
\<close>

theorem enhance_unconvertible_definition:
  "symloc_valid (sym_Definition ex_remote_symbol)
   \<and> sym_ID ex_remote_symbol = ID ex_ast_result
   \<and> idx_lookup ex_remote_index {ID ex_ast_result} = [ex_remote_symbol]
   \<and> map Definition (enhanceLocatedSymbolsFromIndex ex_strict_lib [ex_ast_result]
        (Some ex_remote_index) ''/main.cpp'') = [None]"
  by (simp add: enhanceLocatedSymbolsFromIndex_def enhance_callback_def enhance_one_def
      ResultIndex_lookup_def toLSPLocation_def getPreferredLocation_def toIndexLocation_def
      symloc_valid_def ex_remote_symbol_def ex_remote_index_def ex_ast_result_def ex_ns_symbol_def
      ex_strict_lib_def ex_lib_def ex_toLSP_def ex_index_def empty_Symbol_def
      empty_SymbolLocation_def Let_def)

subsection \<open>Sample runs of go-to-definition\<close>

lemma u32_small: "n < 4294967296 \<Longrightarrow> u32 n = n"
  by (simp add: u32_def)

lemma ex_macro_run:
  "locateSymbolAt_run ex_lib sym_ID ex_macro_AST (ex_pos 5 0) (Some ex_index)
     = ([(S_FileReferent, False), (S_MacroAtCursor, True)],
        [\<lparr>Name = ''M'',
          PreferredDeclaration = \<lparr>loc_uri = ''/main.cpp'',
             loc_range = \<lparr>range_start = \<lparr>pos_line = 1, pos_character = 0\<rparr>,
                          range_end = \<lparr>pos_line = 1, pos_character = 1\<rparr>\<rparr>\<rparr>,
          Definition = Some \<lparr>loc_uri = ''/main.cpp'',
             loc_range = \<lparr>range_start = \<lparr>pos_line = 1, pos_character = 0\<rparr>,
                          range_end = \<lparr>pos_line = 1, pos_character = 1\<rparr>\<rparr>\<rparr>,
          ID = 1\<rparr>])"
  by (simp add: run_defs ex_node5_def ex_M_tok_def ex_macro_AST_def ex_defs)

lemma ex_comment_nearby:
  "findNearbyIdentifier ex_foo_word (getTokens ex_comment_AST) (getSourceManager ex_comment_AST)
     = Some ex_foo_tok"
proof -
  have l: "getSpellingLineNumber ex_SM (w_Location ex_foo_word) = 3"
    by (simp add: ex_SM_def ex_foo_word_def)
  have d: "nearby_MaxDistance ex_foo_word = 8"
    by (simp add: nearby_MaxDistance_def ex_foo_word_def u32_small)
  have m: "nearby_LineMin 3 8 = 1" "nearby_LineMax 3 8 = 12"
    by (simp_all add: nearby_LineMin_def nearby_LineMax_def u32_small)
  show ?thesis
    unfolding findNearbyIdentifier_def
    by (simp add: Let_def ex_comment_AST_def ex_AST_def ex_TB_def l d m Consider_def
        tokenSpelledAt_def)
      (simp add: ex_foo_tok_def ex_foo_word_def ex_SM_def nearby_Cost_def u32_small)
qed

lemma ex_comment_textual:
  "locateSymbolTextually ex_lib sym_ID (visibleNamespacesAt ex_comment_AST) ex_foo_word
     (Some ex_foo_index) ''/main.cpp'' NK_None \<noteq> []"
  by (simp add: locateSymbolTextually_def textual_callback_def textual_located_def
      ex_foo_def ex_foo_index_def ex_foo_word_def ex_defs isDependentName_def)

lemma ex_comment_trace:
  "fst (locateSymbolAt_run ex_lib sym_ID ex_comment_AST (ex_pos 2 10) (Some ex_foo_index))
     = [(S_FileReferent, False), (S_ASTAtCursor, False), (S_MacroNearby, False),
        (S_ASTNearby, False), (S_Textual, True)]"
proof -
  have p: "tuPath ex_comment_AST = ''/main.cpp''"
    by (simp add: ex_comment_AST_def ex_AST_def)
  have f1: "locateFileReferent ex_lib (ex_pos 2 10) ex_comment_AST ''/main.cpp'' = None"
    by (simp add: locateFileReferent_def ex_comment_AST_def ex_AST_def)
  have f2: "sourceLocationInMainFile (getSourceManager ex_comment_AST) (ex_pos 2 10) = Some 210"
    by (simp add: ex_comment_AST_def ex_AST_def ex_SM_def ex_pos_def)
  have f3: "touched_loop ex_lib ex_comment_AST (Some ex_foo_index) ''/main.cpp''
              (spelledTokensTouching (getTokens ex_comment_AST) 210) = ([], Inr None)"
    by (simp add: ex_comment_AST_def ex_AST_def ex_TB_def)
  have f4: "locateASTReferent ex_lib L T ex_comment_AST ''/main.cpp'' (Some ex_foo_index) NK_None
              = ([], NK_None)" for L T
    by (simp add: locateASTReferent_def getDeclAtPositionWithRelations_def
        enhanceLocatedSymbolsFromIndex_def findImplementors_def ex_comment_AST_def ex_AST_def)
  have f5: "wordTouching (getTokens ex_comment_AST) 210 = Some ex_foo_word"
    by (simp add: ex_comment_AST_def ex_AST_def ex_TB_def)
  have f7: "locateMacroReferent ex_lib ex_foo_tok ex_comment_AST ''/main.cpp'' = None"
    by (simp add: locateMacroReferent_def ex_comment_AST_def ex_AST_def)
  show ?thesis
    by (simp add: locateSymbolAt_run_def locate_fallback_def Let_def p f1 f2 f3 f4 f5 f7
        ex_comment_nearby ex_comment_textual)
qed

text \<open>
  The macro is not a fallback of the AST: with a macro name under the cursor where
  the AST would resolve to a declaration, the macro is returned and the AST is
  never asked.
\<close>

theorem locateSymbolAt_macro_before_AST:
  "map Name (locateSymbolAt ex_lib sym_ID ex_macro_AST (ex_pos 5 0) (Some ex_index)) = [''M'']
   \<and> fst (locateSymbolAt_run ex_lib sym_ID ex_macro_AST (ex_pos 5 0) (Some ex_index))
       = [(S_FileReferent, False), (S_MacroAtCursor, True)]
   \<and> sourceLocationInMainFile (getSourceManager ex_macro_AST) (ex_pos 5 0) = Some 500
   \<and> spelledTokensTouching (getTokens ex_macro_AST) 500 = [ex_M_tok]
   \<and> map Name (fst (locateASTReferent ex_lib 500 (Some ex_M_tok) ex_macro_AST (tuPath ex_macro_AST)
        (Some ex_index) NK_None)) = [''decl'']"
  by (simp add: run_defs ex_node5_def ex_M_tok_def ex_macro_AST_def ex_defs)

subsection \<open>Populated located symbols\<close>

lemma known_from_index:
  "rejects_null lib (tuPath AST) \<Longrightarrow> indexToLSPLocation lib Loc (tuPath AST) = Some L \<Longrightarrow>
   known_location lib AST L"
  unfolding rejects_null_def known_location_def by (metis option.distinct(1))

lemma known_from_toLSPLocation:
  "toLSPLocation lib Loc (tuPath AST) = Some L \<Longrightarrow> known_location lib AST L"
  unfolding toLSPLocation_def known_location_def by (metis option.distinct(1))

lemma known_from_makeLocation:
  "makeLocation lib AST Loc (tuPath AST) = Some L \<Longrightarrow> known_location lib AST L"
  unfolding known_location_def by blast

lemma populated_AddResultDecl:
  "list_all (populated lib AST) Result \<Longrightarrow>
   list_all (populated lib AST) (AddResultDecl lib AST (tuPath AST) Result D)"
  by (auto simp: AddResultDecl_def Let_def populated_def known_from_makeLocation
      split: option.splits)

lemma populated_fold_AddResultDecl:
  "list_all (populated lib AST) Result \<Longrightarrow>
   list_all (populated lib AST) (foldl (AddResultDecl lib AST (tuPath AST)) Result Ds)"
  by (induction Ds arbitrary: Result) (auto simp: populated_AddResultDecl)

lemma populated_candidate_step:
  "list_all (populated lib AST) (fst st) \<Longrightarrow>
   list_all (populated lib AST)
     (fst (candidate_step lib AST CurLoc T (tuPath AST) NK n st E))"
  by (auto simp: candidate_step_def Let_def populated_AddResultDecl populated_fold_AddResultDecl
      split: option.splits)

lemma populated_fold_candidate_step:
  "list_all (populated lib AST) (fst st) \<Longrightarrow>
   list_all (populated lib AST)
     (fst (foldl (candidate_step lib AST CurLoc T (tuPath AST) NK n) st Es))"
  by (induction Es arbitrary: st) (auto simp: populated_candidate_step)

lemma populated_enhance_one:
  "populated lib AST R \<Longrightarrow> populated lib AST (enhance_one lib (tuPath AST) Sym R)"
  by (auto simp: enhance_one_def Let_def populated_def known_from_toLSPLocation
      split: option.splits)

lemma populated_enhance_callback:
  assumes "list_all (populated lib AST) Res"
  shows "list_all (populated lib AST) (enhance_callback lib (tuPath AST) RI Res Sym)"
proof -
  let ?I = "ResultIndex_lookup RI (sym_ID Sym)"
  show ?thesis
  proof (cases "?I < length Res")
    case True
    then have "populated lib AST (Res ! ?I)" using assms by (simp add: list_all_length)
    then have "populated lib AST (enhance_one lib (tuPath AST) Sym (Res ! ?I))"
      by (rule populated_enhance_one)
    then show ?thesis
      using assms True
      by (auto simp: enhance_callback_def Let_def list_all_length nth_list_update)
  next
    case False
    then have "Res[?I := enhance_one lib (tuPath AST) Sym (Res ! ?I)] = Res"
      by (simp add: list_update_beyond)
    then show ?thesis using assms by (simp add: enhance_callback_def Let_def)
  qed
qed

lemma populated_enhance_fold:
  "list_all (populated lib AST) Res \<Longrightarrow>
   list_all (populated lib AST) (foldl (enhance_callback lib (tuPath AST) RI) Res syms)"
  by (induction syms arbitrary: Res) (auto simp: populated_enhance_callback)

lemma populated_enhance:
  "list_all (populated lib AST) Result \<Longrightarrow>
   list_all (populated lib AST) (enhanceLocatedSymbolsFromIndex lib Result Index (tuPath AST))"
  by (auto simp: enhanceLocatedSymbolsFromIndex_def populated_enhance_fold
      split: option.splits prod.splits)

lemma populated_findImplementors_callback:
  "rejects_null lib (tuPath AST) \<Longrightarrow> list_all (populated lib AST) Results \<Longrightarrow>
   list_all (populated lib AST) (findImplementors_callback lib (tuPath AST) Results SO)"
  by (auto simp: findImplementors_callback_def Let_def populated_def empty_LocatedSymbol_def
      known_from_index split: option.splits)

lemma populated_findImplementors_fold:
  "rejects_null lib (tuPath AST) \<Longrightarrow> list_all (populated lib AST) Results \<Longrightarrow>
   list_all (populated lib AST)
     (foldl (findImplementors_callback lib (tuPath AST)) Results SOs)"
  by (induction SOs arbitrary: Results) (auto simp: populated_findImplementors_callback)

lemma populated_findImplementors:
  "rejects_null lib (tuPath AST) \<Longrightarrow>
   list_all (populated lib AST) (findImplementors lib IDs Predicate Index (tuPath AST))"
  by (auto simp: findImplementors_def populated_findImplementors_fold split: option.splits)

lemma populated_locateASTReferent:
  "rejects_null lib (tuPath AST) \<Longrightarrow>
   list_all (populated lib AST)
     (fst (locateASTReferent lib CurLoc T AST (tuPath AST) Index NK))"
proof -
  assume r: "rejects_null lib (tuPath AST)"
  have "list_all (populated lib AST)
     (fst (foldl (candidate_step lib AST CurLoc T (tuPath AST) NK' n) ([], {}) Es))" for NK' n Es
    by (rule populated_fold_candidate_step) simp
  then have "foldl (candidate_step lib AST CurLoc T (tuPath AST) NK' n) ([], {}) Es = (Res, V)
     \<Longrightarrow> list_all (populated lib AST) Res" for NK' n Es Res V
    by (metis fst_conv)
  then show ?thesis
    using populated_findImplementors [OF r]
    by (auto simp: locateASTReferent_def Let_def populated_enhance split: prod.splits)
qed

lemma populated_locateSymbolForType:
  "list_all (populated lib AST) (locateSymbolForType lib AST Type Index)"
  by (simp add: locateSymbolForType_def Let_def populated_enhance populated_fold_AddResultDecl)

lemma populated_textual_located:
  "rejects_null lib (tuPath AST) \<Longrightarrow> textual_located lib (tuPath AST) Sym = Some R \<Longrightarrow>
   populated lib AST R"
  by (auto simp: textual_located_def Let_def populated_def empty_LocatedSymbol_def
      split: option.splits if_splits intro: known_from_index)

lemma populated_textual_callback:
  "rejects_null lib (tuPath AST) \<Longrightarrow> list_all (populated lib AST) (map snd (fst st)) \<Longrightarrow>
   list_all (populated lib AST)
     (map snd (fst (textual_callback lib score W (tuPath AST) st Sym)))"
  by (auto simp: textual_callback_def populated_textual_located split: option.splits)

lemma populated_textual_fold:
  "rejects_null lib (tuPath AST) \<Longrightarrow> list_all (populated lib AST) (map snd (fst st)) \<Longrightarrow>
   list_all (populated lib AST)
     (map snd (fst (foldl (textual_callback lib score W (tuPath AST)) st syms)))"
  by (induction syms arbitrary: st) (auto simp: populated_textual_callback)

lemma populated_locateSymbolTextually:
  assumes r: "rejects_null lib (tuPath AST)"
  shows "list_all (populated lib AST)
     (locateSymbolTextually lib score vis Word Index (tuPath AST) NK)"
proof -
  have "list_all (populated lib AST)
     (map snd (fst (foldl (textual_callback lib score W (tuPath AST)) ([], False) syms)))" for W syms
    by (rule populated_textual_fold [OF r]) simp
  then have "foldl (textual_callback lib score W (tuPath AST)) ([], False) syms = (Scored, TooMany)
     \<Longrightarrow> list_all (populated lib AST) (map snd Scored)" for W syms Scored TooMany
    by (metis fst_conv)
  then have "foldl (textual_callback lib score W (tuPath AST)) ([], False) syms = (Scored, TooMany)
     \<Longrightarrow> list_all (populated lib AST) (map snd (llvm_sort lt Scored))" for W syms Scored TooMany lt
    by (simp add: list_all_iff set_llvm_sort)
  then show ?thesis
    by (auto simp: locateSymbolTextually_def Let_def split: option.splits prod.splits)
qed

lemma populated_locateFileReferent:
  "locateFileReferent lib Pos AST (tuPath AST) = Some File \<Longrightarrow> populated lib AST File"
proof -
  assume a: "locateFileReferent lib Pos AST (tuPath AST) = Some File"
  then obtain Inc where
    f: "List.find (\<lambda>Inc. inc_Resolved Inc \<noteq> [] \<and> inc_HashLine Inc = pos_line Pos)
          (MainFileIncludes AST) = Some Inc"
    and F: "File = \<lparr>Name = path_filename lib (inc_Resolved Inc),
                    PreferredDeclaration = \<lparr>loc_uri = URI_canonicalize lib (inc_Resolved Inc) (tuPath AST),
                                             loc_range = empty_Range\<rparr>,
                    Definition = Some \<lparr>loc_uri = URI_canonicalize lib (inc_Resolved Inc) (tuPath AST),
                                       loc_range = empty_Range\<rparr>,
                    ID = 0\<rparr>"
    by (auto simp: locateFileReferent_def locateFileReferent_loop_find)
  from f have "Inc \<in> set (MainFileIncludes AST) \<and> inc_Resolved Inc \<noteq> []"
    by (auto simp: find_Some_iff in_set_conv_nth)
  then show ?thesis
    unfolding F populated_def known_location_def by auto
qed

lemma populated_locateMacroReferent:
  "locateMacroReferent lib Tok AST (tuPath AST) = Some Macro \<Longrightarrow> populated lib AST Macro"
  by (auto simp: locateMacroReferent_def populated_def empty_LocatedSymbol_def
      known_from_makeLocation split: option.splits)

lemma populated_touched_loop:
  "touched_loop lib AST Index (tuPath AST) toks = (tr, Inl Found) \<Longrightarrow>
   list_all (populated lib AST) Found"
proof (induction toks arbitrary: tr)
  case Nil
  then show ?case by simp
next
  case (Cons Tok toks)
  then show ?case
    by (auto simp: Let_def populated_locateMacroReferent populated_locateSymbolForType
        split: if_splits option.splits prod.splits)
qed

lemma populated_locate_fallback:
  assumes r: "rejects_null lib (tuPath AST)"
    and f: "locate_fallback lib score AST Index (tuPath AST) Word NK = (tr, res)"
  shows "list_all (populated lib AST) res"
proof -
  have a: "locateASTReferent lib L T AST (tuPath AST) Index NK = (Res, NK')
      \<Longrightarrow> list_all (populated lib AST) Res" for L T Res NK'
    using populated_locateASTReferent [OF r, of L T Index NK] by simp
  have t: "list_all (populated lib AST)
      (locateSymbolTextually lib score (visibleNamespacesAt AST) Word Index (tuPath AST) NK')" for NK'
    by (rule populated_locateSymbolTextually [OF r])
  show ?thesis
    using f a t
    by (auto simp: locate_fallback_def Let_def populated_locateMacroReferent
        split: option.splits prod.splits if_splits)
qed

lemma populated_locateSymbolAt:
  fixes score :: "Symbol \<Rightarrow> 's::linorder"
  assumes r: "rejects_null lib (tuPath AST)"
  shows "list_all (populated lib AST) (locateSymbolAt lib score AST Pos Index)"
proof -
  have a: "locateASTReferent lib L T AST (tuPath AST) Index NK = (Res, NK')
      \<Longrightarrow> list_all (populated lib AST) Res" for L T Res NK NK'
    using populated_locateASTReferent [OF r, of L T Index NK] by simp
  show ?thesis
    unfolding locateSymbolAt_def locateSymbolAt_run_def Let_def
    using a populated_locate_fallback [OF r, where score = score and Index = Index]
    by (auto simp: populated_locateFileReferent dest: populated_touched_loop
        split: option.splits prod.splits sum.splits if_splits)
qed

lemma ex_lib_rejects_null: "rejects_null ex_lib P"
  by (simp add: rejects_null_def ex_lib_def ex_toLSP_def symloc_valid_def)

subsection \<open>Supertypes terminate\<close>

lemma id_emplace [simp]: "rp_symbolID (thi_data (item_emplace_parents Item)) = rp_symbolID (thi_data Item)"
  by (simp add: item_emplace_parents_def)

lemma parents_emplace [simp]: "thi_parents (item_emplace_parents Item) = Some []"
  by (simp add: item_emplace_parents_def)

lemma id_add_parent [simp]:
  "rp_symbolID (thi_data (item_add_parent Item P)) = rp_symbolID (thi_data Item)"
  by (simp add: item_add_parent_def)

lemma parents_add_parent [simp]:
  "thi_parents (item_add_parent Item P)
     = Some ((case thi_parents Item of None \<Rightarrow> [] | Some ps \<Rightarrow> ps) @ [P])"
  by (simp add: item_add_parent_def)

lemma id_chains_sel:
  "id_chains It =
     (case thi_parents It of
        None \<Rightarrow> [[rp_symbolID (thi_data It)]]
      | Some ps \<Rightarrow>
          if ps = [] then [[rp_symbolID (thi_data It)]]
          else map ((#) (rp_symbolID (thi_data It))) (concat (map id_chains ps)))"
  by (cases It) (simp split: option.splits)

lemma fill_parents_all:
  assumes "\<forall>Q \<in> set Ps. \<forall>It. declToTypeHierarchyItem h Q = Some It \<longrightarrow>
             (\<exists>It'. rec_call Q It RP = Some (It', RP) \<and> good It')"
    and "thi_parents Item = Some olds"
  shows "\<exists>Item' news. fill_parents rec_call h Ps Item RP = Some (Item', RP)
           \<and> thi_parents Item' = Some (olds @ news) \<and> list_all good news
           \<and> rp_symbolID (thi_data Item') = rp_symbolID (thi_data Item)"
  using assms
proof (induction Ps arbitrary: Item olds)
  case Nil
  then show ?case by simp
next
  case (Cons Q Ps)
  have rest: "\<forall>Q \<in> set Ps. \<forall>It. declToTypeHierarchyItem h Q = Some It \<longrightarrow>
             (\<exists>It'. rec_call Q It RP = Some (It', RP) \<and> good It')"
    using Cons.prems(1) by simp
  show ?case
  proof (cases "declToTypeHierarchyItem h Q")
    case None
    then show ?thesis using Cons.IH [OF rest Cons.prems(2)] by simp
  next
    case (Some It)
    then obtain It' where r: "rec_call Q It RP = Some (It', RP)" and g: "good It'"
      using Cons.prems(1) by auto
    have p: "thi_parents (item_add_parent Item It') = Some (olds @ [It'])"
      using Cons.prems(2) by simp
    from Cons.IH [OF rest p]
    obtain Item' news where
      "fill_parents rec_call h Ps (item_add_parent Item It') RP = Some (Item', RP)"
      "thi_parents Item' = Some ((olds @ [It']) @ news)" "list_all good news"
      "rp_symbolID (thi_data Item') = rp_symbolID (thi_data (item_add_parent Item It'))"
      by blast
    then show ?thesis
      using Some r g by (intro exI [of _ Item'] exI [of _ "It' # news"]) simp
  qed
qed

lemma card_patterns_insert:
  assumes "finite {P. rd_getDescribedTemplate h P}" and "rd_getDescribedTemplate h D" and "D \<notin> RP"
  shows "card ({P. rd_getDescribedTemplate h P} - insert D RP)
         < card ({P. rd_getDescribedTemplate h P} - RP)"
proof -
  have "{P. rd_getDescribedTemplate h P} - insert D RP
        \<subset> {P. rd_getDescribedTemplate h P} - RP"
    using assms(2,3) by auto
  moreover have "finite ({P. rd_getDescribedTemplate h P} - RP)"
    using assms(1) by simp
  ultimately show ?thesis by (rule psubset_card_mono [rotated])
qed

lemma fuel_bound_parent:
  assumes hr: "hierarchy_ranked h rank R"
    and Q: "Q \<in> set (typeParents h D)"
    and guard: "\<not> (rd_getDescribedTemplate h D \<and> D \<in> RP)"
  shows "fuel_bound h rank R Q (if rd_getDescribedTemplate h D then insert D RP else RP)
         < fuel_bound h rank R D RP"
proof (cases "rd_getDescribedTemplate h D")
  case True
  then have "D \<notin> RP" using guard by simp
  with hr True have c: "card ({P. rd_getDescribedTemplate h P} - insert D RP)
         < card ({P. rd_getDescribedTemplate h P} - RP)"
    by (intro card_patterns_insert) (auto simp: hierarchy_ranked_def)
  have rQ: "rank Q \<le> R" using hr by (simp add: hierarchy_ranked_def)
  let ?a = "card ({P. rd_getDescribedTemplate h P} - insert D RP)"
  let ?b = "card ({P. rd_getDescribedTemplate h P} - RP)"
  have "Suc ?a \<le> ?b" using c by simp
  then have "Suc ?a * (R + 1) \<le> ?b * (R + 1)" by (rule mult_le_mono1)
  then have "?a * (R + 1) + rank Q + 1 \<le> ?b * (R + 1)" using rQ by simp
  then show ?thesis using True by (simp add: fuel_bound_def)
next
  case False
  then have "rank Q < rank D" using hr Q by (auto simp: hierarchy_ranked_def)
  then show ?thesis using False by (simp add: fuel_bound_def)
qed

lemma chain_ok_leaf: "chain_ok h RP [D]"
  by (simp add: chain_ok_def)

lemma chain_ok_cons:
  assumes "chain_ok h (if rd_getDescribedTemplate h D then insert D RP else RP) c"
    and "\<not> (rd_getDescribedTemplate h D \<and> D \<in> RP)"
  shows "chain_ok h RP (D # c)"
proof -
  from assms(1) have ne: "c \<noteq> []" by (simp add: chain_ok_def)
  then have b: "butlast (D # c) = D # butlast c" by simp
  show ?thesis
    using assms ne unfolding chain_ok_def b
    by (auto split: if_splits)
qed

lemma fillSuperTypes_total:
  assumes hr: "hierarchy_ranked h rank R"
  shows "fuel_bound h rank R D RP \<le> n \<Longrightarrow>
         \<exists>Item'. fillSuperTypes n h D Item RP = Some (Item', RP)
           \<and> rp_symbolID (thi_data Item') = rp_symbolID (thi_data Item)
           \<and> item_ok h RP D Item'"
proof (induction n arbitrary: D RP Item)
  case 0
  then show ?case by (simp add: fuel_bound_def)
next
  case (Suc n)
  let ?Item = "item_emplace_parents Item"
  show ?case
  proof (cases "rd_getDescribedTemplate h D \<and> D \<in> RP")
    case True
    have "id_chains ?Item = [[rp_symbolID (thi_data Item)]]"
      by (simp add: id_chains_sel)
    then have "item_ok h RP D ?Item"
      by (simp add: item_ok_def chain_ok_leaf)
    then show ?thesis using True by (simp add: Let_def)
  next
    case False
    define RP1 where "RP1 = (if rd_getDescribedTemplate h D then insert D RP else RP)"
    have calls: "\<forall>Q \<in> set (typeParents h D). \<forall>It. declToTypeHierarchyItem h Q = Some It \<longrightarrow>
        (\<exists>It'. fillSuperTypes n h Q It RP1 = Some (It', RP1)
           \<and> (items_identify h \<longrightarrow> (\<forall>c \<in> set (id_chains It'). chain_ok h RP1 c)))"
    proof (intro ballI allI impI)
      fix Q It assume Q: "Q \<in> set (typeParents h D)" and It: "declToTypeHierarchyItem h Q = Some It"
      have "fuel_bound h rank R Q RP1 < fuel_bound h rank R D RP"
        unfolding RP1_def by (rule fuel_bound_parent [OF hr Q False])
      then have le: "fuel_bound h rank R Q RP1 \<le> n" using Suc.prems(1) by simp
      from Suc.IH [OF le, of It]
      obtain It' where r: "fillSuperTypes n h Q It RP1 = Some (It', RP1)"
        and i: "rp_symbolID (thi_data It') = rp_symbolID (thi_data It)"
        and ok: "item_ok h RP1 Q It'" by blast
      have "items_identify h \<longrightarrow> (\<forall>c \<in> set (id_chains It'). chain_ok h RP1 c)"
      proof
        assume ii: "items_identify h"
        then have "rp_symbolID (thi_data It) = Q" using It by (simp add: items_identify_def)
        with ii i ok show "\<forall>c \<in> set (id_chains It'). chain_ok h RP1 c"
          by (simp add: item_ok_def)
      qed
      with r show "\<exists>It'. fillSuperTypes n h Q It RP1 = Some (It', RP1)
           \<and> (items_identify h \<longrightarrow> (\<forall>c \<in> set (id_chains It'). chain_ok h RP1 c))"
        by blast
    qed
    from fill_parents_all [where good = "\<lambda>It'. items_identify h
            \<longrightarrow> (\<forall>c \<in> set (id_chains It'). chain_ok h RP1 c)"
        and rec_call = "fillSuperTypes n h" and h = h and Ps = "typeParents h D" and RP = RP1
        and Item = "item_emplace_parents Item" and olds = "[]", OF calls parents_emplace]
    obtain Item' news where
      fp: "fill_parents (fillSuperTypes n h) h (typeParents h D) ?Item RP1 = Some (Item', RP1)"
      and ps: "thi_parents Item' = Some ([] @ news)"
      and good: "list_all (\<lambda>It'. items_identify h
            \<longrightarrow> (\<forall>c \<in> set (id_chains It'). chain_ok h RP1 c)) news"
      and idI: "rp_symbolID (thi_data Item') = rp_symbolID (thi_data ?Item)"
      by blast
    have idD: "rp_symbolID (thi_data Item') = rp_symbolID (thi_data Item)" using idI by simp
    have chains: "item_ok h RP D Item'"
      unfolding item_ok_def
    proof (intro impI, elim conjE)
      assume ii: "items_identify h" and isD: "rp_symbolID (thi_data Item') = D"
      show "\<forall>c \<in> set (id_chains Item'). chain_ok h RP c"
      proof (cases "news = []")
        case True
        then have "id_chains Item' = [[D]]" using ps isD by (simp add: id_chains_sel)
        then show ?thesis by (simp add: chain_ok_leaf)
      next
        case ne: False
        then have ic: "id_chains Item' = map ((#) D) (concat (map id_chains news))"
          using ps isD by (simp add: id_chains_sel)
        show ?thesis
        proof
          fix c assume "c \<in> set (id_chains Item')"
          then obtain c' It' where c: "c = D # c'" and It': "It' \<in> set news"
            and c': "c' \<in> set (id_chains It')"
            unfolding ic by auto
          from good It' c' ii have "chain_ok h RP1 c'" by (auto simp: list_all_iff)
          then show "chain_ok h RP c" unfolding c RP1_def by (rule chain_ok_cons) (rule False)
        qed
      qed
    qed
    have restore: "(if rd_getDescribedTemplate h D then RP1 - {D} else RP1) = RP"
      using False by (auto simp: RP1_def)
    have fp': "fill_parents (fillSuperTypes n h) h (typeParents h D) (item_emplace_parents Item)
        (if rd_getDescribedTemplate h D then insert D RP else RP) = Some (Item', RP1)"
      using fp by (simp add: RP1_def)
    have "fillSuperTypes (Suc n) h D Item RP
          = Some (Item', if rd_getDescribedTemplate h D then RP1 - {D} else RP1)"
      using False by (auto simp: Let_def fp')
    then have "fillSuperTypes (Suc n) h D Item RP = Some (Item', RP)"
      unfolding restore .
    then show ?thesis using idD chains by simp
  qed
qed

text \<open>
  Claim C8, as the code has it. On a hierarchy where every record that is not a
  template pattern has its parents below it, \<^verbatim>\<open>fillSuperTypes\<close> returns, with the
  protection set as it found it, as soon as the fuel covers the number of patterns
  times the height of the ranking. A pattern that is already in the protection set
  is given an empty list of parents and is not expanded. On every chain of the
  result each pattern occurs at most once before the last item: the last item of a
  chain may repeat a pattern of the chain.
\<close>

theorem fillSuperTypes_terminates:
  assumes "hierarchy_ranked h rank R"
    and "card {P. rd_getDescribedTemplate h P} * (R + 1) + rank CXXRD + 1 \<le> fuel"
  shows "(\<exists>Item'. fillSuperTypes fuel h CXXRD Item {} = Some (Item', {})
            \<and> (items_identify h \<and> rp_symbolID (thi_data Item) = CXXRD \<longrightarrow>
                 (\<forall>c \<in> set (id_chains Item').
                    distinct (filter (rd_getDescribedTemplate h) (butlast c)))))
         \<and> (\<forall>D RPSet It n. rd_getDescribedTemplate h D \<and> D \<in> RPSet \<longrightarrow>
               fillSuperTypes (Suc n) h D It RPSet = Some (item_emplace_parents It, RPSet))"
proof -
  have "fuel_bound h rank R CXXRD {} \<le> fuel"
    using assms(2) by (simp add: fuel_bound_def)
  from fillSuperTypes_total [OF assms(1) this, of Item]
  obtain Item' where r: "fillSuperTypes fuel h CXXRD Item {} = Some (Item', {})"
    and i: "rp_symbolID (thi_data Item') = rp_symbolID (thi_data Item)"
    and ok: "item_ok h {} CXXRD Item'" by blast
  have "items_identify h \<and> rp_symbolID (thi_data Item) = CXXRD \<longrightarrow>
        (\<forall>c \<in> set (id_chains Item'). distinct (filter (rd_getDescribedTemplate h) (butlast c)))"
    using ok i by (auto simp: item_ok_def chain_ok_def)
  with r show ?thesis by (auto simp: Let_def)
qed

lemma ex_selfref_parents: "typeParents ex_selfref 1 = [1]"
  by (simp add: typeParents_def ex_selfref_def base_ParentDecl_def List.map_filter_def)

lemma ex_selfref_ranked: "hierarchy_ranked ex_selfref (\<lambda>D. 0) 0"
  by (auto simp: hierarchy_ranked_def typeParents_def ex_selfref_def)

text \<open>
  The repeated pattern is added once more before the recursion stops: the pattern
  \<^verbatim>\<open>A\<close> has itself as its parent, and the invalid instantiation has the chain of
  parents \<^verbatim>\<open>A\<close>, \<^verbatim>\<open>A\<close>.
\<close>

theorem fillSuperTypes_repeats_pattern_once:
  "fillSuperTypes 2 ex_selfref 1 ex_A_item {}
     = Some (TypeHierarchyItem ''A'' (ResolveParams 1 (Some [ResolveParams 1 (Some [])]))
               (Some [TypeHierarchyItem ''A'' (ResolveParams 1 (Some [])) (Some [])]), {})
   \<and> parent_chains (fst (the (fillSuperTypes 2 ex_selfref 1 ex_A_item {}))) = [[''A'', ''A'']]
   \<and> parent_chains (fst (the (fillSuperTypes 3 ex_selfref_inst 2 ex_inst_item {})))
       = [[''A<int>'', ''A'', ''A'']]
   \<and> id_chains (fst (the (fillSuperTypes 3 ex_selfref_inst 2 ex_inst_item {}))) = [[2, 1, 1]]"
proof -
  have two: "(2::nat) = Suc (Suc 0)" and three: "(3::nat) = Suc (Suc (Suc 0))" by simp_all
  have d: "declToTypeHierarchyItem ex_selfref (Suc 0) = Some ex_A_item"
    "rd_getDescribedTemplate ex_selfref (Suc 0)"
    "typeParents ex_selfref (Suc 0) = [Suc 0]"
    using ex_selfref_parents by (simp_all add: ex_selfref_def ex_A_item_def)
  have e: "declToTypeHierarchyItem ex_selfref_inst (Suc 0) = Some ex_A_item"
    "rd_getDescribedTemplate ex_selfref_inst (Suc 0)"
    "\<not> rd_getDescribedTemplate ex_selfref_inst 2"
    "typeParents ex_selfref_inst (Suc 0) = [Suc 0]"
    "typeParents ex_selfref_inst 2 = [Suc 0]"
    by (simp_all add: ex_selfref_inst_def ex_selfref_def ex_A_item_def typeParents_def
        base_ParentDecl_def List.map_filter_def)
  have a: "fillSuperTypes 2 ex_selfref 1 ex_A_item {}
     = Some (TypeHierarchyItem ''A'' (ResolveParams 1 (Some [ResolveParams 1 (Some [])]))
               (Some [TypeHierarchyItem ''A'' (ResolveParams 1 (Some [])) (Some [])]), {})"
    unfolding two
    by (simp add: Let_def d)
      (simp add: ex_A_item_def item_emplace_parents_def item_add_parent_def)
  have b: "fillSuperTypes 3 ex_selfref_inst 2 ex_inst_item {}
     = Some (TypeHierarchyItem ''A<int>''
               (ResolveParams 2 (Some [ResolveParams 1 (Some [ResolveParams 1 (Some [])])]))
               (Some [TypeHierarchyItem ''A'' (ResolveParams 1 (Some [ResolveParams 1 (Some [])]))
                        (Some [TypeHierarchyItem ''A'' (ResolveParams 1 (Some [])) (Some [])])]),
             {})"
    unfolding three
    by (simp add: Let_def e)
      (simp add: ex_A_item_def ex_inst_item_def item_emplace_parents_def item_add_parent_def)
  from a b show ?thesis by simp
qed

theorem fillSuperTypes_terminates_witness:
  "hierarchy_ranked ex_selfref (\<lambda>D. 0) 0
   \<and> items_identify ex_selfref
   \<and> rd_getDescribedTemplate ex_selfref 1
   \<and> (\<exists>Item'. fillSuperTypes 2 ex_selfref 1 ex_A_item {} = Some (Item', {})
         \<and> (\<forall>c \<in> set (id_chains Item').
               distinct (filter (rd_getDescribedTemplate ex_selfref) (butlast c))))
   \<and> fillSuperTypes (Suc 0) ex_selfref 1 ex_A_item {1}
       = Some (item_emplace_parents ex_A_item, {1})"
proof -
  have c: "card {P. rd_getDescribedTemplate ex_selfref P} * (0 + 1) + (\<lambda>D. 0) (1::nat) + 1 \<le> (2::nat)"
    by (simp add: ex_selfref_def)
  have i: "items_identify ex_selfref"
    by (auto simp: items_identify_def ex_selfref_def)
  have a: "rp_symbolID (thi_data ex_A_item) = 1"
    by (simp add: ex_A_item_def)
  have p: "rd_getDescribedTemplate ex_selfref 1"
    by (simp add: ex_selfref_def)
  have "(1::nat) \<in> {1}" by simp
  with fillSuperTypes_terminates [OF ex_selfref_ranked c, of 1 ex_A_item] ex_selfref_ranked i a p
  show ?thesis by blast
qed

subsection \<open>The nearby identifier is the first of lowest cost\<close>

lemma first_lowest_None: "(first_lowest cost xs = None) = (xs = [])"
  by (induction xs) (auto split: option.splits)

lemma first_lowest_min:
  "first_lowest cost xs = Some x \<Longrightarrow> x \<in> set xs \<and> (\<forall>y \<in> set xs. cost x \<le> cost y)"
proof (induction xs arbitrary: x)
  case Nil
  then show ?case by simp
next
  case (Cons a xs)
  show ?case
  proof (cases "first_lowest cost xs")
    case None
    then have "xs = []" by (simp add: first_lowest_None)
    with Cons.prems None show ?thesis by simp
  next
    case (Some y)
    from Cons.IH [OF Some] have y: "y \<in> set xs" "\<forall>z \<in> set xs. cost y \<le> cost z" by auto
    show ?thesis
    proof (cases "cost y < cost a")
      case True
      then have "x = y" using Cons.prems Some by simp
      with y True show ?thesis by auto
    next
      case False
      then have "x = a" using Cons.prems Some by simp
      with y False show ?thesis by fastforce
    qed
  qed
qed

lemma first_lowest_first:
  "first_lowest cost xs = Some x \<Longrightarrow>
   \<exists>pre post. xs = pre @ x # post \<and> (\<forall>y \<in> set pre. cost x < cost y)"
proof (induction xs arbitrary: x)
  case Nil
  then show ?case by simp
next
  case (Cons a xs)
  show ?case
  proof (cases "first_lowest cost xs")
    case None
    then have "x = a" using Cons.prems by simp
    then show ?thesis by (intro exI [of _ "[]"] exI [of _ xs]) simp
  next
    case (Some y)
    show ?thesis
    proof (cases "cost y < cost a")
      case True
      then have xy: "x = y" using Cons.prems Some by simp
      from Cons.IH [OF Some] obtain pre post
        where p: "xs = pre @ y # post" "\<forall>z \<in> set pre. cost y < cost z" by blast
      show ?thesis
        using p True xy by (intro exI [of _ "a # pre"] exI [of _ post]) simp
    next
      case False
      then have "x = a" using Cons.prems Some by simp
      then show ?thesis by (intro exI [of _ "[]"] exI [of _ xs]) simp
    qed
  qed
qed

lemma first_lowest_sorted:
  "sorted_wrt (\<lambda>a b. cost a \<le> cost b) xs \<Longrightarrow>
   first_lowest cost xs = (case xs of [] \<Rightarrow> None | x # _ \<Rightarrow> Some x)"
proof (induction xs)
  case Nil
  then show ?case by simp
next
  case (Cons a xs)
  then have IH: "first_lowest cost xs = (case xs of [] \<Rightarrow> None | x # _ \<Rightarrow> Some x)" by simp
  show ?case
  proof (cases xs)
    case Nil
    then show ?thesis by simp
  next
    case (Cons b ys)
    then have "cost a \<le> cost b" using Cons.prems by simp
    then show ?thesis using IH Cons by simp
  qed
qed

lemma first_lowest_append:
  "first_lowest cost (xs @ ys) =
     (case first_lowest cost xs of
        None \<Rightarrow> first_lowest cost ys
      | Some a \<Rightarrow>
          (case first_lowest cost ys of
             None \<Rightarrow> Some a
           | Some b \<Rightarrow> if cost b < cost a then Some b else Some a))"
proof (induction xs)
  case Nil
  then show ?case by (simp split: option.splits)
next
  case (Cons x xs)
  then show ?case
    by (cases "first_lowest cost xs"; cases "first_lowest cost ys") auto
qed

lemma filter_hd_cost:
  assumes "\<forall>x \<in> set xs. c \<le> cost x" and "filter P xs = y # ys"
  shows "c \<le> cost y"
proof -
  have "y \<in> set (filter P xs)" using assms(2) by simp
  then have "y \<in> set xs" by simp
  with assms(1) show ?thesis by blast
qed

lemma Consider_loop_first_candidate:
  fixes visit :: "Token option \<times> nat \<Rightarrow> Token \<Rightarrow> bool \<times> (Token option \<times> nat)"
  assumes step: "\<And>st T. visit st T =
        (if \<not> inwin T then (True, st)
         else if \<not> pre T then (False, st)
         else if cost T \<ge> snd st then (True, st)
         else if \<not> acc T then (False, st)
         else (False, (Some T, cost T)))"
  shows "sorted_wrt (\<lambda>a b. cost a \<le> cost b) toks \<Longrightarrow>
         sorted_wrt (\<lambda>a b. \<not> inwin a \<longrightarrow> \<not> inwin b) toks \<Longrightarrow>
         Consider_loop visit toks st =
           (case filter (\<lambda>T. inwin T \<and> pre T \<and> acc T) toks of
              [] \<Rightarrow> st
            | x # _ \<Rightarrow> if cost x < snd st then (Some x, cost x) else st)"
proof (induction toks arbitrary: st)
  case Nil
  then show ?case by simp
next
  case (Cons T rest)
  let ?cand = "\<lambda>T. inwin T \<and> pre T \<and> acc T"
  have s1: "sorted_wrt (\<lambda>a b. cost a \<le> cost b) rest"
    and s2: "sorted_wrt (\<lambda>a b. \<not> inwin a \<longrightarrow> \<not> inwin b) rest"
    and ge: "\<forall>x \<in> set rest. cost T \<le> cost x"
    and cl: "\<not> inwin T \<longrightarrow> (\<forall>x \<in> set rest. \<not> inwin x)"
    using Cons.prems by auto
  note IH = Cons.IH [OF s1 s2]
  consider (out) "\<not> inwin T"
    | (nomatch) "inwin T" "\<not> pre T"
    | (costly) "inwin T" "pre T" "cost T \<ge> snd st"
    | (dead) "inwin T" "pre T" "cost T < snd st" "\<not> acc T"
    | (take) "inwin T" "pre T" "cost T < snd st" "acc T"
    by force
  then show ?case
  proof cases
    case out
    then have "filter ?cand (T # rest) = []"
      using cl by (auto simp: filter_empty_conv)
    moreover have "Consider_loop visit (T # rest) st = st"
      using out by (simp add: step)
    ultimately show ?thesis by simp
  next
    case nomatch
    then have "Consider_loop visit (T # rest) st = Consider_loop visit rest st"
      by (simp add: step)
    moreover have "filter ?cand (T # rest) = filter ?cand rest"
      using nomatch by simp
    ultimately show ?thesis using IH [of st] by simp
  next
    case costly
    then have l: "Consider_loop visit (T # rest) st = st"
      by (simp add: step)
    have all: "\<forall>x \<in> set (T # rest). snd st \<le> cost x"
      using costly(3) ge by auto
    show ?thesis
    proof (cases "filter ?cand (T # rest)")
      case Nil
      then show ?thesis using l by simp
    next
      case (Cons y ys)
      from filter_hd_cost [OF all Cons] have "snd st \<le> cost y" .
      then show ?thesis using l Cons by simp
    qed
  next
    case dead
    then have "Consider_loop visit (T # rest) st = Consider_loop visit rest st"
      by (simp add: step)
    moreover have "filter ?cand (T # rest) = filter ?cand rest"
      using dead by simp
    ultimately show ?thesis using IH [of st] by simp
  next
    case take
    then have l: "Consider_loop visit (T # rest) st
        = Consider_loop visit rest (Some T, cost T)"
      by (simp add: step)
    have r: "Consider_loop visit rest (Some T, cost T) = (Some T, cost T)"
    proof (cases "filter ?cand rest")
      case Nil
      then show ?thesis using IH [of "(Some T, cost T)"] by simp
    next
      case (Cons y ys)
      from filter_hd_cost [OF ge Cons] have "cost T \<le> cost y" .
      then show ?thesis using IH [of "(Some T, cost T)"] Cons by simp
    qed
    have "filter ?cand (T # rest) = T # filter ?cand rest"
      using take by simp
    then show ?thesis using l r take(3) by simp
  qed
qed

lemma Consider_step:
  "Consider SM TB Word LocMin LocMax WordLine st T =
        (if \<not> (LocMin \<le> tok_location T \<and> tok_location T \<le> LocMax) then (True, st)
         else if \<not> (tok_kind T = tk_identifier \<and> tok_text T = w_Text Word
                     \<and> tok_location T \<noteq> w_Location Word) then (False, st)
         else if nearby_Cost SM WordLine (tok_location T) \<ge> snd st then (True, st)
         else if \<not> (tokenSpelledAt (tok_location T) TB \<or> expansionStartingAt TB T)
              then (False, st)
         else (False, (Some T, nearby_Cost SM WordLine (tok_location T))))"
  by (auto simp: Consider_def Let_def)

lemma nearby_MaxDistance_bounds:
  assumes "w_Text Word \<noteq> []" and "length (w_Text Word) < 2 ^ 32"
  shows "nearby_MaxDistance Word = 2 ^ min (length (w_Text Word)) 31"
    and "2 \<le> nearby_MaxDistance Word" and "nearby_MaxDistance Word \<le> 2 ^ 31"
proof -
  show eq: "nearby_MaxDistance Word = 2 ^ min (length (w_Text Word)) 31"
    using assms(2) by (simp add: nearby_MaxDistance_def u32_def)
  have "1 \<le> min (length (w_Text Word)) 31" using assms(1) by (cases "w_Text Word") auto
  then have "(2::nat) ^ 1 \<le> 2 ^ min (length (w_Text Word)) 31"
    by (intro power_increasing) auto
  then show "2 \<le> nearby_MaxDistance Word" using eq by simp
  have "(2::nat) ^ min (length (w_Text Word)) 31 \<le> 2 ^ 31"
    by (intro power_increasing) auto
  then show "nearby_MaxDistance Word \<le> 2 ^ 31" using eq by simp
qed

lemma nearby_Line_bounds:
  assumes "1 \<le> WL" and "WL < 2 ^ 31 - 1" and "2 \<le> MD" and "MD \<le> 2 ^ 31"
  shows "nearby_LineMin WL MD = (if WL + 1 \<le> MD div 2 then 1 else WL + 1 - MD div 2)"
    and "nearby_LineMax WL MD = WL + 1 + MD"
    and "1 \<le> nearby_LineMin WL MD" and "nearby_LineMin WL MD \<le> WL"
proof -
  have a: "u32 (Suc WL) = Suc WL" using assms(2) by (intro u32_small) simp
  have b: "u32 (Suc (WL + MD)) = Suc (WL + MD)" using assms(2,4) by (intro u32_small) simp
  show m: "nearby_LineMin WL MD = (if WL + 1 \<le> MD div 2 then 1 else WL + 1 - MD div 2)"
    by (simp add: nearby_LineMin_def a)
  show "nearby_LineMax WL MD = WL + 1 + MD"
    by (simp add: nearby_LineMax_def a b)
  show "1 \<le> nearby_LineMin WL MD" unfolding m by auto
  have "1 \<le> MD div 2" using assms(3) by simp
  then show "nearby_LineMin WL MD \<le> WL" unfolding m using assms(1) by auto
qed

lemma dropWhile_sorted_ge:
  fixes f :: "'a \<Rightarrow> nat"
  shows "sorted_wrt (\<lambda>a b. f a < f b) xs \<Longrightarrow> \<forall>x \<in> set (dropWhile (\<lambda>T. f T < c) xs). c \<le> f x"
proof (induction xs)
  case Nil
  then show ?case by simp
next
  case (Cons a xs)
  show ?case
  proof (cases "f a < c")
    case True
    then show ?thesis using Cons by simp
  next
    case False
    then have "\<forall>x \<in> set (a # xs). c \<le> f x" using Cons.prems by fastforce
    then show ?thesis using False by simp
  qed
qed

lemma sorted_wrt_dropWhile: "sorted_wrt R xs \<Longrightarrow> sorted_wrt R (dropWhile P xs)"
  by (induction xs) (auto dest: set_dropWhileD)

lemma sorted_wrt_takeWhile: "sorted_wrt R xs \<Longrightarrow> sorted_wrt R (takeWhile P xs)"
  by (induction xs) (auto dest: set_takeWhileD)

lemma findNearbyIdentifier_spec:
  assumes setting: "nearby_setting SM TB Word"
  shows "findNearbyIdentifier Word TB SM =
         first_lowest (token_cost SM Word)
           (filter (nearby_candidate SM TB Word) (nearby_traversal TB Word))"
proof -
  define toks where "toks = spelledTokens TB"
  define WL where "WL = getSpellingLineNumber SM (w_Location Word)"
  define MD where "MD = nearby_MaxDistance Word"
  define LocMin where "LocMin = translateLineCol SM (nearby_LineMin WL MD)"
  define LocMax where "LocMax = translateLineCol SM (nearby_LineMax WL MD)"
  define line where "line = (\<lambda>T::Token. getSpellingLineNumber SM (tok_location T))"
  define cost where "cost = (\<lambda>T::Token. nearby_Cost SM WL (tok_location T))"
  define inwin where "inwin = (\<lambda>T::Token. LocMin \<le> tok_location T \<and> tok_location T \<le> LocMax)"
  define pre where "pre = (\<lambda>T::Token. tok_kind T = tk_identifier \<and> tok_text T = w_Text Word
                     \<and> tok_location T \<noteq> w_Location Word)"
  define acc where "acc = (\<lambda>T::Token. tokenSpelledAt (tok_location T) TB \<or> expansionStartingAt TB T)"
  define after where "after = dropWhile (\<lambda>T. tok_location T < w_Location Word) toks"
  define before where "before = takeWhile (\<lambda>T. tok_location T < w_Location Word) toks"
  define visit where "visit = Consider SM TB Word LocMin LocMax WL"
  have s_exp: "w_ExpandedToken Word = None"
    and s_lit: "\<not> (case w_PartOfSpelledToken Word of None \<Rightarrow> False
                      | Some T \<Rightarrow> isStringLiteral (tok_kind T))"
    and s_ne: "w_Text Word \<noteq> []" and s_len: "length (w_Text Word) < 2 ^ 32"
    and s_sorted: "sorted_wrt (\<lambda>a b. tok_location a < tok_location b) toks"
    and s_mono: "\<And>a b. a \<le> b \<Longrightarrow> getSpellingLineNumber SM a \<le> getSpellingLineNumber SM b"
    and s_tra: "\<And>T L. T \<in> set toks \<Longrightarrow> 1 \<le> L \<Longrightarrow>
          tok_location T < translateLineCol SM L \<Longrightarrow> line T < L"
    and s_trb: "\<And>T L. T \<in> set toks \<Longrightarrow> 1 \<le> L \<Longrightarrow>
          line T < L \<Longrightarrow> tok_location T \<le> translateLineCol SM L"
    and s_wl1: "1 \<le> WL" and s_wl2: "WL < 2 ^ 31 - 1"
    and s_tr2: "\<And>L. 1 \<le> L \<Longrightarrow> getSpellingLineNumber SM (translateLineCol SM L) \<le> L"
    and s_lines: "\<And>T. T \<in> set toks \<Longrightarrow> line T < 2 ^ 31"
    using setting unfolding nearby_setting_def toks_def WL_def line_def
    by (auto split: option.splits)
  note md = nearby_MaxDistance_bounds [OF s_ne s_len, folded MD_def]
  note lb = nearby_Line_bounds [OF s_wl1 s_wl2 md(2) md(3)]
  have lmax: "WL < nearby_LineMax WL MD" and lmax1: "1 \<le> nearby_LineMax WL MD"
    unfolding lb(2) by simp_all
  \<comment> \<open>tokens after the word\<close>
  have after_sub: "set after \<subseteq> set toks"
    unfolding after_def by (auto dest: set_dropWhileD)
  have after_ge: "\<forall>T \<in> set after. w_Location Word \<le> tok_location T"
    unfolding after_def by (rule dropWhile_sorted_ge [OF s_sorted])
  have after_line: "\<forall>T \<in> set after. WL \<le> line T"
    using after_ge s_mono unfolding WL_def line_def by blast
  have after_sorted: "sorted_wrt (\<lambda>a b. tok_location a < tok_location b) after"
    unfolding after_def by (rule sorted_wrt_dropWhile [OF s_sorted])
  have after_cost_eq: "\<forall>T \<in> set after. cost T = line T - WL"
    using after_line by (simp add: cost_def nearby_Cost_def line_def)
  have after_cost: "sorted_wrt (\<lambda>a b. cost a \<le> cost b) after"
  proof (rule sorted_wrt_mono_rel [OF _ after_sorted])
    fix a b assume a: "a \<in> set after" and b: "b \<in> set after"
      and lt: "tok_location a < tok_location b"
    then have "line a \<le> line b" using s_mono [of "tok_location a" "tok_location b"]
      by (simp add: line_def)
    then show "cost a \<le> cost b" using after_cost_eq a b by simp
  qed
  have after_low: "\<forall>T \<in> set after. LocMin \<le> tok_location T"
  proof
    fix T assume T: "T \<in> set after"
    then have "T \<in> set toks" using after_sub by blast
    from s_tra [OF this lb(3)]
    have "tok_location T < LocMin \<Longrightarrow> line T < nearby_LineMin WL MD"
      by (simp add: LocMin_def)
    moreover have "nearby_LineMin WL MD \<le> line T" using after_line T lb(4) by fastforce
    ultimately show "LocMin \<le> tok_location T" by fastforce
  qed
  have after_closed: "sorted_wrt (\<lambda>a b. \<not> inwin a \<longrightarrow> \<not> inwin b) after"
  proof (rule sorted_wrt_mono_rel [OF _ after_sorted])
    fix a b assume a: "a \<in> set after" and b: "b \<in> set after"
      and lt: "tok_location a < tok_location b"
    show "\<not> inwin a \<longrightarrow> \<not> inwin b"
      using after_low a lt by (auto simp: inwin_def)
  qed
  \<comment> \<open>tokens before the word, nearest first\<close>
  have before_sub: "set before \<subseteq> set toks"
    unfolding before_def by (auto dest: set_takeWhileD)
  have before_lt: "\<forall>T \<in> set before. tok_location T < w_Location Word"
    unfolding before_def by (auto dest: set_takeWhileD)
  have before_line: "\<forall>T \<in> set before. line T \<le> WL"
  proof
    fix T assume "T \<in> set before"
    then have "tok_location T \<le> w_Location Word" using before_lt by fastforce
    then show "line T \<le> WL" unfolding WL_def line_def by (rule s_mono)
  qed
  have before_sorted: "sorted_wrt (\<lambda>a b. tok_location b < tok_location a) (rev before)"
    unfolding before_def sorted_wrt_rev by (rule sorted_wrt_takeWhile [OF s_sorted])
  have before_cost_eq: "\<forall>T \<in> set before. cost T = 2 * (WL - line T)"
  proof
    fix T assume T: "T \<in> set before"
    then have le: "line T \<le> WL" using before_line by blast
    have "2 * (WL - line T) < 4294967296" using s_wl2 by simp
    then have "u32 (2 * (WL - line T)) = 2 * (WL - line T)" by (rule u32_small)
    then show "cost T = 2 * (WL - line T)"
      using le by (auto simp: cost_def nearby_Cost_def line_def Let_def)
  qed
  have before_cost: "sorted_wrt (\<lambda>a b. cost a \<le> cost b) (rev before)"
  proof (rule sorted_wrt_mono_rel [OF _ before_sorted])
    fix a b assume a: "a \<in> set (rev before)" and b: "b \<in> set (rev before)"
      and lt: "tok_location b < tok_location a"
    then have "line b \<le> line a" using s_mono [of "tok_location b" "tok_location a"]
      by (simp add: line_def)
    then show "cost a \<le> cost b" using before_cost_eq a b by simp
  qed
  have before_high: "\<forall>T \<in> set before. tok_location T \<le> LocMax"
  proof
    fix T assume T: "T \<in> set before"
    then have "T \<in> set toks" using before_sub by blast
    from s_trb [OF this lmax1]
    have "line T < nearby_LineMax WL MD \<Longrightarrow> tok_location T \<le> LocMax"
      by (simp add: LocMax_def)
    moreover have "line T < nearby_LineMax WL MD" using before_line T lmax by fastforce
    ultimately show "tok_location T \<le> LocMax" by simp
  qed
  have before_closed: "sorted_wrt (\<lambda>a b. \<not> inwin a \<longrightarrow> \<not> inwin b) (rev before)"
  proof (rule sorted_wrt_mono_rel [OF _ before_sorted])
    fix a b assume a: "a \<in> set (rev before)" and b: "b \<in> set (rev before)"
      and lt: "tok_location b < tok_location a"
    show "\<not> inwin a \<longrightarrow> \<not> inwin b"
      using before_high a lt by (auto simp: inwin_def)
  qed
  \<comment> \<open>every cost is below the initial best cost\<close>
  have cost_small: "\<forall>T \<in> set toks. cost T < 2 ^ 32 - 1"
  proof
    fix T assume T: "T \<in> set toks"
    show "cost T < 2 ^ 32 - 1"
    proof (cases "WL \<le> line T")
      case True
      then have "cost T = line T - WL" by (simp add: cost_def nearby_Cost_def line_def)
      then show ?thesis using s_lines [OF T] by simp
    next
      case False
      have "2 * (WL - line T) < 4294967295" using s_wl2 by simp
      moreover have "u32 (2 * (WL - line T)) \<le> 2 * (WL - line T)" by (simp add: u32_def)
      ultimately show ?thesis using False by (simp add: cost_def nearby_Cost_def line_def)
    qed
  qed
  \<comment> \<open>the two loops\<close>
  have step: "\<And>st T. visit st T =
        (if \<not> inwin T then (True, st)
         else if \<not> pre T then (False, st)
         else if cost T \<ge> snd st then (True, st)
         else if \<not> acc T then (False, st)
         else (False, (Some T, cost T)))"
    unfolding visit_def inwin_def pre_def acc_def cost_def by (rule Consider_step)
  define cand where "cand = (\<lambda>T::Token. inwin T \<and> pre T \<and> acc T)"
  have loop: "sorted_wrt (\<lambda>a b. cost a \<le> cost b) ts \<Longrightarrow>
      sorted_wrt (\<lambda>a b. \<not> inwin a \<longrightarrow> \<not> inwin b) ts \<Longrightarrow>
      Consider_loop visit ts st =
        (case filter cand ts of [] \<Rightarrow> st
         | x # _ \<Rightarrow> if cost x < snd st then (Some x, cost x) else st)" for ts st
    unfolding cand_def by (rule Consider_loop_first_candidate [OF step])
  define fa where "fa = filter cand after"
  define fb where "fb = filter cand (rev before)"
  have st1: "Consider_loop visit after (None, 2 ^ 32 - 1) =
      (case fa of [] \<Rightarrow> (None, 2 ^ 32 - 1) | x # _ \<Rightarrow> (Some x, cost x))"
  proof (cases fa)
    case Nil
    then show ?thesis using loop [OF after_cost after_closed, of "(None, 2 ^ 32 - 1)"]
      by (simp add: fa_def)
  next
    case (Cons x xs)
    then have "x \<in> set (filter cand after)" by (simp add: fa_def)
    then have "x \<in> set toks" using after_sub by auto
    then have "cost x < 2 ^ 32 - 1" using cost_small by blast
    then show ?thesis using loop [OF after_cost after_closed, of "(None, 2 ^ 32 - 1)"] Cons
      by (simp add: fa_def)
  qed
  have res: "fst (Consider_loop visit (rev before) (Consider_loop visit after (None, 2 ^ 32 - 1)))
      = (case fa of
           [] \<Rightarrow> (case fb of [] \<Rightarrow> None | y # _ \<Rightarrow> Some y)
         | x # _ \<Rightarrow> (case fb of [] \<Rightarrow> Some x
                      | y # _ \<Rightarrow> if cost y < cost x then Some y else Some x))"
  proof (cases fa)
    case Nil
    note fa_nil = Nil
    show ?thesis
    proof (cases fb)
      case Nil
      then show ?thesis
        using fa_nil st1 loop [OF before_cost before_closed, of "(None, 2 ^ 32 - 1)"]
        by (simp add: fb_def)
    next
      case (Cons y ys)
      then have "y \<in> set (filter cand (rev before))" by (simp add: fb_def)
      then have "y \<in> set toks" using before_sub by auto
      then have "cost y < 2 ^ 32 - 1" using cost_small by blast
      then show ?thesis
        using fa_nil Cons st1 loop [OF before_cost before_closed, of "(None, 2 ^ 32 - 1)"]
        by (simp add: fb_def)
    qed
  next
    case (Cons x xs)
    then show ?thesis
      using st1 loop [OF before_cost before_closed, of "(Some x, cost x)"]
      by (cases fb) (simp_all add: fb_def)
  qed
  \<comment> \<open>the specification\<close>
  have fa_sorted: "sorted_wrt (\<lambda>a b. cost a \<le> cost b) fa"
    unfolding fa_def by (rule sorted_wrt_filter [OF after_cost])
  have fb_sorted: "sorted_wrt (\<lambda>a b. cost a \<le> cost b) fb"
    unfolding fb_def by (rule sorted_wrt_filter [OF before_cost])
  have spec: "first_lowest cost (fa @ fb)
      = (case fa of
           [] \<Rightarrow> (case fb of [] \<Rightarrow> None | y # _ \<Rightarrow> Some y)
         | x # _ \<Rightarrow> (case fb of [] \<Rightarrow> Some x
                      | y # _ \<Rightarrow> if cost y < cost x then Some y else Some x))"
    unfolding first_lowest_append first_lowest_sorted [OF fa_sorted] first_lowest_sorted [OF fb_sorted]
    by (simp split: list.splits)
  have cand_eq: "cand = nearby_candidate SM TB Word"
    unfolding cand_def inwin_def pre_def acc_def nearby_candidate_def nearby_in_window_def
      LocMin_def LocMax_def WL_def MD_def Let_def
    by (intro ext) auto
  have cost_eq: "cost = token_cost SM Word"
    unfolding cost_def token_cost_def WL_def by simp
  have trav: "filter cand (nearby_traversal TB Word) = fa @ fb"
    unfolding nearby_traversal_def fa_def fb_def after_def before_def toks_def by simp
  have "findNearbyIdentifier Word TB SM
      = fst (Consider_loop visit (rev before) (Consider_loop visit after (None, 2 ^ 32 - 1)))"
    using s_exp s_lit
    unfolding findNearbyIdentifier_def visit_def after_def before_def toks_def LocMin_def
      LocMax_def WL_def MD_def
    by (simp add: Let_def)
  also have "\<dots> = first_lowest cost (fa @ fb)" unfolding res spec ..
  finally show ?thesis unfolding cand_eq [symmetric] cost_eq [symmetric] trav .
qed

lemma nearby_window_lines:
  assumes setting: "nearby_setting SM TB Word" and T: "T \<in> set (spelledTokens TB)"
  defines "WL \<equiv> getSpellingLineNumber SM (w_Location Word)"
    and "Ln \<equiv> getSpellingLineNumber SM (tok_location T)"
    and "N \<equiv> min (length (w_Text Word)) 31"
  shows "nearby_in_window SM Word T \<Longrightarrow> WL + 1 \<le> Ln + 2 ^ (N - 1) \<and> Ln \<le> WL + 1 + 2 ^ N"
    and "WL + 1 \<le> Ln + 2 ^ (N - 1) \<Longrightarrow> Ln \<le> WL + 2 ^ N \<Longrightarrow> nearby_in_window SM Word T"
proof -
  define MD where "MD = nearby_MaxDistance Word"
  have s_ne: "w_Text Word \<noteq> []" and s_len: "length (w_Text Word) < 2 ^ 32"
    and s_mono: "\<And>a b. a \<le> b \<Longrightarrow> getSpellingLineNumber SM a \<le> getSpellingLineNumber SM b"
    and s_tra: "\<And>L. 1 \<le> L \<Longrightarrow> tok_location T < translateLineCol SM L \<Longrightarrow> Ln < L"
    and s_trb: "\<And>L. 1 \<le> L \<Longrightarrow> Ln < L \<Longrightarrow> tok_location T \<le> translateLineCol SM L"
    and s_trc: "\<And>L. 1 \<le> L \<Longrightarrow> L \<le> WL \<Longrightarrow> Ln < L
                  \<Longrightarrow> tok_location T < translateLineCol SM L"
    and s_tr2: "\<And>L. 1 \<le> L \<Longrightarrow> getSpellingLineNumber SM (translateLineCol SM L) \<le> L"
    and s_one: "1 \<le> Ln" "1 \<le> WL" and s_wl2: "WL < 2 ^ 31 - 1"
    using setting T unfolding nearby_setting_def WL_def Ln_def by auto
  note md = nearby_MaxDistance_bounds [OF s_ne s_len, folded MD_def N_def]
  note lb = nearby_Line_bounds [OF s_one(2) s_wl2 md(2) md(3)]
  have N1: "1 \<le> N" using s_ne unfolding N_def by (cases "w_Text Word") auto
  then have "(2::nat) ^ N = 2 * 2 ^ (N - 1)" by (cases N) auto
  then have half: "MD div 2 = 2 ^ (N - 1)" using md(1) by simp
  have lmax1: "1 \<le> nearby_LineMax WL MD" unfolding lb(2) by simp
  have win: "nearby_in_window SM Word T =
      (translateLineCol SM (nearby_LineMin WL MD) \<le> tok_location T
       \<and> tok_location T \<le> translateLineCol SM (nearby_LineMax WL MD))"
    by (simp add: nearby_in_window_def Let_def WL_def MD_def)
  have low: "(translateLineCol SM (nearby_LineMin WL MD) \<le> tok_location T)
      = (nearby_LineMin WL MD \<le> Ln)"
    using s_tra [OF lb(3)] s_trc [OF lb(3) lb(4)] by fastforce
  have lowline: "(nearby_LineMin WL MD \<le> Ln) = (WL + 1 \<le> Ln + 2 ^ (N - 1))"
    unfolding lb(1) half using s_one(1) by auto
  show "WL + 1 \<le> Ln + 2 ^ (N - 1) \<and> Ln \<le> WL + 1 + 2 ^ N" if w: "nearby_in_window SM Word T"
  proof
    show "WL + 1 \<le> Ln + 2 ^ (N - 1)" using w win low lowline by simp
    have "tok_location T \<le> translateLineCol SM (nearby_LineMax WL MD)" using w win by simp
    then have "Ln \<le> getSpellingLineNumber SM (translateLineCol SM (nearby_LineMax WL MD))"
      unfolding Ln_def by (rule s_mono)
    also have "\<dots> \<le> nearby_LineMax WL MD" by (rule s_tr2 [OF lmax1])
    finally show "Ln \<le> WL + 1 + 2 ^ N" using lb(2) md(1) by simp
  qed
  show "nearby_in_window SM Word T" if a: "WL + 1 \<le> Ln + 2 ^ (N - 1)" and b: "Ln \<le> WL + 2 ^ N"
  proof -
    have "Ln < nearby_LineMax WL MD" using lb(2) md(1) b by simp
    then have "tok_location T \<le> translateLineCol SM (nearby_LineMax WL MD)"
      by (rule s_trb [OF lmax1])
    then show ?thesis using a win low lowline by simp
  qed
qed

lemma token_cost_lines:
  assumes setting: "nearby_setting SM TB Word"
  shows "token_cost SM Word T =
     (if getSpellingLineNumber SM (w_Location Word) \<le> getSpellingLineNumber SM (tok_location T)
      then getSpellingLineNumber SM (tok_location T) - getSpellingLineNumber SM (w_Location Word)
      else 2 * (getSpellingLineNumber SM (w_Location Word)
                - getSpellingLineNumber SM (tok_location T)))"
proof -
  have "getSpellingLineNumber SM (w_Location Word) < 2 ^ 31 - 1"
    using setting by (simp add: nearby_setting_def)
  then have "2 * (getSpellingLineNumber SM (w_Location Word)
                - getSpellingLineNumber SM (tok_location T)) < 4294967296" by simp
  then have "u32 (2 * (getSpellingLineNumber SM (w_Location Word)
                - getSpellingLineNumber SM (tok_location T)))
      = 2 * (getSpellingLineNumber SM (w_Location Word)
                - getSpellingLineNumber SM (tok_location T))" by (rule u32_small)
  then show ?thesis by (simp add: token_cost_def nearby_Cost_def Let_def)
qed

lemma set_nearby_traversal: "set (nearby_traversal TB Word) = set (spelledTokens TB)"
proof -
  have "set (takeWhile P xs) \<union> set (dropWhile P xs) = set xs" for P :: "Token \<Rightarrow> bool" and xs
    by (metis set_append takeWhile_dropWhile_id)
  then show ?thesis by (auto simp: nearby_traversal_def)
qed

lemma findNearbyIdentifier_window_and_cost:
  assumes "nearby_setting SM TB Word"
  shows "findNearbyIdentifier Word TB SM =
           first_lowest (token_cost SM Word)
             (filter (nearby_candidate SM TB Word) (nearby_traversal TB Word))
    \<and> ((findNearbyIdentifier Word TB SM = None)
         = (\<forall>T \<in> set (spelledTokens TB). \<not> nearby_candidate SM TB Word T))
    \<and> (\<forall>Tok. findNearbyIdentifier Word TB SM = Some Tok \<longrightarrow>
          Tok \<in> set (spelledTokens TB) \<and> nearby_candidate SM TB Word Tok
          \<and> (\<forall>T \<in> set (spelledTokens TB). nearby_candidate SM TB Word T
                \<longrightarrow> token_cost SM Word Tok \<le> token_cost SM Word T)
          \<and> (\<exists>pre post. filter (nearby_candidate SM TB Word) (nearby_traversal TB Word)
                           = pre @ Tok # post
                \<and> (\<forall>T \<in> set pre. token_cost SM Word Tok < token_cost SM Word T)))
    \<and> (\<forall>T \<in> set (spelledTokens TB).
          (nearby_in_window SM Word T \<longrightarrow>
             getSpellingLineNumber SM (w_Location Word) + 1
               \<le> getSpellingLineNumber SM (tok_location T) + 2 ^ (min (length (w_Text Word)) 31 - 1)
             \<and> getSpellingLineNumber SM (tok_location T)
               \<le> getSpellingLineNumber SM (w_Location Word) + 1 + 2 ^ min (length (w_Text Word)) 31)
          \<and> (getSpellingLineNumber SM (w_Location Word) + 1
               \<le> getSpellingLineNumber SM (tok_location T) + 2 ^ (min (length (w_Text Word)) 31 - 1)
             \<and> getSpellingLineNumber SM (tok_location T)
               \<le> getSpellingLineNumber SM (w_Location Word) + 2 ^ min (length (w_Text Word)) 31
             \<longrightarrow> nearby_in_window SM Word T)
          \<and> token_cost SM Word T =
              (if getSpellingLineNumber SM (w_Location Word)
                    \<le> getSpellingLineNumber SM (tok_location T)
               then getSpellingLineNumber SM (tok_location T)
                    - getSpellingLineNumber SM (w_Location Word)
               else 2 * (getSpellingLineNumber SM (w_Location Word)
                         - getSpellingLineNumber SM (tok_location T))))"
proof -
  let ?cands = "filter (nearby_candidate SM TB Word) (nearby_traversal TB Word)"
  have eq: "findNearbyIdentifier Word TB SM = first_lowest (token_cost SM Word) ?cands"
    by (rule findNearbyIdentifier_spec [OF assms])
  have setc: "set ?cands = {T \<in> set (spelledTokens TB). nearby_candidate SM TB Word T}"
    by (auto simp: set_nearby_traversal)
  have none: "(findNearbyIdentifier Word TB SM = None)
         = (\<forall>T \<in> set (spelledTokens TB). \<not> nearby_candidate SM TB Word T)"
  proof -
    have "(findNearbyIdentifier Word TB SM = None) = (?cands = [])"
      unfolding eq by (rule first_lowest_None)
    also have "\<dots> = (set ?cands = {})" by (rule set_empty [symmetric])
    finally show ?thesis unfolding setc by blast
  qed
  have some: "\<forall>Tok. findNearbyIdentifier Word TB SM = Some Tok \<longrightarrow>
          Tok \<in> set (spelledTokens TB) \<and> nearby_candidate SM TB Word Tok
          \<and> (\<forall>T \<in> set (spelledTokens TB). nearby_candidate SM TB Word T
                \<longrightarrow> token_cost SM Word Tok \<le> token_cost SM Word T)
          \<and> (\<exists>pre post. ?cands = pre @ Tok # post
                \<and> (\<forall>T \<in> set pre. token_cost SM Word Tok < token_cost SM Word T))"
  proof (intro allI impI)
    fix Tok assume "findNearbyIdentifier Word TB SM = Some Tok"
    then have f: "first_lowest (token_cost SM Word) ?cands = Some Tok" unfolding eq .
    from first_lowest_min [OF f] have
      "Tok \<in> set ?cands" "\<forall>y \<in> set ?cands. token_cost SM Word Tok \<le> token_cost SM Word y"
      by auto
    then have 1: "Tok \<in> set (spelledTokens TB) \<and> nearby_candidate SM TB Word Tok"
      and 2: "\<forall>T \<in> set (spelledTokens TB). nearby_candidate SM TB Word T
                \<longrightarrow> token_cost SM Word Tok \<le> token_cost SM Word T"
      unfolding setc by auto
    from first_lowest_first [OF f] 1 2
    show "Tok \<in> set (spelledTokens TB) \<and> nearby_candidate SM TB Word Tok
          \<and> (\<forall>T \<in> set (spelledTokens TB). nearby_candidate SM TB Word T
                \<longrightarrow> token_cost SM Word Tok \<le> token_cost SM Word T)
          \<and> (\<exists>pre post. ?cands = pre @ Tok # post
                \<and> (\<forall>T \<in> set pre. token_cost SM Word Tok < token_cost SM Word T))"
      by blast
  qed
  have win: "\<forall>T \<in> set (spelledTokens TB).
          (nearby_in_window SM Word T \<longrightarrow>
             getSpellingLineNumber SM (w_Location Word) + 1
               \<le> getSpellingLineNumber SM (tok_location T) + 2 ^ (min (length (w_Text Word)) 31 - 1)
             \<and> getSpellingLineNumber SM (tok_location T)
               \<le> getSpellingLineNumber SM (w_Location Word) + 1 + 2 ^ min (length (w_Text Word)) 31)
          \<and> (getSpellingLineNumber SM (w_Location Word) + 1
               \<le> getSpellingLineNumber SM (tok_location T) + 2 ^ (min (length (w_Text Word)) 31 - 1)
             \<and> getSpellingLineNumber SM (tok_location T)
               \<le> getSpellingLineNumber SM (w_Location Word) + 2 ^ min (length (w_Text Word)) 31
             \<longrightarrow> nearby_in_window SM Word T)
          \<and> token_cost SM Word T =
              (if getSpellingLineNumber SM (w_Location Word)
                    \<le> getSpellingLineNumber SM (tok_location T)
               then getSpellingLineNumber SM (tok_location T)
                    - getSpellingLineNumber SM (w_Location Word)
               else 2 * (getSpellingLineNumber SM (w_Location Word)
                         - getSpellingLineNumber SM (tok_location T)))"
    using nearby_window_lines [OF assms] token_cost_lines [OF assms] by blast
  from eq none some win show ?thesis by blast
qed

lemma ex_I_line_above:
  "length (w_Text ex_I_word) = 1
   \<and> getSpellingLineNumber ex_SM (w_Location ex_I_word) = 5
   \<and> spelledTokens ex_I_TB = [ex_I_tok]
   \<and> getSpellingLineNumber ex_SM (tok_location ex_I_tok) = 4
   \<and> tok_kind ex_I_tok = tk_identifier \<and> tok_text ex_I_tok = w_Text ex_I_word
   \<and> tokenSpelledAt (tok_location ex_I_tok) ex_I_TB
   \<and> w_ExpandedToken ex_I_word = None \<and> w_PartOfSpelledToken ex_I_word = None
   \<and> findNearbyIdentifier ex_I_word ex_I_TB ex_SM = None"
proof -
  have l: "getSpellingLineNumber ex_SM (w_Location ex_I_word) = 5"
    by (simp add: ex_SM_def ex_I_word_def)
  have d: "nearby_MaxDistance ex_I_word = 2"
    by (simp add: nearby_MaxDistance_def ex_I_word_def u32_small)
  have m: "nearby_LineMin 5 2 = 5" "nearby_LineMax 5 2 = 8"
    by (simp_all add: nearby_LineMin_def nearby_LineMax_def u32_small)
  have "findNearbyIdentifier ex_I_word ex_I_TB ex_SM = None"
    unfolding findNearbyIdentifier_def
    by (simp add: Let_def ex_I_TB_def ex_TB_def l d m Consider_def tokenSpelledAt_def)
      (simp add: ex_I_tok_def ex_I_word_def ex_SM_def)
  then show ?thesis
    by (simp add: l tokenSpelledAt_def ex_I_TB_def ex_TB_def)
      (simp add: ex_I_tok_def ex_I_word_def ex_SM_def)
qed

text \<open>
  Claim C7, as the code has it. For a word that is not an expanded token and not
  part of a string literal, \<^verbatim>\<open>findNearbyIdentifier\<close> returns the first token of
  lowest cost among the candidates, taken in traversal order: the tokens from the
  word onwards, then the tokens before it, backwards. A candidate is an identifier
  with the word's text, at another location, inside the window, that is spelled at
  an expanded token or starts a macro expansion. It returns nothing exactly when
  there is no candidate. The cost is the line distance forwards and twice the line
  distance backwards. With \<open>N = min len 31\<close>, a token inside the window lies
  less than \<open>2 ^ (N - 1)\<close> lines before the word's line and at most \<open>2 ^ N + 1\<close>
  lines after it, and every token less than \<open>2 ^ (N - 1)\<close> lines before or at most
  \<open>2 ^ N\<close> lines after is inside. So the search does not reach the
  \<open>2 ^ (N - 1)\<close> lines backwards that the comment in the function states: for
  the one-letter word on line 5 the identifier on line 4 is not found.
\<close>

theorem findNearbyIdentifier_lowest_cost:
  assumes "nearby_setting SM TB Word"
  shows "(findNearbyIdentifier Word TB SM =
               first_lowest (token_cost SM Word)
                 (filter (nearby_candidate SM TB Word) (nearby_traversal TB Word))
        \<and> ((findNearbyIdentifier Word TB SM = None)
             = (\<forall>T \<in> set (spelledTokens TB). \<not> nearby_candidate SM TB Word T))
        \<and> (\<forall>Tok. findNearbyIdentifier Word TB SM = Some Tok \<longrightarrow>
              Tok \<in> set (spelledTokens TB) \<and> nearby_candidate SM TB Word Tok
              \<and> (\<forall>T \<in> set (spelledTokens TB). nearby_candidate SM TB Word T
                    \<longrightarrow> token_cost SM Word Tok \<le> token_cost SM Word T)
              \<and> (\<exists>pre post. filter (nearby_candidate SM TB Word) (nearby_traversal TB Word)
                               = pre @ Tok # post
                    \<and> (\<forall>T \<in> set pre. token_cost SM Word Tok < token_cost SM Word T)))
        \<and> (\<forall>T \<in> set (spelledTokens TB).
              (nearby_in_window SM Word T \<longrightarrow>
                 getSpellingLineNumber SM (w_Location Word) + 1
                   \<le> getSpellingLineNumber SM (tok_location T) + 2 ^ (min (length (w_Text Word)) 31 - 1)
                 \<and> getSpellingLineNumber SM (tok_location T)
                   \<le> getSpellingLineNumber SM (w_Location Word) + 1 + 2 ^ min (length (w_Text Word)) 31)
              \<and> (getSpellingLineNumber SM (w_Location Word) + 1
                   \<le> getSpellingLineNumber SM (tok_location T) + 2 ^ (min (length (w_Text Word)) 31 - 1)
                 \<and> getSpellingLineNumber SM (tok_location T)
                   \<le> getSpellingLineNumber SM (w_Location Word) + 2 ^ min (length (w_Text Word)) 31
                 \<longrightarrow> nearby_in_window SM Word T)
              \<and> token_cost SM Word T =
                  (if getSpellingLineNumber SM (w_Location Word)
                        \<le> getSpellingLineNumber SM (tok_location T)
                   then getSpellingLineNumber SM (tok_location T)
                        - getSpellingLineNumber SM (w_Location Word)
                   else 2 * (getSpellingLineNumber SM (w_Location Word)
                             - getSpellingLineNumber SM (tok_location T)))))
    \<and> length (w_Text ex_I_word) = 1
    \<and> getSpellingLineNumber ex_SM (w_Location ex_I_word) = 5
    \<and> spelledTokens ex_I_TB = [ex_I_tok]
    \<and> getSpellingLineNumber ex_SM (tok_location ex_I_tok) = 4
    \<and> tok_kind ex_I_tok = tk_identifier \<and> tok_text ex_I_tok = w_Text ex_I_word
    \<and> tokenSpelledAt (tok_location ex_I_tok) ex_I_TB
    \<and> w_ExpandedToken ex_I_word = None \<and> w_PartOfSpelledToken ex_I_word = None
    \<and> findNearbyIdentifier ex_I_word ex_I_TB ex_SM = None"
proof
  show "findNearbyIdentifier Word TB SM =
           first_lowest (token_cost SM Word)
             (filter (nearby_candidate SM TB Word) (nearby_traversal TB Word))
    \<and> ((findNearbyIdentifier Word TB SM = None)
         = (\<forall>T \<in> set (spelledTokens TB). \<not> nearby_candidate SM TB Word T))
    \<and> (\<forall>Tok. findNearbyIdentifier Word TB SM = Some Tok \<longrightarrow>
          Tok \<in> set (spelledTokens TB) \<and> nearby_candidate SM TB Word Tok
          \<and> (\<forall>T \<in> set (spelledTokens TB). nearby_candidate SM TB Word T
                \<longrightarrow> token_cost SM Word Tok \<le> token_cost SM Word T)
          \<and> (\<exists>pre post. filter (nearby_candidate SM TB Word) (nearby_traversal TB Word)
                           = pre @ Tok # post
                \<and> (\<forall>T \<in> set pre. token_cost SM Word Tok < token_cost SM Word T)))
    \<and> (\<forall>T \<in> set (spelledTokens TB).
          (nearby_in_window SM Word T \<longrightarrow>
             getSpellingLineNumber SM (w_Location Word) + 1
               \<le> getSpellingLineNumber SM (tok_location T) + 2 ^ (min (length (w_Text Word)) 31 - 1)
             \<and> getSpellingLineNumber SM (tok_location T)
               \<le> getSpellingLineNumber SM (w_Location Word) + 1 + 2 ^ min (length (w_Text Word)) 31)
          \<and> (getSpellingLineNumber SM (w_Location Word) + 1
               \<le> getSpellingLineNumber SM (tok_location T) + 2 ^ (min (length (w_Text Word)) 31 - 1)
             \<and> getSpellingLineNumber SM (tok_location T)
               \<le> getSpellingLineNumber SM (w_Location Word) + 2 ^ min (length (w_Text Word)) 31
             \<longrightarrow> nearby_in_window SM Word T)
          \<and> token_cost SM Word T =
              (if getSpellingLineNumber SM (w_Location Word)
                    \<le> getSpellingLineNumber SM (tok_location T)
               then getSpellingLineNumber SM (tok_location T)
                    - getSpellingLineNumber SM (w_Location Word)
               else 2 * (getSpellingLineNumber SM (w_Location Word)
                         - getSpellingLineNumber SM (tok_location T))))"
    by (rule findNearbyIdentifier_window_and_cost [OF assms])
  show "length (w_Text ex_I_word) = 1
   \<and> getSpellingLineNumber ex_SM (w_Location ex_I_word) = 5
   \<and> spelledTokens ex_I_TB = [ex_I_tok]
   \<and> getSpellingLineNumber ex_SM (tok_location ex_I_tok) = 4
   \<and> tok_kind ex_I_tok = tk_identifier \<and> tok_text ex_I_tok = w_Text ex_I_word
   \<and> tokenSpelledAt (tok_location ex_I_tok) ex_I_TB
   \<and> w_ExpandedToken ex_I_word = None \<and> w_PartOfSpelledToken ex_I_word = None
   \<and> findNearbyIdentifier ex_I_word ex_I_TB ex_SM = None"
    by (rule ex_I_line_above)
qed

lemma ex_SM_lines:
  "(\<forall>a b. a \<le> b \<longrightarrow> getSpellingLineNumber ex_SM a \<le> getSpellingLineNumber ex_SM b)
   \<and> (\<forall>Loc. \<forall>L \<ge> 1. (Loc < translateLineCol ex_SM L) = (getSpellingLineNumber ex_SM Loc < L))
   \<and> (\<forall>L \<ge> 1. getSpellingLineNumber ex_SM (translateLineCol ex_SM L) \<le> L)
   \<and> (\<forall>Loc. 1 \<le> getSpellingLineNumber ex_SM Loc)"
proof -
  have sel: "getSpellingLineNumber ex_SM = (\<lambda>Loc. Loc div 100 + 1)"
    "translateLineCol ex_SM = (\<lambda>Line. 100 * (Line - 1))"
    by (simp_all add: ex_SM_def)
  have a: "(Loc < 100 * (L - 1)) = (Loc div 100 + 1 < L)" if "1 \<le> L" for Loc L :: nat
  proof -
    have "(Loc div 100 < L - 1) = (Loc < (L - 1) * 100)"
      by (rule div_less_iff_less_mult) simp
    then show ?thesis using that by (simp add: mult.commute less_diff_conv)
  qed
  have b: "a div 100 \<le> b div 100" if "a \<le> b" for a b :: nat
    using that by (rule div_le_mono)
  have c: "100 * (L - 1) div 100 + 1 \<le> L" if "1 \<le> L" for L :: nat
    using that by simp
  show ?thesis unfolding sel using a b c by simp
qed

lemma ex_tie_setting: "nearby_setting ex_SM ex_tie_TB ex_foo_word"
proof -
  have "\<forall>T \<in> set (spelledTokens ex_tie_TB). \<forall>L \<ge> 1.
          (tok_location T < translateLineCol ex_SM L
             \<longrightarrow> getSpellingLineNumber ex_SM (tok_location T) < L)
          \<and> (getSpellingLineNumber ex_SM (tok_location T) < L
             \<longrightarrow> tok_location T \<le> translateLineCol ex_SM L)
          \<and> (L \<le> getSpellingLineNumber ex_SM (w_Location ex_foo_word)
             \<longrightarrow> getSpellingLineNumber ex_SM (tok_location T) < L
             \<longrightarrow> tok_location T < translateLineCol ex_SM L)"
    using ex_SM_lines by (metis less_imp_le_nat)
  moreover have "w_ExpandedToken ex_foo_word = None" "w_PartOfSpelledToken ex_foo_word = None"
    "w_Text ex_foo_word = ''foo''" "getSpellingLineNumber ex_SM (w_Location ex_foo_word) = 3"
    by (simp_all add: ex_foo_word_def ex_SM_def)
  moreover have "sorted_wrt (\<lambda>a b. tok_location a < tok_location b) (spelledTokens ex_tie_TB)"
    "\<forall>T \<in> set (spelledTokens ex_tie_TB). getSpellingLineNumber ex_SM (tok_location T) < 2 ^ 31"
    by (simp_all add: ex_tie_TB_def ex_TB_def ex_foo_above_def ex_foo_below_def ex_SM_def)
  ultimately show ?thesis
    unfolding nearby_setting_def using ex_SM_lines by simp
qed

theorem findNearbyIdentifier_lowest_cost_witness:
  "nearby_setting ex_SM ex_tie_TB ex_foo_word
   \<and> nearby_traversal ex_tie_TB ex_foo_word = [ex_foo_below, ex_foo_above]
   \<and> token_cost ex_SM ex_foo_word ex_foo_below = 2
   \<and> token_cost ex_SM ex_foo_word ex_foo_above = 2
   \<and> findNearbyIdentifier ex_foo_word ex_tie_TB ex_SM = Some ex_foo_below"
proof -
  have d: "nearby_MaxDistance ex_foo_word = 8"
    by (simp add: nearby_MaxDistance_def ex_foo_word_def u32_small)
  have m: "nearby_LineMin 3 8 = 1" "nearby_LineMax 3 8 = 12"
    by (simp_all add: nearby_LineMin_def nearby_LineMax_def u32_small)
  have l: "getSpellingLineNumber ex_SM (w_Location ex_foo_word) = 3"
    by (simp add: ex_SM_def ex_foo_word_def)
  have tr: "nearby_traversal ex_tie_TB ex_foo_word = [ex_foo_below, ex_foo_above]"
    by (simp add: nearby_traversal_def ex_tie_TB_def ex_TB_def ex_foo_above_def ex_foo_below_def
        ex_foo_word_def)
  have c: "token_cost ex_SM ex_foo_word ex_foo_below = 2"
    "token_cost ex_SM ex_foo_word ex_foo_above = 2"
    by (simp_all add: token_cost_def nearby_Cost_def l u32_small)
      (simp_all add: ex_SM_def ex_foo_above_def ex_foo_below_def u32_small)
  have w: "nearby_candidate ex_SM ex_tie_TB ex_foo_word ex_foo_below"
    "nearby_candidate ex_SM ex_tie_TB ex_foo_word ex_foo_above"
    by (simp_all add: nearby_candidate_def nearby_in_window_def l d m tokenSpelledAt_def)
      (simp_all add: ex_SM_def ex_tie_TB_def ex_TB_def ex_foo_above_def ex_foo_below_def
        ex_foo_word_def)
  have "findNearbyIdentifier ex_foo_word ex_tie_TB ex_SM
          = first_lowest (token_cost ex_SM ex_foo_word)
              (filter (nearby_candidate ex_SM ex_tie_TB ex_foo_word)
                 (nearby_traversal ex_tie_TB ex_foo_word))"
    using findNearbyIdentifier_lowest_cost [OF ex_tie_setting, THEN conjunct1]
    by (rule conjunct1)
  then have "findNearbyIdentifier ex_foo_word ex_tie_TB ex_SM = Some ex_foo_below"
    by (simp add: tr w c)
  with ex_tie_setting tr c show ?thesis by simp
qed

subsection \<open>The run is the first hit of the steps in order\<close>

lemma touched_loop_first_hit:
  "first_hit (touched_steps lib AST Index P toks @ rest) =
     (case touched_loop lib AST Index P toks of
        (tr, Inl Found) \<Rightarrow> (tr, Found)
      | (tr, Inr T) \<Rightarrow> (let (tr', res) = first_hit rest in (tr @ tr', res)))"
proof (induction toks)
  case Nil
  then show ?case by (simp split: prod.splits)
next
  case (Cons Tok toks)
  then show ?case
    by (auto simp: Let_def split: prod.splits option.splits sum.splits)
qed

lemma touched_loop_identifier:
  "touched_loop lib AST Index P toks = (tr, Inr T) \<Longrightarrow>
   T = List.find (\<lambda>T. tok_kind T = tk_identifier) toks"
proof (induction toks arbitrary: tr)
  case Nil
  then show ?case by simp
next
  case (Cons Tok toks)
  then show ?case
    by (auto simp: Let_def split: prod.splits option.splits sum.splits if_splits)
qed

lemma locate_fallback_first_hit:
  "locate_fallback lib score AST Index (tuPath AST) Word NK
     = first_hit (nearby_steps lib score AST Index Word NK)"
  by (auto simp: locate_fallback_def nearby_steps_def Let_def
      split: option.splits prod.splits)

lemma locateSymbolAt_run_first_hit:
  "locateSymbolAt_run lib score AST Pos Index
     = first_hit (resolution_steps lib score AST Pos Index)"
proof (cases "locateFileReferent lib Pos AST (tuPath AST)")
  case (Some File)
  then show ?thesis
    by (simp add: locateSymbolAt_run_def resolution_steps_def Let_def)
next
  case None
  note nofile = None
  show ?thesis
  proof (cases "sourceLocationInMainFile (getSourceManager AST) Pos")
    case None
    with nofile show ?thesis
      by (simp add: locateSymbolAt_run_def resolution_steps_def Let_def)
  next
    case (Some CurLoc)
    let ?toks = "spelledTokensTouching (getTokens AST) CurLoc"
    obtain tr r where tl: "touched_loop lib AST Index (tuPath AST) ?toks = (tr, r)"
      by (cases "touched_loop lib AST Index (tuPath AST) ?toks") auto
    show ?thesis
    proof (cases r)
      case (Inl Found)
      with nofile Some tl show ?thesis
        by (simp add: locateSymbolAt_run_def resolution_steps_def Let_def touched_loop_first_hit
            split: prod.splits)
    next
      case (Inr T)
      then have T: "T = List.find (\<lambda>T. tok_kind T = tk_identifier) ?toks"
        using tl touched_loop_identifier by blast
      obtain ASTResults NK where
        ast: "locateASTReferent lib CurLoc T AST (tuPath AST) Index NK_None = (ASTResults, NK)"
        by (cases "locateASTReferent lib CurLoc T AST (tuPath AST) Index NK_None") auto
      show ?thesis
        using nofile Some tl Inr ast T
        by (auto simp: locateSymbolAt_run_def resolution_steps_def Let_def touched_loop_first_hit
            locate_fallback_first_hit split: prod.splits option.splits)
    qed
  qed
qed

lemma first_hit_find:
  "first_hit steps =
     (map (\<lambda>s. (fst s, snd s \<noteq> []))
        (takeWhile (\<lambda>s. snd s = []) steps @ take 1 (dropWhile (\<lambda>s. snd s = []) steps)),
      (case List.find (\<lambda>s. snd s \<noteq> []) steps of None \<Rightarrow> [] | Some s \<Rightarrow> snd s))"
  by (induction steps) (auto split: prod.splits)

lemma locate_fallback_nearby:
  "locate_fallback lib score AST Index P Word NK = (tr, r) \<Longrightarrow>
   S_ASTNearby \<in> fst ` set tr \<Longrightarrow> (S_MacroNearby, False) \<in> set tr"
  by (auto simp: locate_fallback_def Let_def split: if_splits option.splits prod.splits)

lemma locateSymbolAt_nearby_AST:
  assumes "S_ASTNearby \<in> fst ` set (fst (locateSymbolAt_run lib score AST Pos Index))"
  shows "(S_MacroNearby, False) \<in> set (fst (locateSymbolAt_run lib score AST Pos Index))
     \<and> (S_ASTAtCursor, False) \<in> set (fst (locateSymbolAt_run lib score AST Pos Index))"
proof (cases "locateFileReferent lib Pos AST (tuPath AST)")
  case (Some File)
  with assms show ?thesis by (simp add: locateSymbolAt_run_def)
next
  case None
  note nofile = None
  show ?thesis
  proof (cases "sourceLocationInMainFile (getSourceManager AST) Pos")
    case None
    with nofile assms show ?thesis by (simp add: locateSymbolAt_run_def)
  next
    case (Some CurLoc)
    obtain tr r where tl: "touched_loop lib AST Index (tuPath AST)
        (spelledTokensTouching (getTokens AST) CurLoc) = (tr, r)"
      by (cases "touched_loop lib AST Index (tuPath AST)
        (spelledTokensTouching (getTokens AST) CurLoc)") auto
    note mem = touched_loop_members [OF tl]
    have notr: "S_ASTNearby \<notin> fst ` set tr" using mem by auto
    show ?thesis
    proof (cases r)
      case (Inl Found)
      with nofile Some tl assms notr show ?thesis
        by (auto simp: locateSymbolAt_run_def Let_def)
    next
      case (Inr T)
      obtain ASTResults NK where
        ast: "locateASTReferent lib CurLoc T AST (tuPath AST) Index NK_None = (ASTResults, NK)"
        by (cases "locateASTReferent lib CurLoc T AST (tuPath AST) Index NK_None") auto
      show ?thesis
      proof (cases "ASTResults \<noteq> [] \<or> wordTouching (getTokens AST) CurLoc = None")
        case True
        with nofile Some tl Inr ast assms notr show ?thesis
          by (auto simp: locateSymbolAt_run_def Let_def split: option.splits)
      next
        case False
        then obtain Word where w: "wordTouching (getTokens AST) CurLoc = Some Word"
          and e: "ASTResults = []" by auto
        obtain tr' r' where lf: "locate_fallback lib score AST Index (tuPath AST) Word NK = (tr', r')"
          by (cases "locate_fallback lib score AST Index (tuPath AST) Word NK") auto
        have run: "fst (locateSymbolAt_run lib score AST Pos Index)
            = (S_FileReferent, False) # tr @ (S_ASTAtCursor, False) # tr'"
          using nofile Some tl Inr ast w e lf by (simp add: locateSymbolAt_run_def Let_def)
        have "S_ASTNearby \<in> fst ` set tr'" using assms notr unfolding run by auto
        from locate_fallback_nearby [OF lf this] show ?thesis unfolding run by simp
      qed
    qed
  qed
qed

text \<open>
  Claim C4, as the code has it. \<^verbatim>\<open>locateSymbolAt\<close> takes its steps in this
  order: the include line; for the tokens touching the cursor, the deduced type of
  \<^verbatim>\<open>auto\<close> or \<^verbatim>\<open>decltype\<close> and the macro at the first identifier; the AST at
  the cursor; the macro at the nearby identifier; the AST at the nearby identifier;
  the textual index lookup. Its run is the first hit of that list: each step is
  taken only if every step before it produced nothing, and the result is what the
  first step that produced something returned (nothing if none did). So the steps
  of a run are in order, every one but the last produced nothing, a macro found at
  the cursor ends the run before the AST is consulted, the nearby identifier and the
  textual lookup are tried only after the AST at the cursor produced nothing, and
  the AST at the nearby identifier only after the macro there produced nothing.
\<close>

theorem locateSymbolAt_steps_in_order:
  fixes score :: "Symbol \<Rightarrow> 's::linorder"
  shows "locateSymbolAt_run lib score AST Pos Index
           = first_hit (resolution_steps lib score AST Pos Index)
    \<and> locateSymbolAt lib score AST Pos Index
         = (case List.find (\<lambda>s. snd s \<noteq> []) (resolution_steps lib score AST Pos Index) of
              None \<Rightarrow> [] | Some s \<Rightarrow> snd s)
    \<and> trace_in_order (fst (locateSymbolAt_run lib score AST Pos Index))
         (locateSymbolAt lib score AST Pos Index)
    \<and> ((S_MacroAtCursor, True) \<in> set (fst (locateSymbolAt_run lib score AST Pos Index))
         \<longrightarrow> S_ASTAtCursor \<notin> fst ` set (fst (locateSymbolAt_run lib score AST Pos Index)))
    \<and> (S_Textual \<in> fst ` set (fst (locateSymbolAt_run lib score AST Pos Index))
         \<longrightarrow> (S_ASTAtCursor, False) \<in> set (fst (locateSymbolAt_run lib score AST Pos Index)))
    \<and> (S_MacroNearby \<in> fst ` set (fst (locateSymbolAt_run lib score AST Pos Index))
         \<longrightarrow> (S_ASTAtCursor, False) \<in> set (fst (locateSymbolAt_run lib score AST Pos Index)))
    \<and> (S_ASTNearby \<in> fst ` set (fst (locateSymbolAt_run lib score AST Pos Index))
         \<longrightarrow> (S_MacroNearby, False) \<in> set (fst (locateSymbolAt_run lib score AST Pos Index))
             \<and> (S_ASTAtCursor, False) \<in> set (fst (locateSymbolAt_run lib score AST Pos Index)))"
proof -
  have run: "locateSymbolAt_run lib score AST Pos Index
           = first_hit (resolution_steps lib score AST Pos Index)"
    by (rule locateSymbolAt_run_first_hit)
  have res: "locateSymbolAt lib score AST Pos Index
         = (case List.find (\<lambda>s. snd s \<noteq> []) (resolution_steps lib score AST Pos Index) of
              None \<Rightarrow> [] | Some s \<Rightarrow> snd s)"
    unfolding locateSymbolAt_def run by (subst first_hit_find) simp
  have nearby: "S_ASTNearby \<in> fst ` set (fst (locateSymbolAt_run lib score AST Pos Index))
         \<longrightarrow> (S_MacroNearby, False) \<in> set (fst (locateSymbolAt_run lib score AST Pos Index))
             \<and> (S_ASTAtCursor, False) \<in> set (fst (locateSymbolAt_run lib score AST Pos Index))"
    using locateSymbolAt_nearby_AST [of lib score AST Pos Index] by blast
  from run res nearby locateSymbolAt_trace_in_order [of lib score AST Pos Index]
  show ?thesis by (intro conjI) (elim conjE, assumption)+
qed

theorem locateSymbolAt_steps_in_order_witness:
  "trace_in_order (fst (locateSymbolAt_run ex_lib sym_ID ex_macro_AST (ex_pos 5 0) (Some ex_index)))
     (locateSymbolAt ex_lib sym_ID ex_macro_AST (ex_pos 5 0) (Some ex_index))
   \<and> (S_MacroAtCursor, True)
       \<in> set (fst (locateSymbolAt_run ex_lib sym_ID ex_macro_AST (ex_pos 5 0) (Some ex_index)))
   \<and> S_ASTAtCursor
       \<notin> fst ` set (fst (locateSymbolAt_run ex_lib sym_ID ex_macro_AST (ex_pos 5 0) (Some ex_index)))
   \<and> S_Textual
       \<in> fst ` set (fst (locateSymbolAt_run ex_lib sym_ID ex_comment_AST (ex_pos 2 10) (Some ex_foo_index)))
   \<and> S_ASTNearby
       \<in> fst ` set (fst (locateSymbolAt_run ex_lib sym_ID ex_comment_AST (ex_pos 2 10) (Some ex_foo_index)))
   \<and> (S_MacroNearby, False)
       \<in> set (fst (locateSymbolAt_run ex_lib sym_ID ex_comment_AST (ex_pos 2 10) (Some ex_foo_index)))
   \<and> (S_ASTAtCursor, False)
       \<in> set (fst (locateSymbolAt_run ex_lib sym_ID ex_comment_AST (ex_pos 2 10) (Some ex_foo_index)))
   \<and> map fst (fst (first_hit (resolution_steps ex_lib sym_ID ex_comment_AST (ex_pos 2 10)
        (Some ex_foo_index))))
       = [S_FileReferent, S_ASTAtCursor, S_MacroNearby, S_ASTNearby, S_Textual]"
proof -
  let ?macro = "locateSymbolAt_run ex_lib sym_ID ex_macro_AST (ex_pos 5 0) (Some ex_index)"
  let ?comment = "locateSymbolAt_run ex_lib sym_ID ex_comment_AST (ex_pos 2 10) (Some ex_foo_index)"
  note macro = locateSymbolAt_steps_in_order
    [of ex_lib sym_ID ex_macro_AST "ex_pos 5 0" "Some ex_index"]
  note comment = locateSymbolAt_steps_in_order
    [of ex_lib sym_ID ex_comment_AST "ex_pos 2 10" "Some ex_foo_index"]
  have m: "(S_MacroAtCursor, True) \<in> set (fst ?macro)"
    by (simp add: ex_macro_run)
  have t: "S_Textual \<in> fst ` set (fst ?comment)" "S_ASTNearby \<in> fst ` set (fst ?comment)"
    by (simp_all add: ex_comment_trace)
  have 1: "trace_in_order (fst ?macro)
     (locateSymbolAt ex_lib sym_ID ex_macro_AST (ex_pos 5 0) (Some ex_index))"
    using macro by (elim conjE)
  have 2: "S_ASTAtCursor \<notin> fst ` set (fst ?macro)"
    using macro m by (elim conjE) blast
  have 3: "(S_MacroNearby, False) \<in> set (fst ?comment) \<and> (S_ASTAtCursor, False) \<in> set (fst ?comment)"
    using comment t by (elim conjE) blast
  have "?comment = first_hit (resolution_steps ex_lib sym_ID ex_comment_AST (ex_pos 2 10)
        (Some ex_foo_index))"
    using comment by (elim conjE)
  then have 4: "map fst (fst (first_hit (resolution_steps ex_lib sym_ID ex_comment_AST (ex_pos 2 10)
        (Some ex_foo_index))))
       = [S_FileReferent, S_ASTAtCursor, S_MacroNearby, S_ASTNearby, S_Textual]"
    using ex_comment_trace by simp
  from m t 1 2 3 4 show ?thesis by simp
qed

subsection \<open>A definition only when one is known\<close>

lemma definition_known_cong:
  "Name R' = Name R \<Longrightarrow> ID R' = ID R \<Longrightarrow>
   definition_known lib AST Index R' = definition_known lib AST Index R"
  by (simp add: definition_known_def made_from_def)

lemma located_ok_AddResultDecl:
  "list_all (located_ok lib AST Index) Result \<Longrightarrow>
   list_all (located_ok lib AST Index) (AddResultDecl lib AST (tuPath AST) Result D)"
proof -
  assume a: "list_all (located_ok lib AST Index) Result"
  then have p: "list_all (populated lib AST) Result"
    by (simp add: list_all_iff located_ok_def)
  have pop: "list_all (populated lib AST) (AddResultDecl lib AST (tuPath AST) Result D)"
    by (rule populated_AddResultDecl [OF p])
  have "\<forall>R \<in> set (AddResultDecl lib AST (tuPath AST) Result D).
          Definition R \<noteq> None \<longrightarrow> definition_known lib AST Index R"
    using a
    by (auto simp: AddResultDecl_def Let_def list_all_iff located_ok_def definition_known_def
        split: option.splits)
  with pop show ?thesis by (simp add: list_all_iff located_ok_def)
qed

lemma located_ok_fold_AddResultDecl:
  "list_all (located_ok lib AST Index) Result \<Longrightarrow>
   list_all (located_ok lib AST Index) (foldl (AddResultDecl lib AST (tuPath AST)) Result Ds)"
  by (induction Ds arbitrary: Result) (auto simp: located_ok_AddResultDecl)

lemma located_ok_candidate_step:
  "list_all (located_ok lib AST Index) (fst st) \<Longrightarrow>
   list_all (located_ok lib AST Index)
     (fst (candidate_step lib AST CurLoc T (tuPath AST) NK n st E))"
  by (auto simp: candidate_step_def Let_def located_ok_AddResultDecl located_ok_fold_AddResultDecl
      split: option.splits)

lemma located_ok_fold_candidate_step:
  "list_all (located_ok lib AST Index) (fst st) \<Longrightarrow>
   list_all (located_ok lib AST Index)
     (fst (foldl (candidate_step lib AST CurLoc T (tuPath AST) NK n) st Es))"
  by (induction Es arbitrary: st) (auto simp: located_ok_candidate_step)

lemma enhance_one_Name_ID:
  "Name (enhance_one lib P Sym R) = Name R \<and> ID (enhance_one lib P Sym R) = ID R"
  by (auto simp: enhance_one_def Let_def split: option.splits)

lemma located_ok_enhance_one:
  assumes ok: "located_ok lib AST Index R"
    and holds: "index_holds Index Sym"
    and same: "sym_ID Sym = ID R" "ID R \<noteq> 0"
  shows "located_ok lib AST Index (enhance_one lib (tuPath AST) Sym R)"
proof -
  let ?R = "enhance_one lib (tuPath AST) Sym R"
  have pop: "populated lib AST ?R"
    using ok by (simp add: located_ok_def populated_enhance_one)
  have cong: "definition_known lib AST Index ?R = definition_known lib AST Index R"
    by (rule definition_known_cong) (simp_all add: enhance_one_Name_ID)
  have "definition_known lib AST Index R" if "Definition ?R \<noteq> None"
  proof (cases "Definition R")
    case (Some Def)
    then show ?thesis using ok by (simp add: located_ok_def)
  next
    case None
    then have "Definition ?R = toLSPLocation lib (sym_Definition Sym) (tuPath AST)"
      by (auto simp: enhance_one_def Let_def split: option.splits)
    with that have "symloc_valid (sym_Definition Sym)"
      by (auto simp: toLSPLocation_def split: if_splits)
    then show ?thesis
      using holds same unfolding definition_known_def made_from_def by auto
  qed
  with pop cong show ?thesis by (simp add: located_ok_def)
qed

lemma located_ok_enhance_fold:
  assumes "\<forall>S \<in> set syms. index_holds Index S
             \<and> (\<exists>v < length Res. RI (sym_ID S) = Some v \<and> ID (Res ! v) = sym_ID S \<and> sym_ID S \<noteq> 0)"
    and "list_all (located_ok lib AST Index) Res"
  shows "list_all (located_ok lib AST Index) (foldl (enhance_callback lib (tuPath AST) RI) Res syms)"
  using assms
proof (induction syms arbitrary: Res)
  case Nil
  then show ?case by simp
next
  case (Cons S syms)
  from Cons.prems(1) obtain v where v: "v < length Res" "RI (sym_ID S) = Some v"
    "ID (Res ! v) = sym_ID S" "sym_ID S \<noteq> 0" and h: "index_holds Index S" by auto
  let ?R = "enhance_one lib (tuPath AST) S (Res ! v)"
  let ?Res = "Res[v := ?R]"
  have step: "enhance_callback lib (tuPath AST) RI Res S = ?Res"
    using v(2) by (simp add: enhance_callback_def ResultIndex_lookup_def Let_def)
  have "located_ok lib AST Index (Res ! v)"
    using Cons.prems(2) v(1) by (simp add: list_all_length)
  then have okR: "located_ok lib AST Index ?R"
    using h v(3,4) by (intro located_ok_enhance_one) simp_all
  have ok: "list_all (located_ok lib AST Index) ?Res"
    using Cons.prems(2) okR v(1) by (auto simp: list_all_length nth_list_update)
  have ids: "ID (?Res ! w) = ID (Res ! w)" if "w < length Res" for w
    using that v(1) by (cases "w = v") (simp_all add: enhance_one_Name_ID)
  have rest: "\<forall>S' \<in> set syms. index_holds Index S'
       \<and> (\<exists>w < length ?Res. RI (sym_ID S') = Some w \<and> ID (?Res ! w) = sym_ID S' \<and> sym_ID S' \<noteq> 0)"
  proof
    fix S' assume "S' \<in> set syms"
    with Cons.prems(1) obtain w where "index_holds Index S'" "w < length Res"
      "RI (sym_ID S') = Some w" "ID (Res ! w) = sym_ID S'" "sym_ID S' \<noteq> 0" by auto
    then show "index_holds Index S'
       \<and> (\<exists>w < length ?Res. RI (sym_ID S') = Some w \<and> ID (?Res ! w) = sym_ID S' \<and> sym_ID S' \<noteq> 0)"
      using ids by auto
  qed
  show ?case using Cons.IH [OF rest ok] step by simp
qed

lemma located_ok_enhance:
  assumes ok: "list_all (located_ok lib AST Index') Result"
    and req: "lookup_answers_requested Index"
    and same: "Index = Index'"
  shows "list_all (located_ok lib AST Index')
           (enhanceLocatedSymbolsFromIndex lib Result Index (tuPath AST))"
proof (cases Index)
  case None
  then show ?thesis using ok by (simp add: enhanceLocatedSymbolsFromIndex_def split_beta)
next
  case (Some idx)
  show ?thesis
  proof (cases "requested_IDs Result = {}")
    case True
    have "snd (build_ResultIndex Result 0 (Map.empty, {})) = requested_IDs Result"
      using build_ResultIndex_IDs [of Result 0 Map.empty "{}"] by simp
    then show ?thesis using ok True Some
      by (simp add: enhanceLocatedSymbolsFromIndex_def split_beta)
  next
    case False
    let ?RI = "fst (build_ResultIndex Result 0 (Map.empty, {}))"
    let ?syms = "idx_lookup idx (requested_IDs Result)"
    have syms: "\<forall>S \<in> set ?syms. index_holds Index' S
             \<and> (\<exists>v < length Result. ?RI (sym_ID S) = Some v \<and> ID (Result ! v) = sym_ID S
                   \<and> sym_ID S \<noteq> 0)"
    proof
      fix S assume S: "S \<in> set ?syms"
      then have h: "index_holds Index' S"
        using Some same unfolding index_holds_def by blast
      have r: "sym_ID S \<in> requested_IDs Result"
        using req S Some unfolding lookup_answers_requested_def by blast
      then have nz: "sym_ID S \<noteq> 0" by (auto simp: requested_IDs_def)
      from build_ResultIndex_dom [OF r, of "{}"] h nz
      show "index_holds Index' S
             \<and> (\<exists>v < length Result. ?RI (sym_ID S) = Some v \<and> ID (Result ! v) = sym_ID S
                   \<and> sym_ID S \<noteq> 0)" by blast
    qed
    show ?thesis
      unfolding Some enhanceLocatedSymbolsFromIndex_unfold [OF False]
      by (rule located_ok_enhance_fold [OF syms ok])
  qed
qed

lemma located_ok_findImplementors_callback:
  assumes r: "rejects_null lib (tuPath AST)"
    and h: "index_holds Index (snd SO)"
    and ok: "list_all (located_ok lib AST Index) Results"
  shows "list_all (located_ok lib AST Index)
           (findImplementors_callback lib (tuPath AST) Results SO)"
proof -
  have pop: "list_all (populated lib AST) (findImplementors_callback lib (tuPath AST) Results SO)"
    using ok by (intro populated_findImplementors_callback [OF r]) (simp add: list_all_iff located_ok_def)
  have valid: "symloc_valid (sym_Definition (snd SO))"
    if "indexToLSPLocation lib (sym_Definition (snd SO)) (tuPath AST) = Some L" for L
    using r that unfolding rejects_null_def by (metis option.distinct(1))
  have "\<forall>R \<in> set (findImplementors_callback lib (tuPath AST) Results SO).
          Definition R \<noteq> None \<longrightarrow> definition_known lib AST Index R"
    using ok h valid
    by (auto simp: findImplementors_callback_def Let_def list_all_iff located_ok_def
        definition_known_def made_from_def empty_LocatedSymbol_def split: option.splits)
  with pop show ?thesis by (simp add: list_all_iff located_ok_def)
qed

lemma located_ok_findImplementors_fold:
  "rejects_null lib (tuPath AST) \<Longrightarrow> \<forall>SO \<in> set SOs. index_holds Index (snd SO) \<Longrightarrow>
   list_all (located_ok lib AST Index) Results \<Longrightarrow>
   list_all (located_ok lib AST Index)
     (foldl (findImplementors_callback lib (tuPath AST)) Results SOs)"
  by (induction SOs arbitrary: Results) (auto simp: located_ok_findImplementors_callback)

lemma located_ok_findImplementors:
  assumes r: "rejects_null lib (tuPath AST)"
  shows "list_all (located_ok lib AST Index) (findImplementors lib IDs Predicate Index (tuPath AST))"
proof (cases Index)
  case None
  then show ?thesis by (simp add: findImplementors_def)
next
  case (Some idx)
  have "\<forall>SO \<in> set (idx_relations idx IDs Predicate). index_holds Index (snd SO)"
  proof
    fix SO assume "SO \<in> set (idx_relations idx IDs Predicate)"
    then have "snd SO \<in> snd ` set (idx_relations idx IDs Predicate)" by simp
    then show "index_holds Index (snd SO)" unfolding index_holds_def Some by blast
  qed
  from located_ok_findImplementors_fold [OF r this, of "[]"]
  show ?thesis by (simp add: findImplementors_def Some)
qed

lemma located_ok_locateASTReferent:
  assumes r: "rejects_null lib (tuPath AST)" and req: "lookup_answers_requested Index"
  shows "list_all (located_ok lib AST Index)
     (fst (locateASTReferent lib CurLoc T AST (tuPath AST) Index NK))"
proof -
  have "list_all (located_ok lib AST Index)
     (fst (foldl (candidate_step lib AST CurLoc T (tuPath AST) NK' n) ([], {}) Es))" for NK' n Es
    by (rule located_ok_fold_candidate_step) simp
  then have "foldl (candidate_step lib AST CurLoc T (tuPath AST) NK' n) ([], {}) Es = (Res, V)
     \<Longrightarrow> list_all (located_ok lib AST Index) Res" for NK' n Es Res V
    by (metis fst_conv)
  then have "foldl (candidate_step lib AST CurLoc T (tuPath AST) NK' n) ([], {}) Es = (Res, V)
     \<Longrightarrow> list_all (located_ok lib AST Index)
           (enhanceLocatedSymbolsFromIndex lib Res Index (tuPath AST))" for NK' n Es Res V
    using located_ok_enhance [OF _ req refl] by blast
  then show ?thesis
    using located_ok_findImplementors [OF r]
    by (auto simp: locateASTReferent_def Let_def split: prod.splits)
qed

lemma located_ok_locateSymbolForType:
  "lookup_answers_requested Index \<Longrightarrow>
   list_all (located_ok lib AST Index) (locateSymbolForType lib AST Type Index)"
  by (simp add: locateSymbolForType_def Let_def located_ok_enhance located_ok_fold_AddResultDecl)

lemma located_ok_textual_located:
  assumes r: "rejects_null lib (tuPath AST)" and h: "index_holds Index Sym"
    and t: "textual_located lib (tuPath AST) Sym = Some R"
  shows "located_ok lib AST Index R"
proof -
  have pop: "populated lib AST R" by (rule populated_textual_located [OF r t])
  have "Definition R \<noteq> None \<longrightarrow> symloc_valid (sym_Definition Sym) \<and> made_from R Sym"
    using t
    by (auto simp: textual_located_def Let_def empty_LocatedSymbol_def made_from_def
        split: option.splits if_splits)
  with pop h show ?thesis unfolding located_ok_def definition_known_def by blast
qed

lemma located_ok_textual_callback:
  "rejects_null lib (tuPath AST) \<Longrightarrow> index_holds Index Sym \<Longrightarrow>
   list_all (located_ok lib AST Index) (map snd (fst st)) \<Longrightarrow>
   list_all (located_ok lib AST Index)
     (map snd (fst (textual_callback lib score W (tuPath AST) st Sym)))"
  by (auto simp: textual_callback_def located_ok_textual_located split: option.splits)

lemma located_ok_textual_fold:
  "rejects_null lib (tuPath AST) \<Longrightarrow> \<forall>Sym \<in> set syms. index_holds Index Sym \<Longrightarrow>
   list_all (located_ok lib AST Index) (map snd (fst st)) \<Longrightarrow>
   list_all (located_ok lib AST Index)
     (map snd (fst (foldl (textual_callback lib score W (tuPath AST)) st syms)))"
  by (induction syms arbitrary: st) (auto simp: located_ok_textual_callback)

lemma located_ok_locateSymbolTextually:
  assumes r: "rejects_null lib (tuPath AST)"
  shows "list_all (located_ok lib AST Index)
     (locateSymbolTextually lib score vis Word Index (tuPath AST) NK)"
proof (cases Index)
  case None
  then show ?thesis by (simp add: locateSymbolTextually_def)
next
  case (Some idx)
  have h: "\<forall>Sym \<in> set (idx_fuzzyFind idx Req). index_holds Index Sym" for Req
    unfolding index_holds_def Some by auto
  have "list_all (located_ok lib AST Index)
     (map snd (fst (foldl (textual_callback lib score W (tuPath AST)) ([], False)
        (idx_fuzzyFind idx Req))))" for W Req
    by (rule located_ok_textual_fold [OF r h]) simp
  then have "foldl (textual_callback lib score W (tuPath AST)) ([], False) (idx_fuzzyFind idx Req)
       = (Scored, TooMany)
     \<Longrightarrow> list_all (located_ok lib AST Index) (map snd Scored)" for W Req Scored TooMany
    by (metis fst_conv)
  then have "foldl (textual_callback lib score W (tuPath AST)) ([], False) (idx_fuzzyFind idx Req)
       = (Scored, TooMany)
     \<Longrightarrow> list_all (located_ok lib AST Index) (map snd (llvm_sort lt Scored))"
    for W Req Scored TooMany lt
    by (simp add: list_all_iff set_llvm_sort)
  then show ?thesis
    by (auto simp: locateSymbolTextually_def Let_def Some split: option.splits prod.splits)
qed

lemma located_ok_locateFileReferent:
  assumes a: "locateFileReferent lib Pos AST (tuPath AST) = Some File"
  shows "located_ok lib AST Index File"
proof -
  from a obtain Inc where
    f: "List.find (\<lambda>Inc. inc_Resolved Inc \<noteq> [] \<and> inc_HashLine Inc = pos_line Pos)
          (MainFileIncludes AST) = Some Inc"
    and F: "Name File = path_filename lib (inc_Resolved Inc)" "ID File = 0"
    by (auto simp: locateFileReferent_def locateFileReferent_loop_find)
  from f have "Inc \<in> set (MainFileIncludes AST) \<and> inc_Resolved Inc \<noteq> []"
    by (auto simp: find_Some_iff in_set_conv_nth)
  with F have "definition_known lib AST Index File"
    unfolding definition_known_def by blast
  with populated_locateFileReferent [OF a] show ?thesis by (simp add: located_ok_def)
qed

lemma located_ok_locateMacroReferent:
  assumes a: "locateMacroReferent lib Tok AST (tuPath AST) = Some Macro"
  shows "located_ok lib AST Index Macro"
proof -
  from a obtain M where "locateMacroAt AST Tok = Some M" "Name Macro = dm_Name M"
    "ID Macro = getMacroSymbolID AST (dm_Name M) (dm_Info M)"
    by (auto simp: locateMacroReferent_def empty_LocatedSymbol_def split: option.splits)
  then have "definition_known lib AST Index Macro"
    unfolding definition_known_def by blast
  with populated_locateMacroReferent [OF a] show ?thesis by (simp add: located_ok_def)
qed

lemma located_ok_touched_loop:
  "lookup_answers_requested Index \<Longrightarrow>
   touched_loop lib AST Index (tuPath AST) toks = (tr, Inl Found) \<Longrightarrow>
   list_all (located_ok lib AST Index) Found"
proof (induction toks arbitrary: tr)
  case Nil
  then show ?case by simp
next
  case (Cons Tok toks)
  then show ?case
    by (auto simp: Let_def located_ok_locateMacroReferent located_ok_locateSymbolForType
        split: if_splits option.splits prod.splits)
qed

lemma located_ok_locate_fallback:
  assumes r: "rejects_null lib (tuPath AST)" and req: "lookup_answers_requested Index"
    and f: "locate_fallback lib score AST Index (tuPath AST) Word NK = (tr, res)"
  shows "list_all (located_ok lib AST Index) res"
proof -
  have a: "locateASTReferent lib L T AST (tuPath AST) Index NK = (Res, NK')
      \<Longrightarrow> list_all (located_ok lib AST Index) Res" for L T Res NK'
    using located_ok_locateASTReferent [OF r req, of L T NK] by simp
  have t: "list_all (located_ok lib AST Index)
      (locateSymbolTextually lib score (visibleNamespacesAt AST) Word Index (tuPath AST) NK')" for NK'
    by (rule located_ok_locateSymbolTextually [OF r])
  show ?thesis
    using f a t
    by (auto simp: locate_fallback_def Let_def located_ok_locateMacroReferent
        split: option.splits prod.splits if_splits)
qed

lemma located_ok_locateSymbolAt:
  fixes score :: "Symbol \<Rightarrow> 's::linorder"
  assumes r: "rejects_null lib (tuPath AST)" and req: "lookup_answers_requested Index"
  shows "list_all (located_ok lib AST Index) (locateSymbolAt lib score AST Pos Index)"
proof -
  have a: "locateASTReferent lib L T AST (tuPath AST) Index NK = (Res, NK')
      \<Longrightarrow> list_all (located_ok lib AST Index) Res" for L T Res NK NK'
    using located_ok_locateASTReferent [OF r req, of L T NK] by simp
  show ?thesis
    unfolding locateSymbolAt_def locateSymbolAt_run_def Let_def
    using a located_ok_locate_fallback [OF r req, where score = score]
    by (auto simp: located_ok_locateFileReferent dest: located_ok_touched_loop [OF req]
        split: option.splits prod.splits sum.splits if_splits)
qed

text \<open>
  Claim C9. Given that \<^verbatim>\<open>indexToLSPLocation\<close> fails on the null location, every
  located symbol that \<^verbatim>\<open>locateSymbolAt\<close>, \<^verbatim>\<open>findImplementors\<close>,
  \<^verbatim>\<open>locateSymbolForType\<close> and \<^verbatim>\<open>locateSymbolTextually\<close> return has a preferred
  declaration that a conversion produced (of a valid index location, of a source
  location of the file, or of a resolved include), and it has a definition only if
  a definition is known for that symbol: the declaration it names has one in the
  AST, or the index holds a valid definition location for the symbol it was made
  from, or it is a macro or an included file. For the two operations that enhance
  their results by an index lookup this needs the index to answer with requested
  ids only (the code writes the answer for an id it did not request into the first
  result).
\<close>

theorem located_symbols_populated:
  fixes score :: "Symbol \<Rightarrow> 's::linorder"
  assumes "rejects_null lib (tuPath AST)"
  shows "(lookup_answers_requested Index \<longrightarrow>
            list_all (located_ok lib AST Index) (locateSymbolAt lib score AST Pos Index)
            \<and> list_all (located_ok lib AST Index) (locateSymbolForType lib AST Type Index))
    \<and> list_all (located_ok lib AST Index) (findImplementors lib IDs Predicate Index (tuPath AST))
    \<and> list_all (located_ok lib AST Index)
        (locateSymbolTextually lib score vis Word Index (tuPath AST) NodeKind)
    \<and> list_all (populated lib AST) (locateSymbolAt lib score AST Pos Index)
    \<and> list_all (populated lib AST) (locateSymbolForType lib AST Type Index)"
  using assms
  by (simp add: located_ok_locateSymbolAt located_ok_findImplementors
      located_ok_locateSymbolForType located_ok_locateSymbolTextually
      populated_locateSymbolAt populated_locateSymbolForType)

lemma ex_ns_index_requested: "lookup_answers_requested (Some ex_ns_index)"
  by (simp add: lookup_answers_requested_def ex_ns_index_def ex_index_def ex_ns_symbol_def
      empty_Symbol_def)

lemma ex_ns_nothing_known:
  "Name R = ''decl'' \<Longrightarrow> \<not> definition_known ex_lib ex_ns_AST None R"
  by (simp add: definition_known_def index_holds_def ex_ns_AST_def ex_AST_def ex_ns_ctx_def ex_ctx_def
      getDefinition_def getDefinition_tail_def isa_TagDecl_def isa_FunctionDecl_def
      isa_ValueDecl_def isa_ObjCContainerDecl_def)

theorem located_symbols_populated_witness:
  "rejects_null ex_lib (tuPath ex_ns_AST)
   \<and> lookup_answers_requested (Some ex_ns_index)
   \<and> map Name (locateSymbolAt ex_lib sym_ID ex_ns_AST (ex_pos 5 0) (Some ex_ns_index)) = [''decl'']
   \<and> map Definition (locateSymbolAt ex_lib sym_ID ex_ns_AST (ex_pos 5 0) (Some ex_ns_index))
       = [Some \<lparr>loc_uri = ''file:///ns.cpp'',
                loc_range = \<lparr>range_start = \<lparr>pos_line = 3, pos_character = 10\<rparr>,
                             range_end = \<lparr>pos_line = 3, pos_character = 12\<rparr>\<rparr>\<rparr>]
   \<and> list_all (located_ok ex_lib ex_ns_AST (Some ex_ns_index))
        (locateSymbolAt ex_lib sym_ID ex_ns_AST (ex_pos 5 0) (Some ex_ns_index))
   \<and> map Definition (locateSymbolAt ex_lib sym_ID ex_ns_AST (ex_pos 5 0) None) = [None]
   \<and> list_all (located_ok ex_lib ex_ns_AST None)
        (locateSymbolAt ex_lib sym_ID ex_ns_AST (ex_pos 5 0) None)
   \<and> \<not> list_ex (definition_known ex_lib ex_ns_AST None)
        (locateSymbolAt ex_lib sym_ID ex_ns_AST (ex_pos 5 0) None)"
proof -
  have none: "lookup_answers_requested None"
    by (simp add: lookup_answers_requested_def)
  have d: "map Name (locateSymbolAt ex_lib sym_ID ex_ns_AST (ex_pos 5 0) (Some ex_ns_index)) = [''decl'']"
    "map Definition (locateSymbolAt ex_lib sym_ID ex_ns_AST (ex_pos 5 0) (Some ex_ns_index))
       = [Some \<lparr>loc_uri = ''file:///ns.cpp'',
                loc_range = \<lparr>range_start = \<lparr>pos_line = 3, pos_character = 10\<rparr>,
                             range_end = \<lparr>pos_line = 3, pos_character = 12\<rparr>\<rparr>\<rparr>]"
    by (simp_all add: run_defs ex_ns_ctx_def ex_node5_def ex_ns_AST_def ex_ns_symbol_def
        ex_ns_index_def ex_defs)
  have n: "map Definition (locateSymbolAt ex_lib sym_ID ex_ns_AST (ex_pos 5 0) None) = [None]"
    "map Name (locateSymbolAt ex_lib sym_ID ex_ns_AST (ex_pos 5 0) None) = [''decl'']"
    by (simp_all add: run_defs ex_ns_ctx_def ex_node5_def ex_ns_AST_def ex_defs)
  have u: "\<not> list_ex (definition_known ex_lib ex_ns_AST None)
        (locateSymbolAt ex_lib sym_ID ex_ns_AST (ex_pos 5 0) None)"
    using n(2) by (auto simp: list_ex_iff ex_ns_nothing_known)
  from d n(1) u none ex_ns_index_requested ex_lib_rejects_null [of "tuPath ex_ns_AST"]
    located_symbols_populated [OF ex_lib_rejects_null, where AST = ex_ns_AST and score = sym_ID
      and Pos = "ex_pos 5 0" and Index = "Some ex_ns_index"]
    located_symbols_populated [OF ex_lib_rejects_null, where AST = ex_ns_AST and score = sym_ID
      and Pos = "ex_pos 5 0" and Index = None]
  show ?thesis by simp
qed

subsection \<open>A namespace with a definition from the index\<close>

text \<open>
  Claim C6, as the code has it. \<^verbatim>\<open>getDefinition\<close> follows the rule per kind: the
  definition the declaration knows for a tag, a variable and a function; the
  definition of the templated record for a class template; the method itself for an
  Objective-C method that is a definition; nothing for a namespace and for any kind
  the function does not name. A declaration without a definition enters the result
  of the AST step without a \<open>Definition\<close>, but the index enhancement then sets
  it to the conversion of the definition location the index holds. So, against the
  comment at \<^verbatim>\<open>getDefinition\<close>, a kind for which it always returns null can have
  a definition reported by \<^verbatim>\<open>locateSymbolAt\<close>: the namespace under the cursor is
  returned with the definition location of the index.
\<close>

theorem getDefinition_per_kind:
  "(isa_TagDecl (declClass ctx D) \<or> declClass ctx D = C_Var \<or> isa_FunctionDecl (declClass ctx D)
      \<longrightarrow> getDefinition ctx D = decl_getDefinition ctx D)
   \<and> (declClass ctx D = C_ClassTemplate \<longrightarrow> getTemplatedDecl ctx D = Some RD
      \<longrightarrow> getDefinition ctx D = decl_getDefinition ctx RD)
   \<and> (declClass ctx D = C_ObjCMethod \<longrightarrow> isThisDeclarationADefinition ctx D
      \<longrightarrow> getDefinition ctx D = Some D)
   \<and> (declClass ctx D = C_Namespace \<or> declClass ctx D = C_Other \<longrightarrow> getDefinition ctx D = None)
   \<and> (getDefinition (getASTContext AST) (getPreferredDecl (getASTContext AST) D) = None \<longrightarrow>
        AddResultDecl lib AST P Result D = Result
        \<or> (\<exists>R. AddResultDecl lib AST P Result D = Result @ [R] \<and> Definition R = None))
   \<and> (Definition R = None \<longrightarrow>
        Definition (enhance_one lib P Sym R) = toLSPLocation lib (sym_Definition Sym) P
        \<and> (\<not> symloc_valid (sym_Definition Sym) \<longrightarrow> Definition (enhance_one lib P Sym R) = None))
   \<and> declClass ex_ns_ctx 5 = C_Namespace \<and> getDefinition ex_ns_ctx 5 = None
   \<and> map Definition (locateSymbolAt ex_lib sym_ID ex_ns_AST (ex_pos 5 0) (Some ex_ns_index))
       = [Some \<lparr>loc_uri = ''file:///ns.cpp'',
                loc_range = \<lparr>range_start = \<lparr>pos_line = 3, pos_character = 10\<rparr>,
                             range_end = \<lparr>pos_line = 3, pos_character = 12\<rparr>\<rparr>\<rparr>]
   \<and> map Definition (locateSymbolAt ex_lib sym_ID ex_ns_AST (ex_pos 5 0) None) = [None]"
proof -
  have kinds: "(isa_TagDecl (declClass ctx D) \<or> declClass ctx D = C_Var \<or> isa_FunctionDecl (declClass ctx D)
      \<longrightarrow> getDefinition ctx D = decl_getDefinition ctx D)
   \<and> (declClass ctx D = C_ClassTemplate \<longrightarrow> getTemplatedDecl ctx D = Some RD
      \<longrightarrow> getDefinition ctx D = decl_getDefinition ctx RD)
   \<and> (declClass ctx D = C_ObjCMethod \<longrightarrow> isThisDeclarationADefinition ctx D
      \<longrightarrow> getDefinition ctx D = Some D)
   \<and> (declClass ctx D = C_Namespace \<or> declClass ctx D = C_Other \<longrightarrow> getDefinition ctx D = None)"
    by (auto simp: getDefinition_def getDefinition_tail_def getDefinition_objc_method_def
      isa_TagDecl_def isa_FunctionDecl_def isa_ValueDecl_def isa_ObjCContainerDecl_def)
  have ast: "getDefinition (getASTContext AST) (getPreferredDecl (getASTContext AST) D) = None \<longrightarrow>
        AddResultDecl lib AST P Result D = Result
        \<or> (\<exists>R. AddResultDecl lib AST P Result D = Result @ [R] \<and> Definition R = None)"
    using AddResultDecl_no_definition [of AST D lib P Result] by blast
  have idx: "Definition R = None \<longrightarrow>
        Definition (enhance_one lib P Sym R) = toLSPLocation lib (sym_Definition Sym) P
        \<and> (\<not> symloc_valid (sym_Definition Sym) \<longrightarrow> Definition (enhance_one lib P Sym R) = None)"
    using enhance_one_takes_index_definition [of R lib P Sym]
      toLSPLocation_null [of "sym_Definition Sym" lib P] by simp
  have ns: "declClass ex_ns_ctx 5 = C_Namespace \<and> getDefinition ex_ns_ctx 5 = None
   \<and> map Definition (locateSymbolAt ex_lib sym_ID ex_ns_AST (ex_pos 5 0) (Some ex_ns_index))
       = [Some \<lparr>loc_uri = ''file:///ns.cpp'',
                loc_range = \<lparr>range_start = \<lparr>pos_line = 3, pos_character = 10\<rparr>,
                             range_end = \<lparr>pos_line = 3, pos_character = 12\<rparr>\<rparr>\<rparr>]"
    by (simp add: run_defs ex_ns_ctx_def ex_node5_def ex_ns_AST_def ex_ns_symbol_def
        ex_ns_index_def ex_defs)
  have nsn: "map Definition (locateSymbolAt ex_lib sym_ID ex_ns_AST (ex_pos 5 0) None) = [None]"
    by (simp add: run_defs ex_ns_ctx_def ex_node5_def ex_ns_AST_def ex_defs)
  from kinds ast idx ns nsn show ?thesis by (intro conjI) (elim conjE, assumption)+
qed

theorem getDefinition_per_kind_witness:
  "declClass ex_ns_ctx 5 = C_Namespace \<and> getDefinition ex_ns_ctx 5 = None
   \<and> getPreferredDecl ex_ns_ctx 5 = 5
   \<and> map Definition (AddResultDecl ex_lib ex_ns_AST ''/main.cpp'' [] 5) = [None]
   \<and> Definition ex_ast_result = None
   \<and> Definition (enhance_one ex_lib ''/main.cpp'' ex_ns_symbol ex_ast_result)
       = toLSPLocation ex_lib (sym_Definition ex_ns_symbol) ''/main.cpp''
   \<and> Definition (enhance_one ex_lib ''/main.cpp'' empty_Symbol ex_ast_result) = None"
proof -
  have c: "declClass ex_ns_ctx 5 = C_Namespace" "getPreferredDecl ex_ns_ctx 5 = 5"
    "getASTContext ex_ns_AST = ex_ns_ctx"
    by (simp_all add: ex_ns_ctx_def ex_ctx_def ex_ns_AST_def ex_AST_def getPreferredDecl_def)
  have r: "Definition ex_ast_result = None" "\<not> symloc_valid (sym_Definition empty_Symbol)"
    by (simp_all add: ex_ast_result_def empty_Symbol_def empty_SymbolLocation_def symloc_valid_def)
  have a: "AddResultDecl ex_lib ex_ns_AST ''/main.cpp'' [] 5 \<noteq> []"
    by (simp add: AddResultDecl_def makeLocation_def c Let_def)
      (simp add: ex_ns_AST_def ex_AST_def ex_SM_def ex_ns_ctx_def ex_ctx_def ex_lib_def)
  note t1 = getDefinition_per_kind [where ctx = ex_ns_ctx and D = 5 and RD = 0 and AST = ex_ns_AST
      and lib = ex_lib and P = "''/main.cpp''" and Result = "[]" and R = ex_ast_result
      and Sym = ex_ns_symbol]
  note t2 = getDefinition_per_kind [where ctx = ex_ns_ctx and D = 5 and RD = 0 and AST = ex_ns_AST
      and lib = ex_lib and P = "''/main.cpp''" and Result = "[]" and R = ex_ast_result
      and Sym = empty_Symbol]
  from t1 have k4: "declClass ex_ns_ctx 5 = C_Namespace \<or> declClass ex_ns_ctx 5 = C_Other
      \<longrightarrow> getDefinition ex_ns_ctx 5 = None"
    by (elim conjE)
  from t1 have k5: "getDefinition (getASTContext ex_ns_AST)
        (getPreferredDecl (getASTContext ex_ns_AST) 5) = None \<longrightarrow>
      AddResultDecl ex_lib ex_ns_AST ''/main.cpp'' [] 5 = []
      \<or> (\<exists>R. AddResultDecl ex_lib ex_ns_AST ''/main.cpp'' [] 5 = [] @ [R] \<and> Definition R = None)"
    by (elim conjE)
  from t1 have k6: "Definition ex_ast_result = None \<longrightarrow>
      Definition (enhance_one ex_lib ''/main.cpp'' ex_ns_symbol ex_ast_result)
        = toLSPLocation ex_lib (sym_Definition ex_ns_symbol) ''/main.cpp''
      \<and> (\<not> symloc_valid (sym_Definition ex_ns_symbol) \<longrightarrow>
           Definition (enhance_one ex_lib ''/main.cpp'' ex_ns_symbol ex_ast_result) = None)"
    by (elim conjE)
  from t2 have k7: "Definition ex_ast_result = None \<longrightarrow>
      Definition (enhance_one ex_lib ''/main.cpp'' empty_Symbol ex_ast_result)
        = toLSPLocation ex_lib (sym_Definition empty_Symbol) ''/main.cpp''
      \<and> (\<not> symloc_valid (sym_Definition empty_Symbol) \<longrightarrow>
           Definition (enhance_one ex_lib ''/main.cpp'' empty_Symbol ex_ast_result) = None)"
    by (elim conjE)
  have g: "getDefinition ex_ns_ctx 5 = None"
    using k4 c(1) by simp
  have add: "map Definition (AddResultDecl ex_lib ex_ns_AST ''/main.cpp'' [] 5) = [None]"
    using k5 c g a by auto
  have e1: "Definition (enhance_one ex_lib ''/main.cpp'' ex_ns_symbol ex_ast_result)
       = toLSPLocation ex_lib (sym_Definition ex_ns_symbol) ''/main.cpp''"
    using k6 r(1) by simp
  have e2: "Definition (enhance_one ex_lib ''/main.cpp'' empty_Symbol ex_ast_result) = None"
    using k7 r by blast
  from c g add r e1 e2 show ?thesis by simp
qed

end
